(* ===== verification/Prelude.thy ===== *)
theory Prelude
  imports Main "HOL-Library.Sublist"
begin

text \<open>
  Shared vocabulary of the development.

  \<^item> Python values that cross a component border (\<open>pyval\<close>), the exceptions the services
    raise (\<open>py_exc\<close>), results that may be an exception (\<open>'a res\<close>) and state-passing
    programs whose effects survive an exception (\<open>('s, 'a) prog\<close>).
  \<^item> The operations on \<^verbatim>\<open>str\<close> that the sources use (\<^verbatim>\<open>startswith\<close>, \<^verbatim>\<open>in\<close>,
    \<^verbatim>\<open>replace\<close>, \<^verbatim>\<open>partition\<close>, \<^verbatim>\<open>lower\<close>, \<^verbatim>\<open>strip\<close>), \<^verbatim>\<open>str(int)\<close> and \<^verbatim>\<open>int(str)\<close>.
    A Python string is a \<open>string\<close>: the model ranges over strings whose code points are
    below 256.
  \<^item> Generic lemmas on these, collected in \<open>py_simps\<close>.
\<close>

named_theorems py_simps \<open>rewrite rules for the Python string and number operations\<close>
named_theorems prog_simps \<open>rewrite rules for results and state-passing programs\<close>

section \<open>Values\<close>

text \<open>
  A finite \<^verbatim>\<open>decimal.Decimal\<close>: \<open>Dec c e\<close> is \<open>c * 10 ^ e\<close>. A binary double is
  \<open>PFloat m e\<close>, the number \<open>m * 2 ^ e\<close>; a timezone-aware \<^verbatim>\<open>datetime\<close> is its number of
  microseconds since the epoch.
\<close>

datatype decimal = Dec (coeff: int) (expo: int)

datatype pyval =
    PNone
  | PBool bool
  | PInt int
  | PFloat int int
  | PStr string
  | PDecimal decimal
  | PDatetime int
  | PList "pyval list"
  | PDict "(string \<times> pyval) list"

text \<open>\<^verbatim>\<open>d.get(k)\<close> on a dictionary kept in insertion order; the first binding counts.\<close>

definition dict_get :: "(string \<times> pyval) list \<Rightarrow> string \<Rightarrow> pyval option" where
  "dict_get d k = map_of d k"

text \<open>The truth value of \<^verbatim>\<open>if v:\<close>.\<close>

fun truthy :: "pyval \<Rightarrow> bool" where
  "truthy PNone = False"
| "truthy (PBool b) = b"
| "truthy (PInt i) = (i \<noteq> 0)"
| "truthy (PFloat m e) = (m \<noteq> 0)"
| "truthy (PStr s) = (s \<noteq> [])"
| "truthy (PDecimal d) = (coeff d \<noteq> 0)"
| "truthy (PDatetime us) = True"
| "truthy (PList vs) = (vs \<noteq> [])"
| "truthy (PDict d) = (d \<noteq> [])"

section \<open>Exceptions, results and state-passing programs\<close>

text \<open>
  \<^verbatim>\<open>KeyError\<close> carries the missing string; for a key that is not a string, \<open>KeyErrorOf\<close> carries its
  \<^verbatim>\<open>repr\<close>. \<open>RuntimeError\<close> carries its message.
\<close>

datatype py_exc =
    HTTPException int pyval
  | RequestValidationError
  | KeyError string
  | ValueError
  | TypeError
  | InvalidOperation
  | JSONDecodeError
  | CsvError
  | IntegrityError
  | StaleDataError
  | InvalidRequestError
  | DataError
  | OperationalError
  | ProgrammingError
  | MultipleResultsFound
  | UnicodeDecodeError
  | OverflowError
  | OSError
  | PyMongoError
  | AMQPConnectionError
  | AMQPChannelError
  | RuntimeError string
  | KeyErrorOf string
  | IndexError
  | AttributeError
  | InvalidURL
  | KeyboardInterrupt

type_synonym 'a res = "py_exc + 'a"

type_synonym ('s, 'a) prog = "'s \<Rightarrow> 'a res \<times> 's"

abbreviation http_error :: "int \<Rightarrow> string \<Rightarrow> py_exc" where
  "http_error status msg \<equiv> HTTPException status (PStr msg)"

definition bind_res :: "'a res \<Rightarrow> ('a \<Rightarrow> 'b res) \<Rightarrow> 'b res" where
  "bind_res m f = (case m of Inl e \<Rightarrow> Inl e | Inr x \<Rightarrow> f x)"

definition bind_prog :: "('s, 'a) prog \<Rightarrow> ('a \<Rightarrow> ('s, 'b) prog) \<Rightarrow> ('s, 'b) prog" where
  "bind_prog m f s = (case m s of (Inl e, s') \<Rightarrow> (Inl e, s') | (Inr x, s') \<Rightarrow> f x s')"

definition return_prog :: "'a \<Rightarrow> ('s, 'a) prog" where
  "return_prog x s = (Inr x, s)"

definition raise_prog :: "py_exc \<Rightarrow> ('s, 'a) prog" where
  "raise_prog e s = (Inl e, s)"

definition lift_res :: "'a res \<Rightarrow> ('s, 'a) prog" where
  "lift_res r s = (r, s)"

text \<open>The outcomes of \<open>n\<close> runs, one after the other.\<close>

fun repeat_prog :: "nat \<Rightarrow> ('s, 'a) prog \<Rightarrow> 's \<Rightarrow> 'a res list \<times> 's" where
  "repeat_prog 0 m s = ([], s)"
| "repeat_prog (Suc n) m s =
     (case m s of (r, s') \<Rightarrow> (case repeat_prog n m s' of (rs, s'') \<Rightarrow> (r # rs, s'')))"

lemma bind_res_simps [simp, prog_simps]:
  "bind_res (Inl e) f = Inl e"
  "bind_res (Inr x) f = f x"
  by (simp_all add: bind_res_def)

lemma bind_res_eq_Inr [prog_simps]:
  "bind_res m f = Inr y \<longleftrightarrow> (\<exists>x. m = Inr x \<and> f x = Inr y)"
  by (cases m) simp_all

lemma prog_run_simps [simp, prog_simps]:
  "return_prog x s = (Inr x, s)"
  "raise_prog e s = (Inl e, s)"
  "lift_res r s = (r, s)"
  by (simp_all add: return_prog_def raise_prog_def lift_res_def)

lemma bind_prog_Inl [simp, prog_simps]: "m s = (Inl e, s') \<Longrightarrow> bind_prog m f s = (Inl e, s')"
  by (simp add: bind_prog_def)

lemma bind_prog_Inr [simp, prog_simps]: "m s = (Inr x, s') \<Longrightarrow> bind_prog m f s = f x s'"
  by (simp add: bind_prog_def)

lemma bind_prog_eq_Inr:
  "bind_prog m f s = (Inr y, s2) \<longleftrightarrow> (\<exists>x s1. m s = (Inr x, s1) \<and> f x s1 = (Inr y, s2))"
  by (auto simp: bind_prog_def split: prod.splits sum.splits)

lemma bind_prog_eq_Inl:
  "bind_prog m f s = (Inl e, s2) \<longleftrightarrow>
     m s = (Inl e, s2) \<or> (\<exists>x s1. m s = (Inr x, s1) \<and> f x s1 = (Inl e, s2))"
  by (auto simp: bind_prog_def split: prod.splits sum.splits)

section \<open>Strings\<close>

definition startswith :: "string \<Rightarrow> string \<Rightarrow> bool" where
  "startswith s p = (take (length p) s = p)"

definition endswith :: "string \<Rightarrow> string \<Rightarrow> bool" where
  "endswith s p = (drop (length s - length p) s = p)"

fun contains_str :: "string \<Rightarrow> string \<Rightarrow> bool" where
  "contains_str p [] = (p = [])"
| "contains_str p (c # s) = (startswith (c # s) p \<or> contains_str p s)"

text \<open>\<^verbatim>\<open>s.replace(old, new, 1)\<close>.\<close>

fun replace_first :: "string \<Rightarrow> string \<Rightarrow> string \<Rightarrow> string" where
  "replace_first old new [] = (if old = [] then new else [])"
| "replace_first old new (c # s) =
     (if startswith (c # s) old then new @ drop (length old) (c # s)
      else c # replace_first old new s)"

text \<open>\<^verbatim>\<open>s.partition(c)\<close> for a separator of one character: head, separator, tail.\<close>

definition partition_str :: "char \<Rightarrow> string \<Rightarrow> string \<times> string \<times> string" where
  "partition_str c s =
     (if c \<in> set s
      then (takeWhile (\<lambda>d. d \<noteq> c) s, [c], tl (dropWhile (\<lambda>d. d \<noteq> c) s))
      else (s, [], []))"

definition lower_char :: "char \<Rightarrow> char" where
  "lower_char c =
     (let n = (of_char c :: int)
      in if (65 \<le> n \<and> n \<le> 90) \<or> (192 \<le> n \<and> n \<le> 222 \<and> n \<noteq> 215)
         then char_of (n + 32) else c)"

definition lower_str :: "string \<Rightarrow> string" where
  "lower_str s = map lower_char s"

definition is_space :: "char \<Rightarrow> bool" where
  "is_space c =
     (let n = (of_char c :: int)
      in (9 \<le> n \<and> n \<le> 13) \<or> (28 \<le> n \<and> n \<le> 32) \<or> n = 133 \<or> n = 160)"

definition strip :: "string \<Rightarrow> string" where
  "strip s = rev (dropWhile is_space (rev (dropWhile is_space s)))"

definition is_digit :: "char \<Rightarrow> bool" where
  "is_digit c = (let n = (of_char c :: int) in 48 \<le> n \<and> n \<le> 57)"

definition digit_val :: "char \<Rightarrow> int" where
  "digit_val c = of_char c - 48"

definition digit_char :: "int \<Rightarrow> char" where
  "digit_char n = char_of (48 + n)"

text \<open>The value of a string of digits.\<close>

definition digits_val :: "string \<Rightarrow> int" where
  "digits_val s = foldl (\<lambda>n c. 10 * n + digit_val c) 0 s"

text \<open>\<^verbatim>\<open>str(n)\<close>, first for \<open>0 \<le> n\<close>.\<close>

function nat_str :: "int \<Rightarrow> string" where
  "nat_str n =
     (if n < 10 then [digit_char n] else nat_str (n div 10) @ [digit_char (n mod 10)])"
  by pat_completeness auto
termination
  by (relation "measure nat") auto

declare nat_str.simps [simp del]

definition int_str :: "int \<Rightarrow> string" where
  "int_str i = (if i < 0 then CHR ''-'' # nat_str (- i) else nat_str i)"

text \<open>
  \<^verbatim>\<open>int(s)\<close>: surrounding white space, an optional sign, digits with single underscores between
  them; more than 4300 digits is a \<^verbatim>\<open>ValueError\<close> like any malformed literal.
\<close>

fun split_sign :: "string \<Rightarrow> bool \<times> string" where
  "split_sign (c # s) =
     (if c = CHR ''-'' then (True, s) else if c = CHR ''+'' then (False, s) else (False, c # s))"
| "split_sign [] = (False, [])"

fun underscores_ok :: "string \<Rightarrow> bool" where
  "underscores_ok (a # b # s) =
     (if is_digit a then (is_digit b \<or> b = CHR ''_'') \<and> underscores_ok (b # s)
      else a = CHR ''_'' \<and> is_digit b \<and> underscores_ok (b # s))"
| "underscores_ok [a] = is_digit a"
| "underscores_ok [] = False"

definition int_literal :: "string \<Rightarrow> string option" where
  "int_literal s =
     (case s of [] \<Rightarrow> None
      | a # _ \<Rightarrow>
          (if is_digit a \<and> underscores_ok s
           then (let ds = filter is_digit s in if length ds \<le> 4300 then Some ds else None)
           else None))"

definition int_of_str :: "string \<Rightarrow> int option" where
  "int_of_str s =
     (let (neg, body) = split_sign (strip s)
      in case int_literal body of None \<Rightarrow> None
         | Some ds \<Rightarrow> Some (if neg then - digits_val ds else digits_val ds))"

section \<open>Lemmas\<close>

lemma startswith_append [simp]: "startswith (p @ s) p"
  by (simp add: startswith_def)

lemma startswith_Cons [simp]:
  "startswith s [] = True"
  "startswith [] (p # ps) = False"
  "startswith (c # s) (p # ps) = (c = p \<and> startswith s ps)"
  by (auto simp: startswith_def)

lemma startswith_iff: "startswith s p \<longleftrightarrow> (\<exists>t. s = p @ t)"
  by (metis append_eq_conv_conj append_take_drop_id startswith_def)

lemma contains_str_iff: "contains_str p s \<longleftrightarrow> (\<exists>u v. s = u @ p @ v)"
proof (induction s)
  case Nil
  then show ?case by auto
next
  case (Cons c s)
  have "(\<exists>u v. c # s = u @ p @ v) \<longleftrightarrow> (\<exists>v. c # s = p @ v) \<or> (\<exists>u v. s = u @ p @ v)"
    by (metis append.left_neutral append_Cons append_eq_Cons_conv)
  with Cons show ?case
    by (simp add: startswith_iff)
qed

lemma replace_first_prefix: "replace_first p new (p @ s) = new @ s"
proof (cases "p @ s")
  case Nil
  then show ?thesis by simp
next
  case (Cons c t)
  then have "startswith (c # t) p" and "drop (length p) (c # t) = s"
    by (metis startswith_append, metis append_eq_conv_conj)
  with Cons show ?thesis by simp
qed

lemma split_at_char: "x @ c # r = y @ c # r' \<Longrightarrow> c \<notin> set x \<Longrightarrow> c \<notin> set y \<Longrightarrow> x = y \<and> r = r'"
proof (induction x arbitrary: y)
  case Nil
  then show ?case by (cases y) auto
next
  case (Cons a x)
  then show ?case by (cases y) auto
qed

lemma of_char_digit_char [simp]: "0 \<le> n \<Longrightarrow> n < 10 \<Longrightarrow> of_char (digit_char n) = (48 + n :: int)"
  by (simp add: digit_char_def)

lemma is_digit_digit_char [simp]: "0 \<le> n \<Longrightarrow> n < 10 \<Longrightarrow> is_digit (digit_char n)"
  by (simp add: is_digit_def)

lemma digit_val_digit_char [simp]: "0 \<le> n \<Longrightarrow> n < 10 \<Longrightarrow> digit_val (digit_char n) = n"
  by (simp add: digit_val_def)

lemma digits_val_append1 [simp]: "digits_val (s @ [c]) = 10 * digits_val s + digit_val c"
  by (simp add: digits_val_def)

lemma nat_str_induct [consumes 1, case_names small large]:
  assumes "(0::int) \<le> n"
    and "\<And>n. 0 \<le> n \<Longrightarrow> n < 10 \<Longrightarrow> P n"
    and "\<And>n. 10 \<le> n \<Longrightarrow> P (n div 10) \<Longrightarrow> P n"
  shows "P n"
  using assms(1)
proof (induction n rule: nat_str.induct)
  case (1 n)
  then show ?case
    using assms(2,3) by (cases "n < 10") (auto simp: pos_imp_zdiv_nonneg_iff)
qed

lemma nat_str_small: "n < 10 \<Longrightarrow> nat_str n = [digit_char n]"
  by (simp add: nat_str.simps [of n])

lemma nat_str_large: "10 \<le> n \<Longrightarrow> nat_str n = nat_str (n div 10) @ [digit_char (n mod 10)]"
  by (simp add: nat_str.simps [of n])

lemma digits_val_nat_str [simp]: "0 \<le> n \<Longrightarrow> digits_val (nat_str n) = n"
  by (induction n rule: nat_str_induct)
    (auto simp: nat_str_small nat_str_large, simp add: digits_val_def)

lemma nat_str_digits: "0 \<le> n \<Longrightarrow> \<forall>c \<in> set (nat_str n). is_digit c"
  by (induction n rule: nat_str_induct) (auto simp: nat_str_small nat_str_large)

lemma nat_str_nonempty [simp]: "nat_str n \<noteq> []"
  by (simp add: nat_str.simps [of n])

lemma nat_str_inj: "0 \<le> m \<Longrightarrow> 0 \<le> n \<Longrightarrow> nat_str m = nat_str n \<longleftrightarrow> m = n"
  by (metis digits_val_nat_str)

lemma is_digit_not_special [simp]: 
  "\<not> is_digit CHR ''-''" "\<not> is_digit CHR '':''" "\<not> is_digit CHR ''_''" "\<not> is_digit CHR ''+''"
  by (simp_all add: is_digit_def)

lemma hd_nat_str_digit: "0 \<le> n \<Longrightarrow> is_digit (hd (nat_str n))"
  by (meson hd_in_set nat_str_digits nat_str_nonempty)

lemma int_str_inj [simp]: "int_str i = int_str j \<longleftrightarrow> i = j"
proof -
  have neq: "0 \<le> n \<Longrightarrow> CHR ''-'' # x \<noteq> nat_str n" for x n
    by (metis hd_nat_str_digit is_digit_not_special(1) list.sel(1))
  show ?thesis
    by (auto simp: int_str_def neq neq [symmetric] nat_str_inj)
qed

lemma int_str_chars: "c \<in> set (int_str i) \<Longrightarrow> is_digit c \<or> c = CHR ''-''"
  using nat_str_digits [of i] nat_str_digits [of "- i"]
  by (auto simp: int_str_def split: if_splits)

lemma underscores_ok_digits: "s \<noteq> [] \<Longrightarrow> \<forall>c \<in> set s. is_digit c \<Longrightarrow> underscores_ok s"
  by (induction s rule: underscores_ok.induct) auto

lemma not_space_digit [simp]: "is_digit c \<Longrightarrow> \<not> is_space c"
  by (auto simp: is_digit_def is_space_def Let_def)

lemma strip_no_space: "\<forall>c \<in> set s. \<not> is_space c \<Longrightarrow> strip s = s"
proof -
  assume ns: "\<forall>c \<in> set s. \<not> is_space c"
  then have "dropWhile is_space s = s" and "dropWhile is_space (rev s) = rev s"
    by (auto simp: dropWhile_eq_self_iff hd_rev)
  then show ?thesis by (simp add: strip_def)
qed

lemma int_of_str_int_str: "length (int_str i) \<le> 4300 \<Longrightarrow> int_of_str (int_str i) = Some i"
proof -
  assume len: "length (int_str i) \<le> 4300"
  let ?n = "\<bar>i\<bar>"
  have st: "strip (int_str i) = int_str i"
    by (rule strip_no_space) (auto dest!: int_str_chars, auto simp: is_space_def)
  obtain c s where ns: "nat_str ?n = c # s" "is_digit c"
    by (metis abs_ge_zero hd_nat_str_digit list.collapse nat_str_nonempty)
  have fl: "filter is_digit (nat_str ?n) = nat_str ?n"
    using nat_str_digits [of ?n] by (simp add: filter_id_conv)
  have sg: "split_sign (int_str i) = (i < 0, nat_str ?n)"
    using ns by (auto simp: int_str_def)
  have "length (nat_str ?n) \<le> 4300"
    using len by (auto simp: int_str_def split: if_splits)
  then have il: "int_literal (nat_str ?n) = Some (nat_str ?n)"
    using underscores_ok_digits [OF nat_str_nonempty nat_str_digits, of ?n] ns fl
    by (auto simp: int_literal_def)
  show ?thesis
    by (simp add: int_of_str_def st sg il)
qed

lemma nat_str_length: "0 \<le> n \<Longrightarrow> n < 10 ^ Suc k \<Longrightarrow> length (nat_str n) \<le> Suc k"
proof (induction k arbitrary: n)
  case 0
  then show ?case by (simp add: nat_str_small)
next
  case (Suc k)
  show ?case
  proof (cases "n < 10")
    case True
    then show ?thesis by (simp add: nat_str_small)
  next
    case False
    then have "0 \<le> n div 10" and "n div 10 < 10 ^ Suc k"
      using Suc.prems by auto
    then have "length (nat_str (n div 10)) \<le> Suc k" by (rule Suc.IH)
    with False show ?thesis by (simp add: nat_str_large)
  qed
qed

lemma int_str_length: "\<bar>i\<bar> < 10 ^ Suc k \<Longrightarrow> length (int_str i) \<le> Suc (Suc k)"
  using nat_str_length [of "\<bar>i\<bar>" k] by (auto simp: int_str_def)

end
