(* ===== verification/Redis_Spec.thy ===== *)
theory Redis_Spec
  imports Prelude "HOL-Library.AList"
begin

text \<open>
  The interface of the Redis server as the three Python services use it through
  \<^verbatim>\<open>redis-py\<close>. The server and its client are not part of the repository: they are the
  parameter \<open>R :: 'r redis\<close> of every definition that talks to Redis.

  The \<open>ks_\<close> functions state the documented effect of a command on a key space
  (a key holds a value and an optional expiry time in microseconds); the locale
  \<open>redis_server\<close> says that a reachable server behaves like them, that an unreachable one
  makes the client raise a \<^verbatim>\<open>RedisError\<close>, and that keys disappear when their time has
  come. What a failed command did to the server is left open. \<open>ref_redis\<close>, a key space
  with a schedule of connection faults, shows that the laws can be met.
\<close>

section \<open>Key spaces and the documented commands\<close>

datatype redis_error = ConnectionError | ResponseError

datatype rvalue = RStr string | RHash "(string \<times> string) list"

type_synonym keyspace = "string \<Rightarrow> (rvalue \<times> int option) option"
type_synonym 'a rspec = "int \<Rightarrow> keyspace \<Rightarrow> (redis_error + 'a) \<times> keyspace"
type_synonym ('r, 'a) rcmd = "'r \<Rightarrow> (redis_error + 'a) \<times> 'r"

abbreviation second :: int where
  "second \<equiv> 1000000"

abbreviation int64_max :: int where
  "int64_max \<equiv> 9223372036854775807"

text \<open>Redis stores counters as canonical decimal strings of 64-bit integers.\<close>

definition redis_int :: "string \<Rightarrow> int option" where
  "redis_int s =
     (case int_of_str s of
        None \<Rightarrow> None
      | Some i \<Rightarrow> (if int_str i = s \<and> - int64_max - 1 \<le> i \<and> i \<le> int64_max then Some i else None))"

definition ks_get :: "string \<Rightarrow> string option rspec" where
  "ks_get k t ks =
     (case ks k of
        None \<Rightarrow> (Inr None, ks)
      | Some (RStr v, _) \<Rightarrow> (Inr (Some v), ks)
      | Some (RHash _, _) \<Rightarrow> (Inl ResponseError, ks))"

definition ks_setex :: "string \<Rightarrow> int \<Rightarrow> string \<Rightarrow> bool rspec" where
  "ks_setex k ttl v t ks =
     (if ttl \<le> 0 then (Inl ResponseError, ks)
      else (Inr True, ks(k \<mapsto> (RStr v, Some (t + ttl * second)))))"

definition ks_setnx :: "string \<Rightarrow> string \<Rightarrow> bool rspec" where
  "ks_setnx k v t ks =
     (case ks k of
        None \<Rightarrow> (Inr True, ks(k \<mapsto> (RStr v, None)))
      | Some _ \<Rightarrow> (Inr False, ks))"

definition ks_incr :: "string \<Rightarrow> int rspec" where
  "ks_incr k t ks =
     (case ks k of
        None \<Rightarrow> (Inr 1, ks(k \<mapsto> (RStr ''1'', None)))
      | Some (RHash _, _) \<Rightarrow> (Inl ResponseError, ks)
      | Some (RStr v, ex) \<Rightarrow>
          (case redis_int v of
             None \<Rightarrow> (Inl ResponseError, ks)
           | Some n \<Rightarrow>
               (if n = int64_max then (Inl ResponseError, ks)
                else (Inr (n + 1), ks(k \<mapsto> (RStr (int_str (n + 1)), ex))))))"

definition ks_ttl :: "string \<Rightarrow> int rspec" where
  "ks_ttl k t ks =
     (Inr (case ks k of
             None \<Rightarrow> - 2
           | Some (_, None) \<Rightarrow> - 1
           | Some (_, Some x) \<Rightarrow> (x - t + 500000) div second), ks)"

text \<open>A \<^verbatim>\<open>MULTI\<close>/\<^verbatim>\<open>EXEC\<close> pipeline of \<^verbatim>\<open>INCR key\<close> and \<^verbatim>\<open>TTL key\<close>.\<close>

definition ks_incr_ttl :: "string \<Rightarrow> (int \<times> int) rspec" where
  "ks_incr_ttl k t ks =
     (case ks_incr k t ks of
        (Inl e, ks') \<Rightarrow> (Inl e, ks')
      | (Inr n, ks') \<Rightarrow>
          (case ks_ttl k t ks' of
             (Inl e, ks'') \<Rightarrow> (Inl e, ks'')
           | (Inr ttl, ks'') \<Rightarrow> (Inr (n, ttl), ks'')))"

definition ks_expire :: "string \<Rightarrow> int \<Rightarrow> bool rspec" where
  "ks_expire k n t ks =
     (case ks k of
        None \<Rightarrow> (Inr False, ks)
      | Some (v, _) \<Rightarrow>
          (if n \<le> 0 then (Inr True, ks(k := None))
           else (Inr True, ks(k \<mapsto> (v, Some (t + n * second))))))"

definition ks_hget :: "string \<Rightarrow> string \<Rightarrow> string option rspec" where
  "ks_hget k f t ks =
     (case ks k of
        None \<Rightarrow> (Inr None, ks)
      | Some (RStr _, _) \<Rightarrow> (Inl ResponseError, ks)
      | Some (RHash h, _) \<Rightarrow> (Inr (map_of h f), ks))"

definition ks_hincrby :: "string \<Rightarrow> string \<Rightarrow> int \<Rightarrow> int rspec" where
  "ks_hincrby k f d t ks =
     (case ks k of
        None \<Rightarrow> (Inr d, ks(k \<mapsto> (RHash [(f, int_str d)], None)))
      | Some (RStr _, _) \<Rightarrow> (Inl ResponseError, ks)
      | Some (RHash h, ex) \<Rightarrow>
          (case (case map_of h f of None \<Rightarrow> Some 0 | Some v \<Rightarrow> redis_int v) of
             None \<Rightarrow> (Inl ResponseError, ks)
           | Some n \<Rightarrow>
               (if n + d < - int64_max - 1 \<or> int64_max < n + d then (Inl ResponseError, ks)
                else (Inr (n + d), ks(k \<mapsto> (RHash (AList.update f (int_str (n + d)) h), ex))))))"

definition ks_hgetall :: "string \<Rightarrow> (string \<times> string) list rspec" where
  "ks_hgetall k t ks =
     (case ks k of
        None \<Rightarrow> (Inr [], ks)
      | Some (RStr _, _) \<Rightarrow> (Inl ResponseError, ks)
      | Some (RHash h, _) \<Rightarrow> (Inr h, ks))"

text \<open>
  \<^verbatim>\<open>EVAL\<close> runs a script on the key space without interleaving; a script is the function
  of \<^verbatim>\<open>KEYS\<close> and \<^verbatim>\<open>ARGV\<close> that its text denotes.
\<close>

type_synonym script = "string list \<Rightarrow> string list \<Rightarrow> string rspec"

definition ks_eval :: "script \<Rightarrow> string list \<Rightarrow> string list \<Rightarrow> string rspec" where
  "ks_eval sc keys args = sc keys args"

lemmas ks_defs =
  ks_get_def ks_setex_def ks_setnx_def ks_incr_def ks_ttl_def ks_incr_ttl_def ks_expire_def
  ks_hget_def ks_hincrby_def ks_hgetall_def ks_eval_def

section \<open>The client as a parameter and its laws\<close>

record 'r redis =
  redis_get :: "string \<Rightarrow> ('r, string option) rcmd"
  redis_setex :: "string \<Rightarrow> int \<Rightarrow> string \<Rightarrow> ('r, bool) rcmd"
  redis_setnx :: "string \<Rightarrow> string \<Rightarrow> ('r, bool) rcmd"
  redis_incr :: "string \<Rightarrow> ('r, int) rcmd"
  redis_incr_ttl :: "string \<Rightarrow> ('r, int \<times> int) rcmd"
  redis_expire :: "string \<Rightarrow> int \<Rightarrow> ('r, bool) rcmd"
  redis_hincrby :: "string \<Rightarrow> string \<Rightarrow> int \<Rightarrow> ('r, int) rcmd"
  redis_hgetall :: "string \<Rightarrow> ('r, (string \<times> string) list) rcmd"
  redis_eval :: "script \<Rightarrow> string list \<Rightarrow> string list \<Rightarrow> ('r, string) rcmd"

definition implements ::
  "('r \<Rightarrow> bool) \<Rightarrow> ('r \<Rightarrow> bool) \<Rightarrow> ('r \<Rightarrow> keyspace) \<Rightarrow> ('r \<Rightarrow> int) \<Rightarrow> ('r, 'a) rcmd \<Rightarrow> 'a rspec \<Rightarrow> bool"
where
  "implements up steady view clock cmd spec \<longleftrightarrow>
     (\<forall>s. (up s \<longrightarrow> fst (cmd s) = fst (spec (clock s) (view s)) \<and>
                    view (snd (cmd s)) = snd (spec (clock s) (view s)) \<and>
                    clock (snd (cmd s)) = clock s) \<and>
          (\<not> up s \<longrightarrow> (\<exists>e. fst (cmd s) = Inl e)) \<and>
          (steady s \<longrightarrow> steady (snd (cmd s))))"

definition purge :: "int \<Rightarrow> keyspace \<Rightarrow> keyspace" where
  "purge t ks k =
     (case ks k of
        Some (v, Some x) \<Rightarrow> (if x \<le> t then None else Some (v, Some x))
      | other \<Rightarrow> other)"

text \<open>
  \<open>view\<close> reads the live keys of a server state, \<open>clock\<close> its time in microseconds, \<open>up\<close> says
  that the next command reaches the server, \<open>steady\<close> that every later one does too, and
  \<open>elapse d\<close> lets \<open>d\<close> microseconds pass.
\<close>

locale redis_server =
  fixes R :: "'r redis"
    and view :: "'r \<Rightarrow> keyspace"
    and clock :: "'r \<Rightarrow> int"
    and up :: "'r \<Rightarrow> bool"
    and steady :: "'r \<Rightarrow> bool"
    and elapse :: "int \<Rightarrow> 'r \<Rightarrow> 'r"
  assumes steady_up: "steady s \<Longrightarrow> up s"
    and get_law: "implements up steady view clock (redis_get R k) (ks_get k)"
    and setex_law: "implements up steady view clock (redis_setex R k ttl v) (ks_setex k ttl v)"
    and setnx_law: "implements up steady view clock (redis_setnx R k v) (ks_setnx k v)"
    and incr_law: "implements up steady view clock (redis_incr R k) (ks_incr k)"
    and incr_ttl_law: "implements up steady view clock (redis_incr_ttl R k) (ks_incr_ttl k)"
    and expire_law: "implements up steady view clock (redis_expire R k n) (ks_expire k n)"
    and hincrby_law: "implements up steady view clock (redis_hincrby R k f n) (ks_hincrby k f n)"
    and hgetall_law: "implements up steady view clock (redis_hgetall R k) (ks_hgetall k)"
    and eval_law: "implements up steady view clock (redis_eval R sc keys args) (ks_eval sc keys args)"
    and elapse_view: "0 \<le> d \<Longrightarrow> view (elapse d s) = purge (clock s + d) (view s)"
    and elapse_clock: "clock (elapse d s) = clock s + d"
    and elapse_steady: "steady s \<Longrightarrow> steady (elapse d s)"

section \<open>A reference server\<close>

record ref_redis =
  rr_keys :: keyspace
  rr_clock :: int
  rr_faults :: "bool list"

definition rr_up :: "ref_redis \<Rightarrow> bool" where
  "rr_up s = (case rr_faults s of [] \<Rightarrow> True | b # _ \<Rightarrow> b)"

definition rr_steady :: "ref_redis \<Rightarrow> bool" where
  "rr_steady s = list_all id (rr_faults s)"

definition rr_run :: "'a rspec \<Rightarrow> (ref_redis, 'a) rcmd" where
  "rr_run spec s =
     (let s' = s\<lparr>rr_faults := tl (rr_faults s)\<rparr>
      in if rr_up s
         then (case spec (rr_clock s) (rr_keys s) of (r, ks) \<Rightarrow> (r, s'\<lparr>rr_keys := ks\<rparr>))
         else (Inl ConnectionError, s'))"

definition rr_elapse :: "int \<Rightarrow> ref_redis \<Rightarrow> ref_redis" where
  "rr_elapse d s =
     s\<lparr>rr_clock := rr_clock s + d,
       rr_keys := (if 0 \<le> d then purge (rr_clock s + d) (rr_keys s) else rr_keys s)\<rparr>"

definition ref_client :: "ref_redis redis" where
  "ref_client =
     \<lparr>redis_get = (\<lambda>k. rr_run (ks_get k)),
      redis_setex = (\<lambda>k ttl v. rr_run (ks_setex k ttl v)),
      redis_setnx = (\<lambda>k v. rr_run (ks_setnx k v)),
      redis_incr = (\<lambda>k. rr_run (ks_incr k)),
      redis_incr_ttl = (\<lambda>k. rr_run (ks_incr_ttl k)),
      redis_expire = (\<lambda>k n. rr_run (ks_expire k n)),
      redis_hincrby = (\<lambda>k f n. rr_run (ks_hincrby k f n)),
      redis_hgetall = (\<lambda>k. rr_run (ks_hgetall k)),
      redis_eval = (\<lambda>sc keys args. rr_run (ks_eval sc keys args))\<rparr>"

definition fresh_redis :: ref_redis where
  "fresh_redis = \<lparr>rr_keys = (\<lambda>_. None), rr_clock = 0, rr_faults = []\<rparr>"

section \<open>\<open>_safe_execute\<close>\<close>

text \<open>
  \<open>safe_execute client f\<close>: no client gives \<^verbatim>\<open>None\<close>, a \<^verbatim>\<open>RedisError\<close> is logged and gives
  \<^verbatim>\<open>None\<close>. The callback yields a Python object or \<^verbatim>\<open>None\<close>; \<open>some_reply\<close> marks a command whose
  reply is never \<^verbatim>\<open>None\<close>. Other exceptions than \<^verbatim>\<open>RedisError\<close> do not arise in the callbacks.
\<close>

definition safe_execute ::
  "'r redis option \<Rightarrow> ('r redis \<Rightarrow> ('r, 'a option) rcmd) \<Rightarrow> 'r \<Rightarrow> 'a option \<times> 'r" where
  "safe_execute client func s =
     (case client of
        None \<Rightarrow> (None, s)
      | Some c \<Rightarrow>
          (case func c s of
             (Inl exc, s') \<Rightarrow> (None, s')
           | (Inr v, s') \<Rightarrow> (v, s')))"

definition some_reply :: "('r, 'a) rcmd \<Rightarrow> ('r, 'a option) rcmd" where
  "some_reply cmd s = (case cmd s of (Inl e, s') \<Rightarrow> (Inl e, s') | (Inr v, s') \<Rightarrow> (Inr (Some v), s'))"

section \<open>Lemmas\<close>

lemma implements_up:
  assumes "implements up steady view clock cmd spec" and "up s"
  shows "fst (cmd s) = fst (spec (clock s) (view s))"
    and "view (snd (cmd s)) = snd (spec (clock s) (view s))"
    and "clock (snd (cmd s)) = clock s"
  using assms by (auto simp: implements_def)

lemma implements_down:
  "implements up steady view clock cmd spec \<Longrightarrow> \<not> up s \<Longrightarrow> \<exists>e. fst (cmd s) = Inl e"
  by (auto simp: implements_def)

lemma implements_steady:
  "implements up steady view clock cmd spec \<Longrightarrow> steady s \<Longrightarrow> steady (snd (cmd s))"
  by (auto simp: implements_def)

lemma rr_run_implements: "implements rr_up rr_steady rr_keys rr_clock (rr_run spec) spec"
proof -
  have "list_all id xs \<Longrightarrow> list_all id (tl xs)" for xs
    by (cases xs) auto
  then show ?thesis
    by (auto simp: implements_def rr_run_def rr_steady_def Let_def split: prod.splits)
qed

interpretation ref: redis_server ref_client rr_keys rr_clock rr_up rr_steady rr_elapse
proof (unfold_locales, goal_cases)
  case (1 s)
  then show ?case by (auto simp: rr_up_def rr_steady_def split: list.splits)
qed (auto simp: ref_client_def rr_run_implements rr_elapse_def rr_steady_def)

lemma redis_int_int_str:
  assumes "- int64_max - 1 \<le> i" and "i \<le> int64_max"
  shows "redis_int (int_str i) = Some i"
proof -
  have "\<bar>i\<bar> < 10 ^ Suc 19" using assms by simp
  then have "length (int_str i) \<le> 4300"
    using int_str_length [of i 19] by simp
  then show ?thesis
    using assms by (simp add: redis_int_def int_of_str_int_str)
qed

lemma safe_execute_None [simp]: "safe_execute None f s = (None, s)"
  by (simp add: safe_execute_def)

lemma safe_execute_Some:
  "safe_execute (Some c) f s =
     ((case fst (f c s) of Inl _ \<Rightarrow> None | Inr v \<Rightarrow> v), snd (f c s))"
  by (auto simp: safe_execute_def split: prod.splits sum.splits)

lemma some_reply_simps [simp]:
  "fst (some_reply cmd s) = map_sum id Some (fst (cmd s))"
  "snd (some_reply cmd s) = snd (cmd s)"
  by (auto simp: some_reply_def split: prod.splits sum.splits)

end
