(* ===== verification/Sql_Spec.thy ===== *)
theory Sql_Spec
  imports Prelude
begin

text \<open>
  The interface of a SQLAlchemy session on MySQL as the services use it. The library and the
  server are not part of the repository: a session is the parameter \<open>D :: ('d, 'row) sql\<close> of
  every definition that talks to the database, and \<open>'row\<close> are the rows of its mapped classes.

  The \<open>tb_\<close> functions state the documented effect of each call on a table: the rows that are
  committed, the rows this transaction sees, and the objects the session will write at the
  next flush (\<^verbatim>\<open>autoflush=False\<close>: queries do not see them). The locale \<open>sql_session\<close> says that
  a reachable database behaves like that; \<open>ref_db\<close>, a table with a schedule of connection
  faults, shows that the laws can be met.

  Two things belong to the schema: \<open>check rows\<close> is the error a statement raises that would
  leave the table in state \<open>rows\<close> (unique keys, checks, column ranges), and \<open>coerce r\<close> is the
  row MySQL stores for \<open>r\<close> (rounding to the column's scale).
\<close>

section \<open>Tables\<close>

datatype 'row pending =
    PInsert "int \<Rightarrow> 'row"
  | PModify "'row \<Rightarrow> bool" "'row \<Rightarrow> 'row"

record 'row table =
  tb_base :: "'row list"
  tb_rows :: "'row list"
  tb_pend :: "'row pending list"
  tb_next :: int

type_synonym ('row, 'a) tspec = "'row table \<Rightarrow> 'a res \<times> 'row table"

definition tb_select :: "('row \<Rightarrow> bool) \<Rightarrow> ('row, 'row list) tspec" where
  "tb_select P t = (Inr (filter P (tb_rows t)), t)"

definition tb_count :: "('row \<Rightarrow> bool) \<Rightarrow> ('row, int) tspec" where
  "tb_count P t = (Inr (int (length (filter P (tb_rows t)))), t)"

text \<open>
  \<^verbatim>\<open>SELECT ... WHERE P ORDER BY key [DESC] LIMIT n OFFSET m\<close>; a bound that is not an unsigned
  64-bit number is a syntax error.
\<close>

definition page_bound :: "int \<Rightarrow> bool" where
  "page_bound n = (0 \<le> n \<and> n < 2 ^ 64)"

definition page_slice :: "int \<Rightarrow> int \<Rightarrow> 'a list \<Rightarrow> 'a list" where
  "page_slice offset limit xs = take (nat limit) (drop (nat offset) xs)"

definition ordered :: "('row \<Rightarrow> int) \<Rightarrow> bool \<Rightarrow> 'row list \<Rightarrow> 'row list" where
  "ordered key desc rs = (if desc then rev (sort_key key rs) else sort_key key rs)"

definition tb_page :: "('row \<Rightarrow> bool) \<Rightarrow> ('row \<Rightarrow> int) \<Rightarrow> bool \<Rightarrow> int \<Rightarrow> int \<Rightarrow> ('row, 'row list) tspec" where
  "tb_page P key desc offset limit t =
     (if \<not> page_bound offset \<or> \<not> page_bound limit then (Inl ProgrammingError, t)
      else (Inr (page_slice offset limit (ordered key desc (filter P (tb_rows t)))), t))"

text \<open>The effect of one row-changing statement: all of it or, when \<open>check\<close> objects, nothing.\<close>

definition checked :: "('row list \<Rightarrow> py_exc option) \<Rightarrow> 'a \<Rightarrow> 'row list \<Rightarrow> ('row, 'a) tspec" where
  "checked check x rows t =
     (case check rows of
        None \<Rightarrow> (Inr x, t\<lparr>tb_rows := rows\<rparr>)
      | Some e \<Rightarrow> (Inl e, t))"

definition update_rows :: "('row \<Rightarrow> 'row) \<Rightarrow> ('row \<Rightarrow> bool) \<Rightarrow> ('row \<Rightarrow> 'row) \<Rightarrow> 'row list \<Rightarrow> 'row list" where
  "update_rows coerce P f rows = map (\<lambda>r. if P r then coerce (f r) else r) rows"

text \<open>\<^verbatim>\<open>UPDATE ... SET f WHERE P\<close>, executed at once; the reply is the number of matched rows.\<close>

definition tb_update ::
  "('row list \<Rightarrow> py_exc option) \<Rightarrow> ('row \<Rightarrow> 'row) \<Rightarrow> ('row \<Rightarrow> bool) \<Rightarrow> ('row \<Rightarrow> 'row) \<Rightarrow> ('row, int) tspec" where
  "tb_update check coerce P f t =
     checked check (int (length (filter P (tb_rows t)))) (update_rows coerce P f (tb_rows t)) t"

text \<open>\<^verbatim>\<open>db.add\<close> of a new object, and of a loaded object whose attributes were assigned.\<close>

definition tb_add :: "(int \<Rightarrow> 'row) \<Rightarrow> ('row, unit) tspec" where
  "tb_add mk t = (Inr (), t\<lparr>tb_pend := tb_pend t @ [PInsert mk]\<rparr>)"

definition tb_modify :: "('row \<Rightarrow> bool) \<Rightarrow> ('row \<Rightarrow> 'row) \<Rightarrow> ('row, unit) tspec" where
  "tb_modify P f t = (Inr (), t\<lparr>tb_pend := tb_pend t @ [PModify P f]\<rparr>)"

text \<open>The flush: pending objects in order; the keys given to inserted rows are collected.\<close>

definition flush_insert ::
  "('row list \<Rightarrow> py_exc option) \<Rightarrow> ('row \<Rightarrow> 'row) \<Rightarrow> (int \<Rightarrow> 'row) \<Rightarrow> ('row, int) tspec" where
  "flush_insert check coerce mk t =
     checked check (tb_next t) (tb_rows t @ [coerce (mk (tb_next t))]) (t\<lparr>tb_next := tb_next t + 1\<rparr>)"

definition flush_modify ::
  "('row list \<Rightarrow> py_exc option) \<Rightarrow> ('row \<Rightarrow> 'row) \<Rightarrow> ('row \<Rightarrow> bool) \<Rightarrow> ('row \<Rightarrow> 'row) \<Rightarrow> ('row, unit) tspec" where
  "flush_modify check coerce P f t =
     (if \<exists>r \<in> set (tb_rows t). P r
      then checked check () (update_rows coerce P f (tb_rows t)) t
      else (Inl StaleDataError, t))"

fun tb_flush ::
  "('row list \<Rightarrow> py_exc option) \<Rightarrow> ('row \<Rightarrow> 'row) \<Rightarrow> 'row pending list \<Rightarrow> ('row, int list) tspec" where
  "tb_flush check coerce [] t = (Inr [], t)"
| "tb_flush check coerce (PInsert mk # ps) t =
     bind_prog (flush_insert check coerce mk) (\<lambda>key.
     bind_prog (tb_flush check coerce ps) (\<lambda>keys. return_prog (key # keys))) t"
| "tb_flush check coerce (PModify P f # ps) t =
     bind_prog (flush_modify check coerce P f) (\<lambda>_. tb_flush check coerce ps) t"

definition tb_rollback :: "('row, unit) tspec" where
  "tb_rollback t = (Inr (), t\<lparr>tb_rows := tb_base t, tb_pend := []\<rparr>)"

text \<open>A commit whose flush fails leaves nothing behind.\<close>

definition tb_commit :: "('row list \<Rightarrow> py_exc option) \<Rightarrow> ('row \<Rightarrow> 'row) \<Rightarrow> ('row, int list) tspec" where
  "tb_commit check coerce t =
     (case tb_flush check coerce (tb_pend t) t of
        (Inl e, t') \<Rightarrow> (Inl e, snd (tb_rollback t'))
      | (Inr keys, t') \<Rightarrow> (Inr keys, t'\<lparr>tb_base := tb_rows t', tb_pend := []\<rparr>))"

section \<open>The session as a parameter and its laws\<close>

record ('d, 'row) sql =
  sql_select :: "('row \<Rightarrow> bool) \<Rightarrow> ('d, 'row list) prog"
  sql_count :: "('row \<Rightarrow> bool) \<Rightarrow> ('d, int) prog"
  sql_page :: "('row \<Rightarrow> bool) \<Rightarrow> ('row \<Rightarrow> int) \<Rightarrow> bool \<Rightarrow> int \<Rightarrow> int \<Rightarrow> ('d, 'row list) prog"
  sql_execute_update :: "('row \<Rightarrow> bool) \<Rightarrow> ('row \<Rightarrow> 'row) \<Rightarrow> ('d, int) prog"
  sql_add :: "(int \<Rightarrow> 'row) \<Rightarrow> ('d, unit) prog"
  sql_modify :: "('row \<Rightarrow> bool) \<Rightarrow> ('row \<Rightarrow> 'row) \<Rightarrow> ('d, unit) prog"
  sql_commit :: "('d, int list) prog"
  sql_rollback :: "('d, unit) prog"

definition sql_implements ::
  "('d \<Rightarrow> bool) \<Rightarrow> ('d \<Rightarrow> bool) \<Rightarrow> ('d \<Rightarrow> 'row table) \<Rightarrow> ('d, 'a) prog \<Rightarrow> ('row, 'a) tspec \<Rightarrow> bool" where
  "sql_implements up steady view cmd spec \<longleftrightarrow>
     (\<forall>d. (up d \<longrightarrow> fst (cmd d) = fst (spec (view d)) \<and> view (snd (cmd d)) = snd (spec (view d))) \<and>
          (\<not> up d \<longrightarrow> (\<exists>e. fst (cmd d) = Inl e)) \<and>
          (steady d \<longrightarrow> steady (snd (cmd d))))"

text \<open>
  \<open>up\<close> says that the next call reaches the database, \<open>steady\<close> that every later one does too.
  The order in which \<^verbatim>\<open>ORDER BY\<close> returns rows with equal keys is left open.
\<close>

locale sql_session =
  fixes D :: "('d, 'row) sql"
    and view :: "'d \<Rightarrow> 'row table"
    and up :: "'d \<Rightarrow> bool"
    and steady :: "'d \<Rightarrow> bool"
    and check :: "'row list \<Rightarrow> py_exc option"
    and coerce :: "'row \<Rightarrow> 'row"
  assumes steady_up: "steady d \<Longrightarrow> up d"
    and select_law: "sql_implements up steady view (sql_select D P) (tb_select P)"
    and count_law: "sql_implements up steady view (sql_count D P) (tb_count P)"
    and page_law:
      "up d \<Longrightarrow> distinct (map key (filter P (tb_rows (view d)))) \<Longrightarrow>
         fst (sql_page D P key desc m n d) = fst (tb_page P key desc m n (view d))"
    and page_view: "up d \<Longrightarrow> view (snd (sql_page D P key desc m n d)) = view d"
    and page_down: "\<not> up d \<Longrightarrow> \<exists>e. fst (sql_page D P key desc m n d) = Inl e"
    and page_steady: "steady d \<Longrightarrow> steady (snd (sql_page D P key desc m n d))"
    and update_law: "sql_implements up steady view (sql_execute_update D P f) (tb_update check coerce P f)"
    and add_law: "sql_implements up steady view (sql_add D mk) (tb_add mk)"
    and modify_law: "sql_implements up steady view (sql_modify D P f) (tb_modify P f)"
    and commit_law: "sql_implements up steady view (sql_commit D) (tb_commit check coerce)"
    and rollback_law: "sql_implements up steady view (sql_rollback D) tb_rollback"

section \<open>Calls the services make\<close>

text \<open>\<^verbatim>\<open>query.one_or_none()\<close>.\<close>

definition one_or_none :: "('d, 'row) sql \<Rightarrow> ('row \<Rightarrow> bool) \<Rightarrow> ('d, 'row option) prog" where
  "one_or_none D P =
     bind_prog (sql_select D P) (\<lambda>rows.
       (case rows of
          [] \<Rightarrow> return_prog None
        | [r] \<Rightarrow> return_prog (Some r)
        | _ \<Rightarrow> raise_prog MultipleResultsFound))"

text \<open>\<^verbatim>\<open>db.refresh(obj)\<close>: the row is read again; a missing row is an \<^verbatim>\<open>InvalidRequestError\<close>.\<close>

definition refresh :: "('d, 'row) sql \<Rightarrow> ('row \<Rightarrow> bool) \<Rightarrow> ('d, 'row) prog" where
  "refresh D P =
     bind_prog (sql_select D P) (\<lambda>rows.
       (case rows of [] \<Rightarrow> raise_prog InvalidRequestError | r # _ \<Rightarrow> return_prog r))"

text \<open>
  The value an assigned attribute leaves in its column: the \<^verbatim>\<open>UPDATE\<close> of a flush names only the
  columns whose value differs from the loaded one.
\<close>

definition set_col :: "'a \<Rightarrow> 'a \<Rightarrow> 'a \<Rightarrow> 'a" where
  "set_col loaded assigned current = (if assigned = loaded then current else assigned)"

text \<open>
  The dependency \<open>get_db\<close> of \<^verbatim>\<open>db/session.py\<close>: the handler runs on a session that is closed at
  the end, whatever happened; closing rolls back what was not committed.
\<close>

definition get_db :: "('d, 'row) sql \<Rightarrow> ('d, 'a) prog \<Rightarrow> ('d, 'a) prog" where
  "get_db D body d = (case body d of (r, d') \<Rightarrow> (r, snd (sql_rollback D d')))"

section \<open>A reference database\<close>

record 'row ref_db =
  rd_table :: "'row table"
  rd_faults :: "bool list"

definition rd_up :: "'row ref_db \<Rightarrow> bool" where
  "rd_up d = (case rd_faults d of [] \<Rightarrow> True | b # _ \<Rightarrow> b)"

definition rd_steady :: "'row ref_db \<Rightarrow> bool" where
  "rd_steady d = list_all id (rd_faults d)"

definition rd_run :: "('row, 'a) tspec \<Rightarrow> ('row ref_db, 'a) prog" where
  "rd_run spec d =
     (let d' = d\<lparr>rd_faults := tl (rd_faults d)\<rparr>
      in if rd_up d
         then (case spec (rd_table d) of (r, t) \<Rightarrow> (r, d'\<lparr>rd_table := t\<rparr>))
         else (Inl OperationalError, d'))"

definition ref_sql :: "('row list \<Rightarrow> py_exc option) \<Rightarrow> ('row \<Rightarrow> 'row) \<Rightarrow> ('row ref_db, 'row) sql" where
  "ref_sql check coerce =
     \<lparr>sql_select = (\<lambda>P. rd_run (tb_select P)),
      sql_count = (\<lambda>P. rd_run (tb_count P)),
      sql_page = (\<lambda>P key desc m n. rd_run (tb_page P key desc m n)),
      sql_execute_update = (\<lambda>P f. rd_run (tb_update check coerce P f)),
      sql_add = (\<lambda>mk. rd_run (tb_add mk)),
      sql_modify = (\<lambda>P f. rd_run (tb_modify P f)),
      sql_commit = rd_run (tb_commit check coerce),
      sql_rollback = rd_run tb_rollback\<rparr>"

definition ref_database :: "'row list \<Rightarrow> int \<Rightarrow> 'row ref_db" where
  "ref_database rows next =
     \<lparr>rd_table = \<lparr>tb_base = rows, tb_rows = rows, tb_pend = [], tb_next = next\<rparr>, rd_faults = []\<rparr>"

section \<open>Lemmas\<close>

lemma sql_implements_up:
  assumes "sql_implements up steady view cmd spec" and "up d"
  shows "fst (cmd d) = fst (spec (view d))" and "view (snd (cmd d)) = snd (spec (view d))"
  using assms by (auto simp: sql_implements_def)

lemma sql_implements_down:
  "sql_implements up steady view cmd spec \<Longrightarrow> \<not> up d \<Longrightarrow> \<exists>e. fst (cmd d) = Inl e"
  by (auto simp: sql_implements_def)

lemma sql_implements_steady:
  "sql_implements up steady view cmd spec \<Longrightarrow> steady d \<Longrightarrow> steady (snd (cmd d))"
  by (auto simp: sql_implements_def)

lemma rd_run_steady: "rd_steady d \<Longrightarrow> rd_steady (snd (rd_run spec d))"
proof -
  have "list_all id xs \<Longrightarrow> list_all id (tl xs)" for xs
    by (cases xs) auto
  then show "rd_steady d \<Longrightarrow> rd_steady (snd (rd_run spec d))"
    by (auto simp: rd_run_def rd_steady_def Let_def split: prod.splits)
qed

lemma rd_run_up: "rd_up d \<Longrightarrow> fst (rd_run spec d) = fst (spec (rd_table d)) \<and>
    rd_table (snd (rd_run spec d)) = snd (spec (rd_table d))"
  by (auto simp: rd_run_def Let_def split: prod.splits)

lemma rd_run_down: "\<not> rd_up d \<Longrightarrow> fst (rd_run spec d) = Inl OperationalError"
  by (simp add: rd_run_def Let_def)

lemma rd_run_implements: "sql_implements rd_up rd_steady rd_table (rd_run spec) spec"
  by (simp add: sql_implements_def rd_run_steady rd_run_up rd_run_down)

interpretation ref_db: sql_session "ref_sql check coerce" rd_table rd_up rd_steady check coerce
  for check coerce
proof (unfold_locales, goal_cases)
  case (1 d)
  then show ?case by (auto simp: rd_up_def rd_steady_def split: list.splits)
next
  case (5 d P key desc m n)
  moreover have "snd (tb_page P key desc m n t) = t" for t
    by (simp add: tb_page_def)
  ultimately show ?case using rd_run_up [OF 5, of "tb_page P key desc m n"] by (simp add: ref_sql_def)
qed (simp_all add: ref_sql_def rd_run_implements rd_run_steady rd_run_up rd_run_down)

section \<open>Programs on a session and on its table\<close>

text \<open>
  \<open>table_sql\<close> is the session whose state is the table itself. A program that runs on it gives
  the same results, and the same table, on every session that keeps the laws and stays
  reachable; this is how the properties of the service operations reach an arbitrary database.
\<close>

definition table_sql :: "('row list \<Rightarrow> py_exc option) \<Rightarrow> ('row \<Rightarrow> 'row) \<Rightarrow> ('row table, 'row) sql" where
  "table_sql check coerce =
     \<lparr>sql_select = tb_select, sql_count = tb_count, sql_page = tb_page,
      sql_execute_update = tb_update check coerce, sql_add = tb_add, sql_modify = tb_modify,
      sql_commit = tb_commit check coerce, sql_rollback = tb_rollback\<rparr>"

definition table_of :: "'row list \<Rightarrow> int \<Rightarrow> 'row table" where
  "table_of rows next = \<lparr>tb_base = rows, tb_rows = rows, tb_pend = [], tb_next = next\<rparr>"

definition simulates ::
  "('d \<Rightarrow> bool) \<Rightarrow> ('d \<Rightarrow> 'row table) \<Rightarrow> ('d, 'a) prog \<Rightarrow> ('row, 'a) tspec \<Rightarrow> bool" where
  "simulates steady view m spec \<longleftrightarrow>
     (\<forall>d. steady d \<longrightarrow> fst (m d) = fst (spec (view d)) \<and> view (snd (m d)) = snd (spec (view d)) \<and>
          steady (snd (m d)))"

lemma simulates_bind:
  assumes "simulates steady view m s" and "\<And>x. simulates steady view (f x) (g x)"
  shows "simulates steady view (bind_prog m f) (bind_prog s g)"
proof (unfold simulates_def, intro allI impI)
  fix d
  assume st: "steady d"
  obtain r d' r' t' where m: "m d = (r, d')" and s: "s (view d) = (r', t')" by fastforce
  have "r = r'" "view d' = t'" "steady d'"
    using assms(1) st m s by (auto simp: simulates_def)
  then show "fst (bind_prog m f d) = fst (bind_prog s g (view d)) \<and>
      view (snd (bind_prog m f d)) = snd (bind_prog s g (view d)) \<and> steady (snd (bind_prog m f d))"
    using assms(2) m s by (cases r) (auto simp: simulates_def bind_prog_def)
qed

lemma simulates_pure:
  "simulates steady view (return_prog x) (return_prog x)"
  "simulates steady view (raise_prog e) (raise_prog e)"
  "simulates steady view (lift_res r) (lift_res r)"
  by (simp_all add: simulates_def)

context sql_session
begin

lemma simulates_calls:
  "simulates steady view (sql_select D P) (sql_select (table_sql check coerce) P)"
  "simulates steady view (sql_count D P) (sql_count (table_sql check coerce) P)"
  "simulates steady view (sql_execute_update D P f) (sql_execute_update (table_sql check coerce) P f)"
  "simulates steady view (sql_add D mk) (sql_add (table_sql check coerce) mk)"
  "simulates steady view (sql_modify D P f) (sql_modify (table_sql check coerce) P f)"
  "simulates steady view (sql_commit D) (sql_commit (table_sql check coerce))"
  "simulates steady view (sql_rollback D) (sql_rollback (table_sql check coerce))"
  using select_law count_law update_law add_law modify_law commit_law rollback_law steady_up
  by (simp_all add: simulates_def table_sql_def sql_implements_def)

lemma simulates_one_or_none:
  "simulates steady view (one_or_none D P) (one_or_none (table_sql check coerce) P)"
  unfolding one_or_none_def
  by (rule simulates_bind [OF simulates_calls(1)]) (simp add: simulates_pure split: list.split)

lemma simulates_refresh: "simulates steady view (refresh D P) (refresh (table_sql check coerce) P)"
  unfolding refresh_def
  by (rule simulates_bind [OF simulates_calls(1)]) (simp add: simulates_pure split: list.split)

lemma simulates_get_db:
  assumes "simulates steady view m s"
  shows "simulates steady view (get_db D m) (get_db (table_sql check coerce) s)"
  using assms simulates_calls(7)
  by (auto simp: simulates_def get_db_def split: prod.splits)

lemmas simulates_intros =
  simulates_bind simulates_pure simulates_calls simulates_one_or_none simulates_refresh simulates_get_db

end

text \<open>Running a program on the table.\<close>

lemma table_sql_simps [simp]:
  "sql_select (table_sql check coerce) P t = (Inr (filter P (tb_rows t)), t)"
  "sql_count (table_sql check coerce) P t = (Inr (int (length (filter P (tb_rows t)))), t)"
  "sql_page (table_sql check coerce) = tb_page"
  "sql_execute_update (table_sql check coerce) P f t = tb_update check coerce P f t"
  "sql_add (table_sql check coerce) mk t = (Inr (), t\<lparr>tb_pend := tb_pend t @ [PInsert mk]\<rparr>)"
  "sql_modify (table_sql check coerce) P f t = (Inr (), t\<lparr>tb_pend := tb_pend t @ [PModify P f]\<rparr>)"
  "sql_commit (table_sql check coerce) t = tb_commit check coerce t"
  "sql_rollback (table_sql check coerce) t = (Inr (), t\<lparr>tb_rows := tb_base t, tb_pend := []\<rparr>)"
  by (simp_all add: table_sql_def tb_select_def tb_count_def tb_add_def tb_modify_def tb_rollback_def)

lemma table_one_or_none:
  "one_or_none (table_sql check coerce) P t =
     ((case filter P (tb_rows t) of [] \<Rightarrow> Inr None | [r] \<Rightarrow> Inr (Some r) | _ \<Rightarrow> Inl MultipleResultsFound), t)"
  by (simp add: one_or_none_def bind_prog_def split: list.split)

lemma table_refresh:
  "refresh (table_sql check coerce) P t =
     ((case filter P (tb_rows t) of [] \<Rightarrow> Inl InvalidRequestError | r # _ \<Rightarrow> Inr r), t)"
  by (simp add: refresh_def bind_prog_def split: list.split)

lemma table_of_simps [simp]:
  "tb_base (table_of rows n) = rows" "tb_rows (table_of rows n) = rows"
  "tb_pend (table_of rows n) = []" "tb_next (table_of rows n) = n"
  by (simp_all add: table_of_def)

lemma commit_modify:
  assumes "\<exists>r \<in> set rows. P r"
  shows "tb_commit check coerce ((table_of rows n)\<lparr>tb_pend := [PModify P f]\<rparr>) =
    (case check (update_rows coerce P f rows) of
       None \<Rightarrow> (Inr [], table_of (update_rows coerce P f rows) n)
     | Some e \<Rightarrow> (Inl e, table_of rows n))"
  using assms
  by (simp add: tb_commit_def flush_modify_def checked_def bind_prog_def tb_rollback_def table_of_def
      split: option.split)

lemma commit_insert:
  "tb_commit check coerce ((table_of rows n)\<lparr>tb_pend := [PInsert mk]\<rparr>) =
    (case check (rows @ [coerce (mk n)]) of
       None \<Rightarrow> (Inr [n], table_of (rows @ [coerce (mk n)]) (n + 1))
     | Some e \<Rightarrow> (Inl e, table_of rows (n + 1)))"
  by (simp add: tb_commit_def flush_insert_def checked_def bind_prog_def tb_rollback_def table_of_def
      split: option.split)

section \<open>Unique columns, pages and runs\<close>

fun unique_by :: "('a \<Rightarrow> 'a \<Rightarrow> bool) \<Rightarrow> 'a list \<Rightarrow> bool" where
  "unique_by eq [] = True"
| "unique_by eq (x # xs) = (list_all (\<lambda>y. \<not> eq x y \<and> \<not> eq y x) xs \<and> unique_by eq xs)"

text \<open>At most one row of a unique column matches a value.\<close>

lemma unique_by_filter:
  assumes "unique_by (\<lambda>a b. eq (f a) (f b)) xs" and "symp eq" and "transp eq"
  shows "length (filter (\<lambda>x. eq (f x) v) xs) \<le> 1"
  using assms(1)
proof (induction xs)
  case (Cons x xs)
  show ?case
  proof (cases "eq (f x) v")
    case True
    have "\<not> eq (f y) v" if "y \<in> set xs" for y
    proof
      assume "eq (f y) v"
      then have "eq (f x) (f y)" using True assms(2,3) by (meson sympD transpD)
      then show False using Cons.prems that by (auto simp: list_all_iff)
    qed
    then have "filter (\<lambda>x. eq (f x) v) xs = []" by (auto simp: filter_empty_conv)
    then show ?thesis by simp
  next
    case False
    then show ?thesis using Cons by simp
  qed
qed simp

lemma distinct_filter_key: "distinct (map f xs) \<Longrightarrow> length (filter (\<lambda>x. f x = v) xs) \<le> 1"
proof (induction xs)
  case (Cons x xs)
  then have "f x = v \<Longrightarrow> filter (\<lambda>x. f x = v) xs = []"
    by (simp add: filter_empty_conv) (metis image_eqI)
  with Cons show ?case by (cases "f x = v") simp_all
qed simp

lemma at_most_one: "length xs \<le> 1 \<Longrightarrow> xs = [] \<or> (\<exists>x. xs = [x])"
  by (cases xs) auto


lemma unique_by_map:
  "(\<And>x. key (g x) = key x) \<Longrightarrow>
     unique_by (\<lambda>a b. eq (key a) (key b)) (map g xs) = unique_by (\<lambda>a b. eq (key a) (key b)) xs"
  by (induction xs) (auto simp: list_all_iff)

lemma unique_by_snoc:
  "unique_by eq (xs @ [x]) \<longleftrightarrow> unique_by eq xs \<and> list_all (\<lambda>y. \<not> eq x y \<and> \<not> eq y x) xs"
  by (induction xs) (auto simp: list_all_iff)

lemma simulates_run:
  assumes "simulates steady view m s" and "steady d" and "view d = t" and "s t = (x, t')" and "m d = (y, d')"
  shows "y = x" and "view d' = t'" and "steady d'"
  using assms by (auto simp: simulates_def dest!: spec [of _ d])

lemma set_col_self [simp]: "set_col a b a = b"
  by (simp add: set_col_def)

lemma pages_partition:
  "concat (map (\<lambda>p. page_slice (int p * int sz) (int sz) xs) [0..<n]) = take (n * sz) xs"
proof (induction n)
  case (Suc n)
  have "take (n * sz) xs @ take sz (drop (n * sz) xs) = take (n * sz + sz) xs"
    by (rule take_add [symmetric])
  with Suc show ?case by (simp add: page_slice_def add.commute nat_mult_distrib)
qed simp

lemma concat_upt_cong: "(\<And>p. p < n \<Longrightarrow> f p = g p) \<Longrightarrow> concat (map f [0..<n]) = concat (map g [0..<n])"
  by (rule arg_cong [of _ _ concat]) simp

lemma page_bounds:
  assumes "p < n" and "n * sz < 2 ^ 64"
  shows "page_bound (int p * int sz)" and "page_bound (int sz)"
proof -
  have "p * sz \<le> n * sz" "1 * sz \<le> n * sz" using assms(1) by (intro mult_le_mono1; simp)+
  with assms(2) have "p * sz < 2 ^ 64" "sz < 2 ^ 64" by linarith+
  then have "int (p * sz) < int (2 ^ 64)" "int sz < int (2 ^ 64)" by (simp_all only: of_nat_less_iff)
  then show "page_bound (int p * int sz)" and "page_bound (int sz)" by (simp_all add: page_bound_def)
qed

lemma insort_key_map: "insort_key f (g x) (map g ys) = map g (insort_key (f \<circ> g) x ys)"
  by (induction ys) auto

lemma sort_key_map: "sort_key f (map g xs) = map g (sort_key (f \<circ> g) xs)"
  by (induction xs) (simp_all add: insort_key_map comp_def)

lemma page_slice_map: "page_slice m n (map f xs) = map f (page_slice m n xs)"
  by (simp add: page_slice_def take_map drop_map)

section \<open>The state of a service: its Redis and its database\<close>

record ('r, 'd) service_state =
  ss_redis :: 'r
  ss_db :: 'd

definition with_redis :: "('r, 'a) prog \<Rightarrow> (('r, 'd) service_state, 'a) prog" where
  "with_redis m st = (case m (ss_redis st) of (x, r) \<Rightarrow> (x, st\<lparr>ss_redis := r\<rparr>))"

definition with_db :: "('d, 'a) prog \<Rightarrow> (('r, 'd) service_state, 'a) prog" where
  "with_db m st = (case m (ss_db st) of (x, d) \<Rightarrow> (x, st\<lparr>ss_db := d\<rparr>))"

lemma with_redis_run: "m (ss_redis st) = (x, r) \<Longrightarrow> with_redis m st = (x, st\<lparr>ss_redis := r\<rparr>)"
  by (simp add: with_redis_def)

lemma with_db_run: "m (ss_db st) = (x, d) \<Longrightarrow> with_db m st = (x, st\<lparr>ss_db := d\<rparr>)"
  by (simp add: with_db_def)

lemma with_redis_eq:
  "with_redis m st = (x, st') \<longleftrightarrow> (\<exists>r. m (ss_redis st) = (x, r) \<and> st' = st\<lparr>ss_redis := r\<rparr>)"
  by (auto simp: with_redis_def split: prod.splits)

lemma with_db_eq:
  "with_db m st = (x, st') \<longleftrightarrow> (\<exists>d. m (ss_db st) = (x, d) \<and> st' = st\<lparr>ss_db := d\<rparr>)"
  by (auto simp: with_db_def split: prod.splits)

end
