(* ===== verification/Rate_Limit.thy ===== *)
theory Rate_Limit
  imports Redis_Spec
begin

text \<open>
  The contract of a fixed-window request counter, which both the gateway and the product
  service implement on Redis in their own way (\<open>increment_rate_limit\<close>), and what a client
  that compares the counter with a maximum gets from it.
\<close>

text \<open>The test \<^verbatim>\<open>current is not None and current > max_requests\<close> of every caller.\<close>

definition over_limit :: "int \<Rightarrow> int option \<Rightarrow> bool" where
  "over_limit max_requests current =
     (case current of None \<Rightarrow> False | Some n \<Rightarrow> max_requests < n)"

text \<open>The number a key holds for \<^verbatim>\<open>INCR\<close>, and when a key can be counted on.\<close>

definition counter_level :: "keyspace \<Rightarrow> string \<Rightarrow> int" where
  "counter_level ks k =
     (case ks k of
        Some (RStr v, _) \<Rightarrow> (case redis_int v of None \<Rightarrow> 0 | Some n \<Rightarrow> n)
      | _ \<Rightarrow> 0)"

definition counter_ok :: "keyspace \<Rightarrow> string \<Rightarrow> bool" where
  "counter_ok ks k =
     (case ks k of
        None \<Rightarrow> True
      | Some (RStr v, _) \<Rightarrow> (case redis_int v of None \<Rightarrow> False | Some n \<Rightarrow> 0 \<le> n)
      | Some (RHash _, _) \<Rightarrow> False)"

lemma counter_level_nonneg: "counter_ok ks k \<Longrightarrow> 0 \<le> counter_level ks k"
  by (auto simp: counter_ok_def counter_level_def split: option.splits rvalue.splits)

lemma int_str_one: "int_str 1 = ''1''"
  by code_simp

lemma redis_int_one [simp]: "redis_int ''1'' = Some 1"
  using redis_int_int_str [of 1] by (simp add: int_str_one)

lemma ks_incr_counter:
  assumes "counter_ok ks k" and "counter_level ks k < int64_max"
  shows "fst (ks_incr k t ks) = Inr (counter_level ks k + 1)"
    and "counter_ok (snd (ks_incr k t ks)) k"
    and "counter_level (snd (ks_incr k t ks)) k = counter_level ks k + 1"
    and "k' \<noteq> k \<Longrightarrow> snd (ks_incr k t ks) k' = ks k'"
    and "snd (ks_incr k t ks) k \<noteq> None"
  using assms
  by (auto simp: ks_incr_def counter_ok_def counter_level_def redis_int_int_str
        split: option.splits rvalue.splits)

lemma ks_expire_counter:
  assumes "0 < n"
  shows "\<exists>b. fst (ks_expire k n t ks) = Inr b"
    and "counter_ok (snd (ks_expire k n t ks)) k = counter_ok ks k"
    and "counter_level (snd (ks_expire k n t ks)) k = counter_level ks k"
    and "k' \<noteq> k \<Longrightarrow> snd (ks_expire k n t ks) k' = ks k'"
  using assms
  by (auto simp: ks_expire_def counter_ok_def counter_level_def split: option.splits rvalue.splits)

lemma ks_incr_ttl_fst:
  "fst (ks_incr k t ks) = Inr n \<Longrightarrow> \<exists>ttl. fst (ks_incr_ttl k t ks) = Inr (n, ttl)"
  by (auto simp: ks_incr_ttl_def ks_ttl_def split: prod.splits sum.splits)

lemma ks_incr_ttl_snd [simp]: "snd (ks_incr_ttl k t ks) = snd (ks_incr k t ks)"
  by (auto simp: ks_incr_ttl_def ks_ttl_def split: prod.splits sum.splits)

section \<open>The contract and its client\<close>

fun bump_times ::
  "(string \<Rightarrow> int \<Rightarrow> 's \<Rightarrow> int option \<times> 's) \<Rightarrow> string \<Rightarrow> int \<Rightarrow> nat \<Rightarrow> 's \<Rightarrow> int option list \<times> 's"
where
  "bump_times bump k w 0 s = ([], s)"
| "bump_times bump k w (Suc n) s =
     (case bump k w s of (c, s') \<Rightarrow>
        (case bump_times bump k w n s' of (cs, s'') \<Rightarrow> (c # cs, s'')))"

lemma repeat_bump:
  "repeat_prog n (\<lambda>s. case bump k w s of (c, s') \<Rightarrow> (f c, s')) s =
     (case bump_times bump k w n s of (cs, s') \<Rightarrow> (map f cs, s'))"
  by (induction n arbitrary: s) (simp_all split: prod.splits)

locale window_counter =
  fixes bump :: "string \<Rightarrow> int \<Rightarrow> 's \<Rightarrow> int option \<times> 's"
    and level :: "'s \<Rightarrow> string \<Rightarrow> int"
    and ready :: "'s \<Rightarrow> string \<Rightarrow> bool"
  assumes bump_value:
      "ready s k \<Longrightarrow> level s k < int64_max \<Longrightarrow> 0 < w \<Longrightarrow> fst (bump k w s) = Some (level s k + 1)"
    and bump_level:
      "ready s k \<Longrightarrow> level s k < int64_max \<Longrightarrow> 0 < w \<Longrightarrow> level (snd (bump k w s)) k = level s k + 1"
    and bump_ready:
      "ready s k \<Longrightarrow> level s k < int64_max \<Longrightarrow> 0 < w \<Longrightarrow> ready (snd (bump k w s)) k"
    and bump_frame:
      "ready s k \<Longrightarrow> level s k < int64_max \<Longrightarrow> 0 < w \<Longrightarrow> k' \<noteq> k \<Longrightarrow>
         level (snd (bump k w s)) k' = level s k'"
begin

lemma bump_times_values:
  "ready s k \<Longrightarrow> level s k + int n \<le> int64_max \<Longrightarrow> 0 < w \<Longrightarrow>
     fst (bump_times bump k w n s) = map (\<lambda>i. Some (level s k + 1 + int i)) [0..<n]"
proof (induction n arbitrary: s)
  case 0
  then show ?case by simp
next
  case (Suc n)
  obtain c s' where b: "bump k w s = (c, s')" by fastforce
  have lt: "level s k < int64_max" using Suc.prems by simp
  have c: "c = Some (level s k + 1)" and l: "level s' k = level s k + 1" and r: "ready s' k"
    using bump_value [OF Suc.prems(1) lt Suc.prems(3)] bump_level [OF Suc.prems(1) lt Suc.prems(3)]
      bump_ready [OF Suc.prems(1) lt Suc.prems(3)] b by auto
  have "fst (bump_times bump k w n s') = map (\<lambda>i. Some (level s' k + 1 + int i)) [0..<n]"
    using Suc.IH [OF r] Suc.prems l by simp
  moreover have "[0..<Suc n] = 0 # map Suc [0..<n]"
    by (simp add: map_Suc_upt upt_conv_Cons)
  ultimately show ?case
    using b c l by (auto split: prod.splits)
qed

lemma over_limit_in_window:
  assumes "ready s k" and "level s k = 0" and "int n \<le> int64_max" and "0 < w" and "0 \<le> mx"
  shows "map (over_limit mx) (fst (bump_times bump k w n s)) =
           map (\<lambda>i. mx \<le> int i) [0..<n]"
  using assms by (auto simp: bump_times_values over_limit_def)

end

end
