(* ===== verification/Py_Json.thy ===== *)
theory Py_Json
  imports Prelude "HOL-Library.AList"
begin

text \<open>
  The standard library's \<^verbatim>\<open>json.dumps\<close> (default separators, \<^verbatim>\<open>ensure_ascii\<close>) and
  \<^verbatim>\<open>json.loads\<close>, which the product service uses to keep payloads in Redis and the
  notification service to read events. The main result is the round trip
  \<open>json_loads_dumps\<close>. An escape beyond \<^verbatim>\<open>\u00ff\<close> is outside the strings of the model and
  is rejected.
\<close>

section \<open>Printing\<close>

abbreviation quote_char :: char where "quote_char \<equiv> CHR 0x22"
abbreviation backslash_char :: char where "backslash_char \<equiv> CHR 0x5C"

definition json_hex :: "nat \<Rightarrow> char" where
  "json_hex n = (if n < 10 then char_of (48 + n) else char_of (87 + n))"

definition json_char :: "char \<Rightarrow> string" where
  "json_char c =
     (let n = (of_char c :: nat)
      in if n = 34 \<or> n = 92 then [backslash_char, c]
         else if n = 10 then [backslash_char, CHR ''n'']
         else if n = 13 then [backslash_char, CHR ''r'']
         else if n = 9 then [backslash_char, CHR ''t'']
         else if n = 12 then [backslash_char, CHR ''f'']
         else if n = 8 then [backslash_char, CHR ''b'']
         else if 32 \<le> n \<and> n \<le> 126 then [c]
         else [backslash_char, CHR ''u'', CHR ''0'', CHR ''0'', json_hex (n div 16), json_hex (n mod 16)])"

definition json_str :: "string \<Rightarrow> string" where
  "json_str s = quote_char # concat (map json_char s) @ [quote_char]"

fun comma_join :: "string list \<Rightarrow> string" where
  "comma_join [] = []"
| "comma_join [x] = x"
| "comma_join (x # y # xs) = x @ '', '' @ comma_join (y # xs)"

fun json_text :: "pyval \<Rightarrow> string" where
  "json_text PNone = ''null''"
| "json_text (PBool b) = (if b then ''true'' else ''false'')"
| "json_text (PInt i) = int_str i"
| "json_text (PStr s) = json_str s"
| "json_text (PList vs) = ''['' @ comma_join (map json_text vs) @ '']''"
| "json_text (PDict kvs) =
     ''{'' @ comma_join (map (\<lambda>kv. json_str (fst kv) @ '': '' @ json_text (snd kv)) kvs) @ ''}''"
| "json_text _ = []"

text \<open>
  The values the model can print: no \<^verbatim>\<open>Decimal\<close> and no \<^verbatim>\<open>datetime\<close> (a \<^verbatim>\<open>TypeError\<close> in
  Python), no float (whose text is not modelled), distinct keys as in any dictionary,
  and integers of at most 4300 digits.
\<close>

fun json_ok :: "pyval \<Rightarrow> bool" where
  "json_ok PNone = True"
| "json_ok (PBool b) = True"
| "json_ok (PInt i) = (length (int_str i) \<le> 4300)"
| "json_ok (PStr s) = True"
| "json_ok (PList vs) = list_all json_ok vs"
| "json_ok (PDict kvs) = (distinct (map fst kvs) \<and> list_all (\<lambda>kv. json_ok (snd kv)) kvs)"
| "json_ok _ = False"

definition json_dumps :: "pyval \<Rightarrow> string res" where
  "json_dumps v = (if json_ok v then Inr (json_text v) else Inl TypeError)"

section \<open>Parsing\<close>

definition json_ws :: "char \<Rightarrow> bool" where
  "json_ws c = (c = CHR '' '' \<or> of_char c = (9::nat) \<or> of_char c = (10::nat) \<or> of_char c = (13::nat))"

definition skip_ws :: "string \<Rightarrow> string" where
  "skip_ws s = dropWhile json_ws s"

definition hex_val :: "char \<Rightarrow> nat option" where
  "hex_val c =
     (let n = (of_char c :: nat)
      in if 48 \<le> n \<and> n \<le> 57 then Some (n - 48)
         else if 97 \<le> n \<and> n \<le> 102 then Some (n - 87)
         else if 65 \<le> n \<and> n \<le> 70 then Some (n - 55)
         else None)"

definition hex4 :: "char \<Rightarrow> char \<Rightarrow> char \<Rightarrow> char \<Rightarrow> nat option" where
  "hex4 a b c d =
     (case (hex_val a, hex_val b, hex_val c, hex_val d) of
        (Some w, Some x, Some y, Some z) \<Rightarrow> Some (((w * 16 + x) * 16 + y) * 16 + z)
      | _ \<Rightarrow> None)"

text \<open>The character a one-letter escape stands for.\<close>

definition simple_escape :: "char \<Rightarrow> char option" where
  "simple_escape c =
     (if c = quote_char \<or> c = backslash_char \<or> c = CHR ''/'' then Some c
      else if c = CHR ''n'' then Some (char_of (10::nat))
      else if c = CHR ''r'' then Some (char_of (13::nat))
      else if c = CHR ''t'' then Some (char_of (9::nat))
      else if c = CHR ''f'' then Some (char_of (12::nat))
      else if c = CHR ''b'' then Some (char_of (8::nat))
      else None)"

definition cons_parse :: "'a \<Rightarrow> ('a list \<times> string) option \<Rightarrow> ('a list \<times> string) option" where
  "cons_parse x r = map_option (\<lambda>(xs, s). (x # xs, s)) r"

text \<open>The rest of a string literal, after its opening quote.\<close>

fun p_string :: "string \<Rightarrow> (string \<times> string) option" where
  "p_string [] = None"
| "p_string (c # s) =
     (if c = quote_char then Some ([], s)
      else if of_char c < (32::nat) then None
      else if c = backslash_char then
        (case s of
           [] \<Rightarrow> None
         | e # s1 \<Rightarrow>
             (case simple_escape e of
                Some d \<Rightarrow> cons_parse d (p_string s1)
              | None \<Rightarrow>
                  (if e = CHR ''u'' then
                     (case s1 of
                        w # x # y # z # s2 \<Rightarrow>
                          (case hex4 w x y z of
                             Some n \<Rightarrow> (if n < 256 then cons_parse (char_of n) (p_string s2) else None)
                           | None \<Rightarrow> None)
                      | _ \<Rightarrow> None)
                   else None)))
      else cons_parse c (p_string s))"

text \<open>
  The double nearest to \<open>c * 10 ^ e\<close>, ties to even. (A value beyond the largest double, which
  Python reads as an infinity, keeps its 53-bit rounding here.)
\<close>

function bit_len :: "int \<Rightarrow> int" where
  "bit_len n = (if n \<le> 0 then 0 else 1 + bit_len (n div 2))"
  by pat_completeness auto
termination
  by (relation "measure nat") auto

declare bit_len.simps [simp del]

definition round_half_even :: "int \<Rightarrow> int \<Rightarrow> int" where
  "round_half_even a b =
     (let q = a div b; r = a mod b
      in if 2 * r < b then q else if b < 2 * r then q + 1 else if even q then q else q + 1)"

definition double_of_decimal :: "int \<Rightarrow> int \<Rightarrow> pyval" where
  "double_of_decimal c e =
     (if c = 0 then PFloat 0 0
      else (let a = \<bar>c\<bar>;
                num = (if 0 \<le> e then a * 10 ^ nat e else a);
                den = (if 0 \<le> e then 1 else 10 ^ nat (- e));
                k0 = bit_len num - bit_len den - 53;
                at = (\<lambda>k. (if 0 \<le> k then round_half_even num (den * 2 ^ nat k)
                           else round_half_even (num * 2 ^ nat (- k)) den));
                k1 = (if at k0 < 2 ^ 53 then k0 else k0 + 1);
                k = max k1 (- 1074)
            in PFloat (sgn c * at k) k))"

text \<open>Number literals: integers, and floats when there is a fraction or an exponent.\<close>

definition p_exponent :: "string \<Rightarrow> (int \<times> string) option" where
  "p_exponent s =
     (case s of
        e # s1 \<Rightarrow>
          (if e = CHR ''e'' \<or> e = CHR ''E'' then
             (let (neg, s2) = split_sign s1; ds = takeWhile is_digit s2
              in if ds = [] then None
                 else Some (if neg then - digits_val ds else digits_val ds,
                            dropWhile is_digit s2))
           else None)
      | [] \<Rightarrow> None)"

definition p_number :: "string \<Rightarrow> (pyval \<times> string) option" where
  "p_number s =
     (let neg = (case s of c # _ \<Rightarrow> c = CHR ''-'' | [] \<Rightarrow> False);
          s0 = (if neg then tl s else s);
          ds0 = takeWhile is_digit s0;
          ds = (case ds0 of c # _ \<Rightarrow> (if c = CHR ''0'' then [c] else ds0) | [] \<Rightarrow> []);
          s1 = drop (length ds) s0;
          sign = (\<lambda>n. if neg then - n else n);
          frac = (case s1 of c # t \<Rightarrow> (if c = CHR ''.'' then takeWhile is_digit t else []) | [] \<Rightarrow> []);
          s2 = (if frac = [] then s1 else drop (Suc (length frac)) s1)
      in if ds = [] then None
         else (case p_exponent s2 of
                 Some (x, s3) \<Rightarrow>
                   Some (double_of_decimal (sign (digits_val (ds @ frac))) (x - int (length frac)), s3)
               | None \<Rightarrow>
                   (if frac = [] then
                      (if length ds \<le> 4300 then Some (PInt (sign (digits_val ds)), s2) else None)
                    else Some (double_of_decimal (sign (digits_val (ds @ frac))) (- int (length frac)), s2))))"

text \<open>A dictionary built from pairs: a repeated key keeps its place and takes the last value.\<close>

definition dict_of_pairs :: "(string \<times> 'v) list \<Rightarrow> (string \<times> 'v) list" where
  "dict_of_pairs kvs = foldl (\<lambda>d kv. AList.update (fst kv) (snd kv) d) [] kvs"

fun p_value :: "nat \<Rightarrow> string \<Rightarrow> (pyval \<times> string) option"
  and p_elems :: "nat \<Rightarrow> string \<Rightarrow> (pyval list \<times> string) option"
  and p_members :: "nat \<Rightarrow> string \<Rightarrow> ((string \<times> pyval) list \<times> string) option"
where
  "p_value 0 s = None"
| "p_value (Suc n) s =
     (if startswith s ''null'' then Some (PNone, drop 4 s)
      else if startswith s ''true'' then Some (PBool True, drop 4 s)
      else if startswith s ''false'' then Some (PBool False, drop 5 s)
      else (case s of
              [] \<Rightarrow> None
            | c # t \<Rightarrow>
                (if c = quote_char then map_option (map_prod PStr id) (p_string t)
                 else if c = CHR ''['' then
                   (case skip_ws t of
                      [] \<Rightarrow> None
                    | d # u \<Rightarrow>
                        (if d = CHR '']'' then Some (PList [], u)
                         else map_option (map_prod PList id) (p_elems n (d # u))))
                 else if c = CHR ''{'' then
                   (case skip_ws t of
                      [] \<Rightarrow> None
                    | d # u \<Rightarrow>
                        (if d = CHR ''}'' then Some (PDict [], u)
                         else map_option (map_prod (\<lambda>kvs. PDict (dict_of_pairs kvs)) id) (p_members n (d # u))))
                 else p_number s)))"
| "p_elems 0 s = None"
| "p_elems (Suc n) s =
     (case p_value n s of
        None \<Rightarrow> None
      | Some (v, s1) \<Rightarrow>
          (case skip_ws s1 of
             [] \<Rightarrow> None
           | c # s2 \<Rightarrow>
               (if c = CHR '']'' then Some ([v], s2)
                else if c = CHR '','' then cons_parse v (p_elems n (skip_ws s2))
                else None)))"
| "p_members 0 s = None"
| "p_members (Suc n) s =
     (case s of
        [] \<Rightarrow> None
      | q # t \<Rightarrow>
          (if q \<noteq> quote_char then None
           else (case p_string t of
                   None \<Rightarrow> None
                 | Some (k, s1) \<Rightarrow>
                     (case skip_ws s1 of
                        [] \<Rightarrow> None
                      | col # s2 \<Rightarrow>
                          (if col \<noteq> CHR '':'' then None
                           else (case p_value n (skip_ws s2) of
                                   None \<Rightarrow> None
                                 | Some (v, s3) \<Rightarrow>
                                     (case skip_ws s3 of
                                        [] \<Rightarrow> None
                                      | c # s4 \<Rightarrow>
                                          (if c = CHR ''}'' then Some ([(k, v)], s4)
                                           else if c = CHR '','' then cons_parse (k, v) (p_members n (skip_ws s4))
                                           else None))))))))"

text \<open>
  The fuel, one more than the length of the text, is never exhausted on a printed value
  (\<open>json_loads_dumps\<close>): each level of the grammar consumes a character.
\<close>

definition json_loads :: "string \<Rightarrow> pyval option" where
  "json_loads s =
     (case p_value (Suc (length s)) (skip_ws s) of
        Some (v, rest) \<Rightarrow> (if skip_ws rest = [] then Some v else None)
      | None \<Rightarrow> None)"

text \<open>
  A text \<open>json_loads\<close> refuses although Python may accept it: with an escape beyond \<^verbatim>\<open>\u00ff\<close>, or with
  one of the literals \<^verbatim>\<open>NaN\<close>, \<^verbatim>\<open>Infinity\<close> and \<^verbatim>\<open>-Infinity\<close>.
\<close>

definition beyond_model :: "string \<Rightarrow> bool" where
  "beyond_model s \<longleftrightarrow>
     contains_str [backslash_char, CHR ''u''] s \<or> contains_str ''NaN'' s \<or> contains_str ''Infinity'' s"

section \<open>The round trip\<close>

lemma hex_val_json_hex: "n < 16 \<Longrightarrow> hex_val (json_hex n) = Some n"
  by (auto simp: hex_val_def json_hex_def Let_def)

lemma char_of_special:
  "char_of (34::nat) = quote_char" "char_of (92::nat) = backslash_char"
  "char_of (10::nat) = CHR 0x0A" "char_of (13::nat) = CHR 0x0D" "char_of (9::nat) = CHR 0x09"
  "char_of (12::nat) = CHR 0x0C" "char_of (8::nat) = CHR 0x08"
  by (code_simp+)

lemma simple_escape_u: "simple_escape CHR ''u'' = None"
  by (simp add: simple_escape_def)

lemma p_string_json_char: "p_string (json_char c @ s) = cons_parse c (p_string s)"
proof -
  let ?n = "of_char c :: nat"
  have n: "?n < 256" by simp
  consider (esc) "?n \<in> {34, 92, 10, 13, 9, 12, 8}" | (plain) "32 \<le> ?n" "?n \<le> 126" "?n \<noteq> 34" "?n \<noteq> 92"
    | (u) "\<not> (32 \<le> ?n \<and> ?n \<le> 126)" "?n \<notin> {10, 13, 9, 12, 8}"
    by fastforce
  then show ?thesis
  proof cases
    case esc
    then have "c \<in> char_of ` {34, 92, 10, 13, 9, 12, 8 :: nat}"
      by (metis char_of_char image_eqI)
    then have "c \<in> {quote_char, backslash_char, CHR 0x0A, CHR 0x0D, CHR 0x09, CHR 0x0C, CHR 0x08}"
      by (simp add: char_of_special)
    then show ?thesis
      by (auto simp: json_char_def simple_escape_def char_of_special)
  next
    case plain
    then have "c \<noteq> quote_char" "c \<noteq> backslash_char" by auto
    with plain show ?thesis by (auto simp: json_char_def)
  next
    case u
    have "hex4 CHR ''0'' CHR ''0'' (json_hex (?n div 16)) (json_hex (?n mod 16)) = Some ?n"
      using n hex_val_json_hex [of "?n div 16"] hex_val_json_hex [of "?n mod 16"]
      by (simp add: hex4_def hex_val_def [of "CHR ''0''"] less_mult_imp_div_less)
    with u n show ?thesis by (auto simp: json_char_def simple_escape_u Let_def)
  qed
qed

lemma p_string_json: "p_string (concat (map json_char s) @ quote_char # rest) = Some (s, rest)"
  by (induction s) (simp_all add: p_string_json_char cons_parse_def del: p_string.simps(2), simp)


text \<open>White space, numbers, and what surrounds a value.\<close>

lemma skip_ws_simps [simp]:
  "skip_ws [] = []"
  "\<not> json_ws c \<Longrightarrow> skip_ws (c # s) = c # s"
  "skip_ws (CHR '' '' # s) = skip_ws s"
  by (simp_all add: skip_ws_def json_ws_def)

lemma not_json_ws [simp]:
  "\<not> json_ws quote_char" "\<not> json_ws CHR '']''" "\<not> json_ws CHR ''}''" "\<not> json_ws CHR '',''"
  "\<not> json_ws CHR '':''" "\<not> json_ws CHR ''[''" "\<not> json_ws CHR ''{''" "\<not> json_ws CHR ''-''"
  "\<not> json_ws CHR ''n''" "\<not> json_ws CHR ''t''" "\<not> json_ws CHR ''f''"
  "is_digit c \<Longrightarrow> \<not> json_ws c"
  by (auto simp: json_ws_def is_digit_def Let_def nat_of_char [symmetric] simp del: nat_of_char)

text \<open>What may follow a value inside a printed text.\<close>

definition json_stop :: "string \<Rightarrow> bool" where
  "json_stop s = (case s of [] \<Rightarrow> True | c # _ \<Rightarrow> c = CHR '','' \<or> c = CHR '']'' \<or> c = CHR ''}'')"

lemma is_digit_facts:
  "\<not> is_digit CHR ''.''" "\<not> is_digit CHR '',''" "\<not> is_digit CHR '']''" "\<not> is_digit CHR ''}''"
  by (simp_all add: is_digit_def)

lemma nat_str_no_leading_zero: "0 < n \<Longrightarrow> hd (nat_str n) \<noteq> CHR ''0''"
proof -
  assume "0 < n"
  then have "0 \<le> n" by simp
  then show ?thesis using \<open>0 < n\<close>
  proof (induction n rule: nat_str_induct)
    case (small n)
    have "digit_char n \<noteq> CHR ''0''"
    proof
      assume "digit_char n = CHR ''0''"
      then have "(of_char (digit_char n) :: int) = 48" by simp
      with small show False by simp
    qed
    with small show ?case by (simp add: nat_str_small)
  next
    case (large n)
    then have "0 < n div 10" by (simp add: pos_imp_zdiv_pos_iff)
    with large show ?case by (simp add: nat_str_large)
  qed
qed

lemma stop_takeWhile_digit:
  "json_stop rest \<Longrightarrow> \<forall>c \<in> set ds. is_digit c \<Longrightarrow>
     takeWhile is_digit (ds @ rest) = ds \<and> dropWhile is_digit (ds @ rest) = rest"
  by (auto simp: json_stop_def takeWhile_append dropWhile_append is_digit_facts split: list.splits)

lemma p_number_int_str:
  assumes "json_stop rest" and "length (int_str i) \<le> 4300"
  shows "p_number (int_str i @ rest) = Some (PInt i, rest)"
proof -
  let ?ds = "nat_str \<bar>i\<bar>"
  have digs: "\<forall>c \<in> set ?ds. is_digit c" by (rule nat_str_digits) simp
  obtain d ds' where ds: "?ds = d # ds'" and d: "is_digit d"
    using digs by (cases ?ds) auto
  have dm: "d \<noteq> CHR ''-''" using d by auto
  have s0: "(if i < 0 then tl (int_str i @ rest) else int_str i @ rest) = ?ds @ rest"
    by (simp add: int_str_def)
  have neg: "(case int_str i @ rest of c # _ \<Rightarrow> c = CHR ''-'' | [] \<Rightarrow> False) = (i < 0)"
    using ds dm by (auto simp: int_str_def)
  have tw: "takeWhile is_digit (?ds @ rest) = ?ds"
    using stop_takeWhile_digit [OF assms(1) digs] by simp
  have lead: "(case ?ds of c # _ \<Rightarrow> (if c = CHR ''0'' then [c] else ?ds) | [] \<Rightarrow> []) = ?ds"
  proof (cases "i = 0")
    case True
    then show ?thesis by (simp add: nat_str_small)
  next
    case False
    then show ?thesis using nat_str_no_leading_zero [of "\<bar>i\<bar>"] ds by simp
  qed
  have fr: "(case rest of c # t \<Rightarrow> (if c = CHR ''.'' then takeWhile is_digit t else []) | [] \<Rightarrow> []) = []"
    and ex: "p_exponent rest = None"
    using assms(1) by (auto simp: json_stop_def p_exponent_def split: list.splits)
  have len: "length ?ds \<le> 4300" using assms(2) by (auto simp: int_str_def split: if_splits)
  show ?thesis
    unfolding p_number_def Let_def neg s0 tw lead
    using fr ex len by simp
qed


lemma json_text_head:
  assumes "json_ok v"
  obtains c t where "json_text v = c # t" and "\<not> json_ws c" and "c \<noteq> CHR '']''"
proof (cases v)
  case (PInt i)
  obtain c t where ct: "int_str i = c # t" by (cases "int_str i") (auto simp: int_str_def split: if_splits)
  then have "is_digit c \<or> c = CHR ''-''" using int_str_chars [of c i] by simp
  then have "\<not> json_ws c" "c \<noteq> CHR '']''" by (auto simp: is_digit_facts)
  with ct PInt show ?thesis by (auto intro: that)
next
  case (PBool b)
  then show ?thesis by (cases b) (auto intro: that)
qed (use assms in \<open>auto simp: json_str_def intro: that split: if_splits\<close>)

lemma p_value_int:
  assumes "json_stop rest" and "length (int_str i) \<le> 4300"
  shows "p_value (Suc n) (int_str i @ rest) = Some (PInt i, rest)"
proof -
  obtain c t where ct: "int_str i = c # t" by (cases "int_str i") (auto simp: int_str_def split: if_splits)
  then have "is_digit c \<or> c = CHR ''-''" using int_str_chars [of c i] by simp
  then have "c \<notin> {CHR ''n'', CHR ''t'', CHR ''f'', quote_char, CHR ''['', CHR ''{''}"
    by (auto simp: is_digit_def)
  then show ?thesis using p_number_int_str [OF assms] ct by simp
qed

lemma p_value_str: "p_value (Suc n) (json_str s @ rest) = Some (PStr s, rest)"
  by (simp add: json_str_def p_string_json)

lemma comma_join_Cons: "xs \<noteq> [] \<Longrightarrow> comma_join (x # xs) = x @ '', '' @ comma_join xs"
  by (cases xs) auto

definition parses :: "pyval \<Rightarrow> bool" where
  "parses v \<longleftrightarrow> (\<forall>n rest. json_stop rest \<longrightarrow> length (json_text v) < n \<longrightarrow>
                  p_value n (json_text v @ rest) = Some (v, rest))"

lemma parsesI:
  "(\<And>n rest. json_stop rest \<Longrightarrow> p_value (Suc n) (json_text v @ rest) = Some (v, rest)) \<Longrightarrow> parses v"
  unfolding parses_def by (metis less_nat_zero_code not0_implies_Suc)

lemma p_elems_json:
  assumes "vs \<noteq> []" and "\<forall>v \<in> set vs. parses v \<and> json_ok v"
    and "length (comma_join (map json_text vs)) < n"
  shows "p_elems (Suc n) (comma_join (map json_text vs) @ CHR '']'' # rest) = Some (vs, rest)"
  using assms
proof (induction vs arbitrary: n)
  case Nil
  then show ?case by simp
next
  case (Cons v vs)
  show ?case
  proof (cases "vs = []")
    case True
    with Cons.prems show ?thesis by (simp add: parses_def json_stop_def)
  next
    case False
    let ?r = "comma_join (map json_text vs) @ CHR '']'' # rest"
    have len: "length (json_text v) < n" "length (comma_join (map json_text vs)) < n - 1" "0 < n"
      using Cons.prems False by (auto simp: comma_join_Cons)
    have v: "p_value n (json_text v @ CHR '','' # CHR '' '' # ?r) = Some (v, CHR '','' # CHR '' '' # ?r)"
      using Cons.prems len by (simp add: parses_def json_stop_def)
    obtain w ws where vs: "vs = w # ws" using False by (cases vs) auto
    then have "json_ok w" using Cons.prems by simp
    then obtain c u where "json_text w = c # u" "\<not> json_ws c" by (rule json_text_head)
    then have sk: "skip_ws ?r = ?r" using vs by (cases ws) auto
    have "p_elems n ?r = Some (vs, rest)"
      using Cons.IH [of "n - 1"] False Cons.prems len by simp
    then show ?thesis
      using v sk False by (simp add: comma_join_Cons cons_parse_def)
  qed
qed

abbreviation member_text :: "string \<times> pyval \<Rightarrow> string" where
  "member_text kv \<equiv> json_str (fst kv) @ '': '' @ json_text (snd kv)"

lemma p_members_json:
  assumes "kvs \<noteq> []" and "\<forall>kv \<in> set kvs. parses (snd kv) \<and> json_ok (snd kv)"
    and "length (comma_join (map member_text kvs)) < n"
  shows "p_members (Suc n) (comma_join (map member_text kvs) @ CHR ''}'' # rest) = Some (kvs, rest)"
  using assms
proof (induction kvs arbitrary: n)
  case Nil
  then show ?case by simp
next
  case (Cons kv kvs)
  obtain k v where kv: "kv = (k, v)" by fastforce
  obtain c u where hd: "json_text v = c # u" "\<not> json_ws c"
    using Cons.prems(2) kv json_text_head [of v] by (metis list.set_intros(1) snd_conv)
  have step: "p_members (Suc n) (member_text kv @ x) =
      (case skip_ws x of
         [] \<Rightarrow> None
       | c # s4 \<Rightarrow>
           (if c = CHR ''}'' then Some ([(k, v)], s4)
            else if c = CHR '','' then cons_parse (k, v) (p_members n (skip_ws s4))
            else None))"
    if "json_stop x" "length (json_text v) < n" for x
  proof -
    have "p_value n (json_text v @ x) = Some (v, x)"
      using Cons.prems(2) kv that by (simp add: parses_def)
    then show ?thesis
      using hd by (simp add: kv json_str_def p_string_json)
  qed
  show ?case
  proof (cases "kvs = []")
    case True
    with Cons.prems kv step [of "CHR ''}'' # rest"] show ?thesis
      by (simp add: json_stop_def)
  next
    case False
    let ?r = "comma_join (map member_text kvs) @ CHR ''}'' # rest"
    have len: "length (json_text v) < n" "length (comma_join (map member_text kvs)) < n - 1" "0 < n"
      using Cons.prems False kv by (auto simp: comma_join_Cons)
    obtain w ws where kvs: "kvs = w # ws" using False by (cases kvs) auto
    then have sk: "skip_ws ?r = ?r" by (cases ws) (simp_all add: json_str_def)
    have "p_members n ?r = Some (kvs, rest)"
      using Cons.IH [of "n - 1"] False Cons.prems len by simp
    moreover have "p_members (Suc n) (member_text kv @ CHR '','' # CHR '' '' # ?r) =
        cons_parse (k, v) (p_members n (skip_ws ?r))"
      using step [of "CHR '','' # CHR '' '' # ?r"] len by (simp add: json_stop_def)
    ultimately show ?thesis
      using sk False kv by (simp add: comma_join_Cons cons_parse_def)
  qed
qed

lemma update_fresh: "k \<notin> fst ` set d \<Longrightarrow> AList.update k v d = d @ [(k, v)]"
  by (induction d) auto

lemma foldl_update_distinct:
  "distinct (map fst (d @ kvs)) \<Longrightarrow>
     foldl (\<lambda>d kv. AList.update (fst kv) (snd kv) d) d kvs = d @ kvs"
proof (induction kvs arbitrary: d)
  case (Cons kv kvs)
  then have "AList.update (fst kv) (snd kv) d = d @ [kv]"
    by (subst update_fresh) auto
  with Cons show ?case by simp
qed simp

lemma dict_of_pairs_distinct: "distinct (map fst kvs) \<Longrightarrow> dict_of_pairs kvs = kvs"
  using foldl_update_distinct [of "[]" kvs] by (simp add: dict_of_pairs_def)

lemma json_parses: "json_ok v \<Longrightarrow> parses v"
proof (induction v rule: json_text.induct)
  case (5 vs)
  then have el: "\<forall>v \<in> set vs. parses v \<and> json_ok v" by (auto simp: list_all_iff)
  have "p_value n (json_text (PList vs) @ rest) = Some (PList vs, rest)"
    if len: "length (json_text (PList vs)) < n" for n rest
  proof (cases "vs = []")
    case True
    with len show ?thesis by (cases n) simp_all
  next
    case False
    obtain m where n: "n = Suc (Suc m)" and m: "length (comma_join (map json_text vs)) < m"
      using len by (cases n; cases "n - 1") auto
    obtain v ws where vs: "vs = v # ws" using False by (cases vs) auto
    then have "json_ok v" using el by simp
    then obtain c u where "json_text v = c # u" "\<not> json_ws c" "c \<noteq> CHR '']''" by (rule json_text_head)
    then obtain u' where u': "comma_join (map json_text vs) = c # u'" "\<not> json_ws c" "c \<noteq> CHR '']''"
      using vs by (cases ws) auto
    have "p_elems (Suc m) (c # u' @ CHR '']'' # rest) = Some (vs, rest)"
      using p_elems_json [OF False el m] u' by simp
    then show ?thesis using u' n by simp
  qed
  then show ?case by (simp add: parses_def)
next
  case (6 kvs)
  then have el: "\<forall>kv \<in> set kvs. parses (snd kv) \<and> json_ok (snd kv)" and dd: "distinct (map fst kvs)"
    by (auto simp: list_all_iff)
  have "p_value n (json_text (PDict kvs) @ rest) = Some (PDict kvs, rest)"
    if len: "length (json_text (PDict kvs)) < n" for n rest
  proof (cases "kvs = []")
    case True
    with len show ?thesis by (cases n) simp_all
  next
    case False
    obtain m where n: "n = Suc (Suc m)" and m: "length (comma_join (map member_text kvs)) < m"
      using len by (cases n; cases "n - 1") auto
    obtain u' where u': "comma_join (map member_text kvs) = quote_char # u'"
      using False by (cases kvs; cases "tl kvs") (auto simp: json_str_def)
    have "p_members (Suc m) (quote_char # u' @ CHR ''}'' # rest) = Some (kvs, rest)"
      using p_members_json [OF False el m] u' by simp
    then show ?thesis using u' n dd by (simp add: dict_of_pairs_distinct)
  qed
  then show ?case by (simp add: parses_def)
qed (auto intro!: parsesI simp: p_value_int p_value_str simp del: p_value.simps(2) split: if_splits, simp_all)

lemma json_loads_dumps: "json_dumps v = Inr s \<Longrightarrow> json_loads s = Some v"
proof -
  assume "json_dumps v = Inr s"
  then have ok: "json_ok v" and s: "s = json_text v" by (auto simp: json_dumps_def split: if_splits)
  obtain c t where ct: "json_text v = c # t" "\<not> json_ws c" using ok by (rule json_text_head)
  have "json_stop []" by (simp add: json_stop_def)
  then have "p_value (Suc (length s)) (json_text v @ []) = Some (v, [])"
    using json_parses [OF ok] s unfolding parses_def by (metis lessI)
  with ct s show ?thesis by (simp add: json_loads_def del: p_value.simps)
qed

end
