(* ===== verification/Py_Decimal.thy ===== *)
theory Py_Decimal
  imports Prelude
begin

text \<open>
  The part of Python's \<^verbatim>\<open>decimal\<close> module the product service uses, in the default context
  (28 digits, \<^verbatim>\<open>ROUND_HALF_EVEN\<close>): comparison, product, difference, \<^verbatim>\<open>quantize\<close> with
  \<^verbatim>\<open>ROUND_HALF_UP\<close>, and the conversion to and from strings. Only finite numbers are
  represented, and zero has no sign.
\<close>

section \<open>Operations\<close>

abbreviation dec_limit :: int where
  "dec_limit \<equiv> 10 ^ 28"

text \<open>The coefficient of \<open>d\<close> at a common, smaller exponent.\<close>

definition coeff_at :: "int \<Rightarrow> decimal \<Rightarrow> int" where
  "coeff_at e d = coeff d * 10 ^ nat (expo d - e)"

definition dec_le :: "decimal \<Rightarrow> decimal \<Rightarrow> bool" where
  "dec_le a b = (let e = min (expo a) (expo b) in coeff_at e a \<le> coeff_at e b)"

definition dec_eq :: "decimal \<Rightarrow> decimal \<Rightarrow> bool" where
  "dec_eq a b = (dec_le a b \<and> dec_le b a)"

text \<open>\<open>n / k\<close> rounded to the nearest integer, ties away from zero, and ties to even.\<close>

definition round_half_up :: "int \<Rightarrow> int \<Rightarrow> int" where
  "round_half_up n k = (let q = (2 * \<bar>n\<bar> + k) div (2 * k) in if n < 0 then - q else q)"

definition round_half_even_div :: "int \<Rightarrow> int \<Rightarrow> int" where
  "round_half_even_div n k =
     (let q = \<bar>n\<bar> div k; r = \<bar>n\<bar> mod k;
          q' = (if 2 * r > k \<or> (2 * r = k \<and> odd q) then q + 1 else q)
      in if n < 0 then - q' else q')"

text \<open>Results are rounded to the 28 digits of the context.\<close>

definition dec_digits :: "int \<Rightarrow> nat" where
  "dec_digits c = length (nat_str \<bar>c\<bar>)"

definition dec_fix :: "decimal \<Rightarrow> decimal" where
  "dec_fix d =
     (if \<bar>coeff d\<bar> < dec_limit then d
      else let k = dec_digits (coeff d) - 28;
               c = round_half_even_div (coeff d) (10 ^ k)
           in if \<bar>c\<bar> < dec_limit then Dec c (expo d + int k) else Dec (c div 10) (expo d + int k + 1))"

definition dec_mul :: "decimal \<Rightarrow> decimal \<Rightarrow> decimal" where
  "dec_mul a b = dec_fix (Dec (coeff a * coeff b) (expo a + expo b))"

definition dec_sub :: "decimal \<Rightarrow> decimal \<Rightarrow> decimal" where
  "dec_sub a b = (let e = min (expo a) (expo b) in dec_fix (Dec (coeff_at e a - coeff_at e b) e))"

text \<open>
  \<^verbatim>\<open>value.quantize(Decimal("0.01"), rounding=ROUND_HALF_UP)\<close>; a result of more than 28 digits is
  an \<^verbatim>\<open>InvalidOperation\<close>.
\<close>

definition quantize_cents :: "decimal \<Rightarrow> decimal res" where
  "quantize_cents d =
     (let c = (if - 2 \<le> expo d then coeff d * 10 ^ nat (expo d + 2)
               else round_half_up (coeff d) (10 ^ nat (- 2 - expo d)))
      in if \<bar>c\<bar> < dec_limit then Inr (Dec c (- 2)) else Inl InvalidOperation)"

section \<open>Strings\<close>

text \<open>\<^verbatim>\<open>str(d)\<close>.\<close>

definition dec_str :: "decimal \<Rightarrow> string" where
  "dec_str d =
     (let ds = nat_str \<bar>coeff d\<bar>;
          n = int (length ds);
          leftdigits = expo d + n;
          dotplace = (if expo d \<le> 0 \<and> - 6 < leftdigits then leftdigits else 1);
          sgn_part = (if coeff d < 0 then ''-'' else []);
          mantissa =
            (if dotplace \<le> 0 then ''0.'' @ replicate (nat (- dotplace)) (CHR ''0'') @ ds
             else if n \<le> dotplace then ds @ replicate (nat (dotplace - n)) (CHR ''0'')
             else take (nat dotplace) ds @ ''.'' @ drop (nat dotplace) ds);
          k = leftdigits - dotplace;
          exp_part = (if k = 0 then [] else ''E'' @ (if 0 \<le> k then ''+'' else []) @ int_str k)
      in sgn_part @ mantissa @ exp_part)"

text \<open>\<^verbatim>\<open>Decimal(s)\<close> for the finite numbers; \<open>None\<close> is an \<^verbatim>\<open>InvalidOperation\<close>.\<close>

definition exponent_part :: "string \<Rightarrow> int option" where
  "exponent_part s =
     (case s of
        [] \<Rightarrow> Some 0
      | c # rest \<Rightarrow>
          (if c = CHR ''e'' \<or> c = CHR ''E''
           then (case split_sign rest of
                   (neg, ds) \<Rightarrow>
                     (if ds \<noteq> [] \<and> list_all is_digit ds
                      then Some (if neg then - digits_val ds else digits_val ds) else None))
           else None))"

definition dec_body :: "string \<Rightarrow> decimal option" where
  "dec_body s =
     (let ip = takeWhile is_digit s; r1 = dropWhile is_digit s;
          (fp, r2) = (case r1 of
                        c # rest \<Rightarrow> (if c = CHR ''.'' then (takeWhile is_digit rest, dropWhile is_digit rest)
                                     else ([], r1))
                      | [] \<Rightarrow> ([], r1))
      in if ip = [] \<and> fp = [] then None
         else (case exponent_part r2 of
                 None \<Rightarrow> None
               | Some e \<Rightarrow> Some (Dec (digits_val (ip @ fp)) (e - int (length fp)))))"

definition dec_of_str :: "string \<Rightarrow> decimal option" where
  "dec_of_str s =
     (case split_sign (filter (\<lambda>c. c \<noteq> CHR ''_'') (strip s)) of
        (neg, body) \<Rightarrow>
          (case dec_body body of
             None \<Rightarrow> None
           | Some d \<Rightarrow> Some (if neg then Dec (- coeff d) (expo d) else d)))"

section \<open>Lemmas\<close>

lemma round_half_up_bounds:
  assumes "0 \<le> n" and "0 < k"
  shows "2 * n - k < 2 * k * round_half_up n k" and "2 * k * round_half_up n k \<le> 2 * n + k"
    and "0 \<le> round_half_up n k"
proof -
  let ?m = "2 * n + k"
  have q: "round_half_up n k = ?m div (2 * k)" using assms by (simp add: round_half_up_def Let_def)
  have "?m = 2 * k * (?m div (2 * k)) + ?m mod (2 * k)" by simp
  moreover have "?m mod (2 * k) < 2 * k" "0 \<le> ?m mod (2 * k)" using assms(2) by simp_all
  ultimately show "2 * n - k < 2 * k * round_half_up n k" and "2 * k * round_half_up n k \<le> ?m"
    unfolding q by linarith+
  show "0 \<le> round_half_up n k" using assms by (simp add: q pos_imp_zdiv_nonneg_iff)
qed

lemma dec_fix_small: "\<bar>coeff d\<bar> < dec_limit \<Longrightarrow> dec_fix d = d"
  by (simp add: dec_fix_def)

lemma dec_le_cents: "dec_le (Dec a 0) (Dec c (- 2)) \<longleftrightarrow> a * 100 \<le> c"
  by (simp add: dec_le_def coeff_at_def)

lemma quantize_cents_Inr:
  "quantize_cents d = Inr a \<Longrightarrow> \<exists>c. a = Dec c (- 2) \<and> \<bar>c\<bar> < dec_limit"
  by (auto simp: quantize_cents_def Let_def split: if_splits)

lemma quantize_cents_nonneg:
  assumes "quantize_cents d = Inr (Dec c (- 2))" and "0 \<le> coeff d"
  shows "0 \<le> c"
  using assms round_half_up_bounds(3) [of "coeff d" "10 ^ nat (- 2 - expo d)"]
  by (auto simp: quantize_cents_def Let_def split: if_splits)

lemma quantize_cents_cents: "\<bar>c\<bar> < dec_limit \<Longrightarrow> quantize_cents (Dec c (- 2)) = Inr (Dec c (- 2))"
  by (simp add: quantize_cents_def)

section \<open>Round trip of amounts in cents\<close>


lemma digits_val_append: "digits_val (a @ b) = digits_val a * 10 ^ length b + digits_val b"
proof (induction b rule: rev_induct)
  case (snoc c b)
  have "digits_val (a @ b @ [c]) = 10 * digits_val (a @ b) + digit_val c"
    by (metis append.assoc digits_val_append1)
  with snoc show ?case by (simp add: algebra_simps)
qed (simp add: digits_val_def)

lemma digits_val_zeros: "digits_val (replicate k (CHR ''0'') @ ds) = digits_val ds"
proof -
  have "digits_val (replicate k (CHR ''0'')) = 0"
    by (induction k) (simp_all add: digits_val_def digit_val_def)
  then show ?thesis by (simp add: digits_val_append)
qed

lemma dec_body_point:
  assumes "list_all is_digit ip" and "list_all is_digit fp" and "ip \<noteq> []"
  shows "dec_body (ip @ CHR ''.'' # fp) = Some (Dec (digits_val (ip @ fp)) (- int (length fp)))"
proof -
  have nd: "\<not> is_digit (CHR ''.'')" by (simp add: is_digit_def)
  have "takeWhile is_digit (ip @ CHR ''.'' # fp) = ip" "dropWhile is_digit (ip @ CHR ''.'' # fp) = CHR ''.'' # fp"
    using assms(1) nd by (simp_all add: list_all_iff takeWhile_append dropWhile_append)
  moreover have f: "takeWhile is_digit fp = fp" "dropWhile is_digit fp = []"
    using assms(2) by (simp_all add: list_all_iff takeWhile_eq_all_conv)
  ultimately show ?thesis using assms(3) by (simp add: dec_body_def exponent_part_def f del: dropWhile_eq_Nil_conv)
qed

lemma dec_of_str_point:
  assumes "list_all is_digit ip" and "list_all is_digit fp" and "ip \<noteq> []"
  shows "dec_of_str (ip @ CHR ''.'' # fp) = Some (Dec (digits_val (ip @ fp)) (- int (length fp)))"
proof -
  let ?s = "ip @ CHR ''.'' # fp"
  have "\<not> is_space (CHR ''.'')" by (simp add: is_space_def)
  then have "strip ?s = ?s"
    using assms(1,2) by (intro strip_no_space) (auto simp: list_all_iff)
  moreover have "filter (\<lambda>c. c \<noteq> CHR ''_'') ?s = ?s"
    using assms(1,2) is_digit_not_special(3) by (subst filter_id_conv) (auto simp: list_all_iff)
  moreover have "split_sign ?s = (False, ?s)"
    using assms(1,3) by (cases ip) auto
  ultimately show ?thesis by (simp add: dec_of_str_def dec_body_point [OF assms])
qed

lemma dec_str_cents:
  assumes "0 \<le> c"
  shows "\<exists>ip fp. dec_str (Dec c (- 2)) = ip @ CHR ''.'' # fp \<and> list_all is_digit ip \<and> list_all is_digit fp \<and>
     ip \<noteq> [] \<and> length fp = 2 \<and> digits_val (ip @ fp) = c"
proof -
  let ?ds = "nat_str c"
  have ds: "\<forall>x \<in> set ?ds. is_digit x" "?ds \<noteq> []" "digits_val ?ds = c"
    using assms nat_str_digits by simp_all
  have z: "is_digit (CHR ''0'')" by (simp add: is_digit_def)
  show ?thesis
  proof (cases "length ?ds \<le> 2")
    case True
    let ?k = "2 - length ?ds"
    have "dec_str (Dec c (- 2)) = ''0'' @ CHR ''.'' # (replicate ?k (CHR ''0'') @ ?ds)"
      using True assms ds(2) by (cases "length ?ds") (auto simp: dec_str_def Let_def nat_diff_distrib intro!: arg_cong [of _ _ "\<lambda>k. replicate k _"])
    moreover have "digits_val (''0'' @ replicate ?k (CHR ''0'') @ ?ds) = c"
      using digits_val_zeros [of "Suc ?k" ?ds] ds(3) by simp
    moreover have "length (replicate ?k (CHR ''0'') @ ?ds) = 2" using True by simp
    ultimately show ?thesis using ds(1) z
      by (intro exI [of _ "''0''"] exI [of _ "replicate ?k (CHR ''0'') @ ?ds"]) (auto simp: list_all_iff)
  next
    case False
    let ?n = "length ?ds - 2"
    have n: "nat (int (length ?ds) - 2) = ?n" by simp
    have "dec_str (Dec c (- 2)) = take ?n ?ds @ CHR ''.'' # drop ?n ?ds"
      using False assms by (simp add: dec_str_def Let_def n)
    moreover have "list_all is_digit (take ?n ?ds)" "list_all is_digit (drop ?n ?ds)"
      using ds(1) by (auto simp: list_all_iff dest: in_set_takeD in_set_dropD)
    ultimately show ?thesis using False ds(3)
      by (intro exI [of _ "take ?n ?ds"] exI [of _ "drop ?n ?ds"]) auto
  qed
qed

lemma dec_of_str_cents: "0 \<le> c \<Longrightarrow> dec_of_str (dec_str (Dec c (- 2))) = Some (Dec c (- 2))"
  using dec_str_cents [of c] dec_of_str_point by fastforce


end
