(* ===== verification/Auth_Libs.thy ===== *)
theory Auth_Libs
  imports Py_Json
begin

text \<open>
  The third-party authentication libraries as parameters: PyJWT (\<open>jwt_lib\<close>) and passlib's
  bcrypt context (\<open>passlib\<close>), with the documented behaviour the services rely on in the
  locales \<open>jwt_codec\<close> and \<open>password_hashing\<close>, and reference instances that meet them.
  Also Python's \<^verbatim>\<open>int(x)\<close> and \<^verbatim>\<open>str(x)\<close> on decoded claims.
\<close>

section \<open>Conversions of claim values\<close>

text \<open>\<^verbatim>\<open>int(x)\<close>: numbers truncate towards zero, strings are parsed, the rest is a \<^verbatim>\<open>TypeError\<close>.\<close>

definition trunc_div :: "int \<Rightarrow> int \<Rightarrow> int" where
  "trunc_div m n = (let q = \<bar>m\<bar> div \<bar>n\<bar> in if (m < 0) \<noteq> (n < 0) then - q else q)"

definition scaled_trunc :: "int \<Rightarrow> int \<Rightarrow> int \<Rightarrow> int" where
  "scaled_trunc base m e = (if 0 \<le> e then m * base ^ nat e else trunc_div m (base ^ nat (- e)))"

fun py_int :: "pyval \<Rightarrow> int res" where
  "py_int (PInt i) = Inr i"
| "py_int (PBool b) = Inr (if b then 1 else 0)"
| "py_int (PFloat m e) = Inr (scaled_trunc 2 m e)"
| "py_int (PDecimal d) = Inr (scaled_trunc 10 (coeff d) (expo d))"
| "py_int (PStr s) = (case int_of_str s of None \<Rightarrow> Inl ValueError | Some i \<Rightarrow> Inr i)"
| "py_int _ = Inl TypeError"

text \<open>
  \<^verbatim>\<open>str(x)\<close>; the text of a float, a container or a date is the parameter \<open>rep\<close>.
\<close>

fun py_str :: "(pyval \<Rightarrow> string) \<Rightarrow> pyval \<Rightarrow> string" where
  "py_str rep (PStr s) = s"
| "py_str rep (PInt i) = int_str i"
| "py_str rep (PBool b) = (if b then ''True'' else ''False'')"
| "py_str rep PNone = ''None''"
| "py_str rep v = rep v"

text \<open>\<^verbatim>\<open>payload[key]\<close>.\<close>

definition dict_item :: "(string \<times> pyval) list \<Rightarrow> string \<Rightarrow> pyval res" where
  "dict_item d k = (case dict_get d k of None \<Rightarrow> Inl (KeyError k) | Some v \<Rightarrow> Inr v)"

text \<open>The \<^verbatim>\<open>Authorization\<close> header a client builds from a token.\<close>

definition bearer :: "string \<Rightarrow> string" where
  "bearer token = ''Bearer '' @ token"

lemma bearer_parts [simp]:
  "partition_str (CHR '' '') (bearer token) = (''Bearer'', '' '', token)"
  "lower_str ''Bearer'' = ''bearer''" "bearer token \<noteq> []"
  by (simp add: bearer_def partition_str_def, code_simp, simp add: bearer_def)

section \<open>PyJWT\<close>

type_synonym claims = "(string \<times> pyval) list"

text \<open>
  \<open>jwt_encode payload key algorithm\<close> and \<open>jwt_decode now token key algorithms\<close>; \<open>None\<close> stands
  for a \<^verbatim>\<open>PyJWTError\<close> (bad signature, malformed or expired token); \<open>now\<close> is the current time
  in microseconds.
\<close>

record jwt_lib =
  jwt_encode :: "claims \<Rightarrow> string \<Rightarrow> string \<Rightarrow> string"
  jwt_decode :: "int \<Rightarrow> string \<Rightarrow> string \<Rightarrow> string list \<Rightarrow> claims option"

text \<open>\<^verbatim>\<open>encode\<close> writes a \<^verbatim>\<open>datetime\<close> as its whole seconds.\<close>

fun jwt_claim_value :: "pyval \<Rightarrow> pyval" where
  "jwt_claim_value (PDatetime us) = PInt (us div 1000000)"
| "jwt_claim_value v = v"

definition jwt_claims :: "claims \<Rightarrow> claims" where
  "jwt_claims c = map (\<lambda>(k, v). (k, jwt_claim_value v)) c"

text \<open>A decoded token is valid as long as the current time is before its \<^verbatim>\<open>exp\<close>.\<close>

definition jwt_fresh :: "int \<Rightarrow> claims \<Rightarrow> bool" where
  "jwt_fresh now c =
     (case dict_get c ''exp'' of Some (PInt x) \<Rightarrow> now < x * 1000000 | _ \<Rightarrow> True)"

locale jwt_codec =
  fixes J :: jwt_lib
  assumes decode_encode:
      "alg \<in> set algs \<Longrightarrow> json_ok (PDict (jwt_claims payload)) \<Longrightarrow>
         jwt_decode J now (jwt_encode J payload key alg) key algs =
           (if jwt_fresh now (jwt_claims payload) then Some (jwt_claims payload) else None)"
    and decode_fresh:
      "jwt_decode J now token key algs = Some c \<Longrightarrow> jwt_fresh now c"
    and encode_nonempty: "jwt_encode J payload key alg \<noteq> []"

text \<open>A codec that keeps the key in clear shows that the laws can be met.\<close>

definition ref_jwt_decode :: "int \<Rightarrow> string \<Rightarrow> string \<Rightarrow> string list \<Rightarrow> claims option" where
  "ref_jwt_decode now token key algs =
     (case json_loads token of
        Some (PList [PStr alg, PStr k, PDict c]) \<Rightarrow>
          (if alg \<in> set algs \<and> k = key \<and> jwt_fresh now c then Some c else None)
      | _ \<Rightarrow> None)"

definition ref_jwt :: jwt_lib where
  "ref_jwt =
     \<lparr>jwt_encode = (\<lambda>c key alg. json_text (PList [PStr alg, PStr key, PDict (jwt_claims c)])),
      jwt_decode = ref_jwt_decode\<rparr>"

interpretation ref_jwt: jwt_codec ref_jwt
proof
  fix alg :: string and algs payload now key
  assume "alg \<in> set algs" and ok: "json_ok (PDict (jwt_claims payload))"
  have "json_loads (json_text (PList [PStr alg, PStr key, PDict (jwt_claims payload)])) =
          Some (PList [PStr alg, PStr key, PDict (jwt_claims payload)])"
    by (rule json_loads_dumps) (use ok in \<open>simp add: json_dumps_def\<close>)
  with \<open>alg \<in> set algs\<close>
  show "jwt_decode ref_jwt now (jwt_encode ref_jwt payload key alg) key algs =
          (if jwt_fresh now (jwt_claims payload) then Some (jwt_claims payload) else None)"
    by (simp add: ref_jwt_def ref_jwt_decode_def del: json_text.simps)
next
  fix now token key algs c
  assume "jwt_decode ref_jwt now token key algs = Some c"
  then show "jwt_fresh now c"
    by (auto simp: ref_jwt_def ref_jwt_decode_def
          split: option.splits pyval.splits list.splits if_splits)
next
  fix payload key alg
  show "jwt_encode ref_jwt payload key alg \<noteq> []"
    by (simp add: ref_jwt_def)
qed

section \<open>passlib\<close>

text \<open>
  \<open>verify plain hashed\<close>, and \<open>hash salt plain\<close> with the random salt made explicit. Both may raise: passlib
  refuses a password with a NUL or an excessive length, and a stored hash it cannot identify. A hash
  that was made verifies its password.
\<close>

record passlib =
  pw_verify :: "string \<Rightarrow> string \<Rightarrow> bool res"
  pw_hash :: "string \<Rightarrow> string \<Rightarrow> string res"

locale password_hashing =
  fixes P :: passlib
  assumes verify_hash: "pw_hash P salt plain = Inr hashed \<Longrightarrow> pw_verify P plain hashed = Inr True"

abbreviation nul_char :: char where
  "nul_char \<equiv> CHR 0x00"

definition ref_passlib :: passlib where
  "ref_passlib =
     \<lparr>pw_verify = (\<lambda>plain hashed.
        if nul_char \<in> set plain \<or> \<not> startswith hashed ''h:'' then Inl ValueError else Inr (hashed = ''h:'' @ plain)),
      pw_hash = (\<lambda>salt plain. if nul_char \<in> set plain then Inl ValueError else Inr (''h:'' @ plain))\<rparr>"

interpretation ref_pw: password_hashing ref_passlib
  by unfold_locales (auto simp: ref_passlib_def startswith_append split: if_splits)

lemma py_int_claim [simp]: "py_int (jwt_claim_value (PInt i)) = Inr i"
  by simp

end
