(* ===== verification/Gateway.thy ===== *)
theory Gateway
  imports Rate_Limit Auth_Libs Py_Sha256
begin

text \<open>
  The API gateway (\<^verbatim>\<open>gateway/app\<close>): token checks and revocation lookup
  (\<^verbatim>\<open>core/security.py\<close>, \<^verbatim>\<open>core/cache.py\<close>), routing, role enforcement, rate limiting and
  forwarding (\<^verbatim>\<open>core/proxy.py\<close>) and the application state (\<^verbatim>\<open>main.py\<close>).

  Parameters: the Redis client, PyJWT, the current time, the upstream HTTP client (a function
  from the request sent to what comes back) and the text of claim values that are not
  scalars. A program over \<open>'r\<close> changes the state of Redis only.
\<close>

section \<open>Settings and data\<close>

record gateway_settings =
  gw_jwt_secret :: string
  gw_jwt_algorithm :: string
  gw_cors_origins :: "string list"
  gw_user_service_url :: string
  gw_product_service_url :: string
  gw_order_service_url :: string
  gw_request_timeout_seconds :: int
  gw_upstream_max_connections :: int
  gw_upstream_max_keepalive_connections :: int
  gw_upstream_keepalive_expiry_seconds :: int
  gw_redis_enabled :: bool
  gw_redis_host :: string
  gw_redis_port :: int
  gw_redis_db :: int
  gw_redis_password :: "string option"
  gw_login_rate_limit_max_requests :: int
  gw_login_rate_limit_window_seconds :: int
  gw_order_create_rate_limit_max_requests :: int
  gw_order_create_rate_limit_window_seconds :: int

definition gateway_default_settings :: gateway_settings where
  "gateway_default_settings =
     \<lparr>gw_jwt_secret = ''change-me-in-env'',
      gw_jwt_algorithm = ''HS256'',
      gw_cors_origins = [''http://localhost:5173'', ''http://127.0.0.1:5173''],
      gw_user_service_url = ''http://localhost:8001'',
      gw_product_service_url = ''http://localhost:8002'',
      gw_order_service_url = ''http://localhost:8080'',
      gw_request_timeout_seconds = 15,
      gw_upstream_max_connections = 2048,
      gw_upstream_max_keepalive_connections = 512,
      gw_upstream_keepalive_expiry_seconds = 30,
      gw_redis_enabled = True,
      gw_redis_host = ''localhost'',
      gw_redis_port = 6379,
      gw_redis_db = 0,
      gw_redis_password = None,
      gw_login_rate_limit_max_requests = 10,
      gw_login_rate_limit_window_seconds = 60,
      gw_order_create_rate_limit_max_requests = 20,
      gw_order_create_rate_limit_window_seconds = 60\<rparr>"

record 'r gateway_env =
  ge_settings :: gateway_settings
  ge_redis :: "'r redis"
  ge_jwt :: jwt_lib
  ge_now :: int
  ge_repr :: "pyval \<Rightarrow> string"

record current_user =
  cu_user_id :: int
  cu_username :: string
  cu_role :: string

record http_request =
  rq_method :: string
  rq_path :: string
  rq_client :: "string option"
  rq_headers :: "(string \<times> string) list"
  rq_query :: "(string \<times> string) list"
  rq_body :: string

record upstream_request =
  up_method :: string
  up_url :: string
  up_content :: string
  up_params :: "(string \<times> string) list"
  up_headers :: "(string \<times> string) list"

record http_response =
  rs_status :: int
  rs_headers :: "(string \<times> string) list"
  rs_content :: string
  rs_media_type :: "string option"

record upstream_response =
  ur_status :: int
  ur_headers :: "(string \<times> string) list"
  ur_content :: string

text \<open>
  An httpx call returns, or raises a \<^verbatim>\<open>TimeoutException\<close>, another \<^verbatim>\<open>RequestError\<close>, or an exception that
  is neither, such as \<^verbatim>\<open>InvalidURL\<close>.
\<close>

datatype http_outcome =
    Upstream upstream_response
  | TimeoutException string
  | RequestError string
  | ClientError py_exc

type_synonym http_client = "upstream_request \<Rightarrow> http_outcome"

record 'r gateway_state =
  gs_redis :: 'r
  gs_http_client :: "http_client option"

text \<open>\<^verbatim>\<open>headers.get(name)\<close>: the first header of that (lower-case) name.\<close>

definition header_get :: "(string \<times> string) list \<Rightarrow> string \<Rightarrow> string option" where
  "header_get hs name = map_of hs (lower_str name)"

section \<open>\<open>core/cache.py\<close>\<close>

definition gw_blacklist_key :: "string \<Rightarrow> string" where
  "gw_blacklist_key token = ''user-service:blacklist:'' @ sha256_hexdigest token"

definition gw_get_redis_client :: "'r gateway_env \<Rightarrow> 'r redis option" where
  "gw_get_redis_client E = (if \<not> gw_redis_enabled (ge_settings E) then None else Some (ge_redis E))"

definition gw_safe_execute ::
  "'r gateway_env \<Rightarrow> ('r redis \<Rightarrow> ('r, 'a option) rcmd) \<Rightarrow> 'r \<Rightarrow> 'a option \<times> 'r" where
  "gw_safe_execute E func = safe_execute (gw_get_redis_client E) func"

definition gw_is_token_blacklisted :: "'r gateway_env \<Rightarrow> string \<Rightarrow> 'r \<Rightarrow> bool \<times> 'r" where
  "gw_is_token_blacklisted E token s =
     (case gw_safe_execute E (\<lambda>client. redis_get client (gw_blacklist_key token)) s of
        (value, s') \<Rightarrow> (value \<noteq> None, s'))"

definition gw_increment :: "string \<Rightarrow> int \<Rightarrow> 'r redis \<Rightarrow> ('r, int option) rcmd" where
  "gw_increment key window_seconds client s =
     (case redis_incr_ttl client key s of
        (Inl e, s1) \<Rightarrow> (Inl e, s1)
      | (Inr (current, ttl), s1) \<Rightarrow>
          (if ttl = - 1 then
             (case redis_expire client key window_seconds s1 of
                (Inl e, s2) \<Rightarrow> (Inl e, s2)
              | (Inr _, s2) \<Rightarrow> (Inr (Some current), s2))
           else if ttl = - 2 then
             (case redis_expire client key window_seconds s1 of
                (Inl e, s2) \<Rightarrow> (Inl e, s2)
              | (Inr _, s2) \<Rightarrow> (Inr (Some current), s2))
           else (Inr (Some current), s1)))"

definition gw_increment_rate_limit :: "'r gateway_env \<Rightarrow> string \<Rightarrow> int \<Rightarrow> 'r \<Rightarrow> int option \<times> 'r" where
  "gw_increment_rate_limit E key window_seconds =
     gw_safe_execute E (gw_increment key window_seconds)"

section \<open>\<open>core/security.py\<close>\<close>

definition gw_decode_token :: "'r gateway_env \<Rightarrow> string \<Rightarrow> ('r, current_user) prog" where
  "gw_decode_token E token s =
     (case gw_is_token_blacklisted E token s of
        (True, s') \<Rightarrow> (Inl (http_error 401 ''Access token has been revoked''), s')
      | (False, s') \<Rightarrow>
          (case jwt_decode (ge_jwt E) (ge_now E) token (gw_jwt_secret (ge_settings E))
                  [gw_jwt_algorithm (ge_settings E)] of
             None \<Rightarrow> (Inl (http_error 401 ''Invalid access token''), s')
           | Some payload \<Rightarrow>
               (bind_res (bind_res (dict_item payload ''user_id'') py_int) (\<lambda>user_id.
                bind_res (dict_item payload ''username'') (\<lambda>username.
                bind_res (dict_item payload ''role'') (\<lambda>role.
                  Inr \<lparr>cu_user_id = user_id,
                       cu_username = py_str (ge_repr E) username,
                       cu_role = py_str (ge_repr E) role\<rparr>))), s')))"

definition gw_get_current_user :: "'r gateway_env \<Rightarrow> string option \<Rightarrow> ('r, current_user option) prog" where
  "gw_get_current_user E authorization s =
     (case authorization of
        None \<Rightarrow> (Inr None, s)
      | Some a \<Rightarrow>
          (if a = [] then (Inr None, s)
           else (case partition_str (CHR '' '') a of
                   (scheme, _, token) \<Rightarrow>
                     (if lower_str scheme \<noteq> ''bearer'' \<or> token = []
                      then (Inl (http_error 401 ''Authorization header must use Bearer token''), s)
                      else bind_prog (gw_decode_token E token) (\<lambda>u. return_prog (Some u)) s))))"

definition gw_get_optional_current_user ::
  "'r gateway_env \<Rightarrow> string option \<Rightarrow> ('r, current_user option) prog" where
  "gw_get_optional_current_user E authorization s =
     (if authorization = None \<or> authorization = Some [] then (Inr None, s)
      else gw_get_current_user E authorization s)"

section \<open>\<open>core/proxy.py\<close>\<close>

definition resolve_target :: "gateway_settings \<Rightarrow> string \<Rightarrow> string res" where
  "resolve_target S path =
     (if startswith path ''/api/auth''
      then Inr (gw_user_service_url S @ replace_first ''/api'' [] path)
      else if startswith path ''/api/users'' \<or> startswith path ''/api/admin/users''
      then Inr (gw_user_service_url S @ replace_first ''/api'' [] path)
      else if startswith path ''/api/products'' \<or> startswith path ''/api/admin/products''
      then Inr (gw_product_service_url S @ replace_first ''/api'' [] path)
      else if startswith path ''/api/orders'' \<or> startswith path ''/api/admin/orders''
      then Inr (gw_order_service_url S @ replace_first ''/api'' [] path)
      else Inl (http_error 404 ''Route not found''))"

text \<open>\<^verbatim>\<open>re.fullmatch(r"/api/products/\d+", path)\<close>.\<close>

definition is_product_detail_path :: "string \<Rightarrow> bool" where
  "is_product_detail_path path =
     (let p = ''/api/products/''; rest = drop (length p) path
      in startswith path p \<and> rest \<noteq> [] \<and> list_all is_digit rest)"

definition is_public_route :: "http_request \<Rightarrow> bool" where
  "is_public_route request =
     (if rq_path request = ''/api/auth/login'' then True
      else if rq_method request = ''GET'' \<and> rq_path request = ''/api/products'' then True
      else if rq_method request = ''GET'' \<and> is_product_detail_path (rq_path request) then True
      else rq_path request \<in> {''/health'', ''/ready'', ''/live''})"

definition enforce_role :: "string \<Rightarrow> current_user option \<Rightarrow> unit res" where
  "enforce_role path user =
     (if contains_str ''/api/admin/'' path then
        (case user of
           None \<Rightarrow> Inl (http_error 401 ''Authentication required'')
         | Some u \<Rightarrow>
             (if cu_role u \<noteq> ''ADMIN'' then Inl (http_error 403 ''Admin role required'') else Inr ()))
      else Inr ())"

definition client_host :: "http_request \<Rightarrow> string" where
  "client_host request = (case rq_client request of None \<Rightarrow> ''unknown'' | Some h \<Rightarrow> h)"

definition login_rate_key :: "http_request \<Rightarrow> string" where
  "login_rate_key request = ''gateway:ratelimit:login:'' @ client_host request"

definition order_create_rate_key :: "http_request \<Rightarrow> current_user option \<Rightarrow> string" where
  "order_create_rate_key request user =
     ''gateway:ratelimit:order-create:'' @
       (case user of
          Some u \<Rightarrow> ''user:'' @ int_str (cu_user_id u)
        | None \<Rightarrow> ''ip:'' @ client_host request)"

definition apply_rate_limit :: "'r gateway_env \<Rightarrow> http_request \<Rightarrow> current_user option \<Rightarrow> ('r, unit) prog" where
  "apply_rate_limit E request user s =
     (if rq_method request = ''POST'' \<and> rq_path request = ''/api/auth/login'' then
        (case gw_increment_rate_limit E (login_rate_key request)
                (gw_login_rate_limit_window_seconds (ge_settings E)) s of
           (current, s') \<Rightarrow>
             (if over_limit (gw_login_rate_limit_max_requests (ge_settings E)) current
              then Inl (http_error 429 ''Too many login attempts. Please try again later.'')
              else Inr (), s'))
      else if rq_method request = ''POST'' \<and> rq_path request = ''/api/orders'' then
        (case gw_increment_rate_limit E (order_create_rate_key request user)
                (gw_order_create_rate_limit_window_seconds (ge_settings E)) s of
           (current, s') \<Rightarrow>
             (if over_limit (gw_order_create_rate_limit_max_requests (ge_settings E)) current
              then Inl (http_error 429 ''Order submission rate limit exceeded. Please retry shortly.'')
              else Inr (), s'))
      else (Inr (), s))"

definition forwarded_headers :: "http_request \<Rightarrow> current_user option \<Rightarrow> (string \<times> string) list" where
  "forwarded_headers request user =
     (let headers = dict_of_pairs (filter (\<lambda>kv. lower_str (fst kv) \<noteq> ''host'') (rq_headers request))
      in case user of
           None \<Rightarrow> headers
         | Some u \<Rightarrow>
             AList.update ''x-user-role'' (cu_role u)
               (AList.update ''x-username'' (cu_username u)
                  (AList.update ''x-user-id'' (int_str (cu_user_id u)) headers)))"

definition excluded_headers :: "string set" where
  "excluded_headers = {''content-encoding'', ''transfer-encoding'', ''connection''}"

definition get_http_client :: "http_client option \<Rightarrow> http_client res" where
  "get_http_client hc =
     (case hc of
        None \<Rightarrow> Inl (http_error 503 ''Gateway upstream client not ready'')
      | Some c \<Rightarrow> Inr c)"

definition forward_request ::
  "gateway_settings \<Rightarrow> http_client option \<Rightarrow> http_request \<Rightarrow> current_user option \<Rightarrow> http_response res" where
  "forward_request S hc request user =
     bind_res (resolve_target S (rq_path request)) (\<lambda>target_url.
     bind_res (get_http_client hc) (\<lambda>client.
       (case client \<lparr>up_method = rq_method request, up_url = target_url, up_content = rq_body request,
                     up_params = rq_query request, up_headers = forwarded_headers request user\<rparr> of
          TimeoutException cls \<Rightarrow> Inl (http_error 504 (''Upstream timeout: '' @ cls))
        | RequestError cls \<Rightarrow> Inl (http_error 502 (''Upstream request error: '' @ cls))
        | ClientError e \<Rightarrow> Inl e
        | Upstream up \<Rightarrow>
            Inr \<lparr>rs_status = ur_status up,
                 rs_headers = dict_of_pairs (filter (\<lambda>kv. lower_str (fst kv) \<notin> excluded_headers) (ur_headers up)),
                 rs_content = ur_content up,
                 rs_media_type = header_get (ur_headers up) ''content-type''\<rparr>)))"

definition on_redis :: "('r, 'a) prog \<Rightarrow> ('r gateway_state, 'a) prog" where
  "on_redis m st = (case m (gs_redis st) of (x, s') \<Rightarrow> (x, st\<lparr>gs_redis := s'\<rparr>))"

definition gateway_proxy :: "'r gateway_env \<Rightarrow> http_request \<Rightarrow> ('r gateway_state, http_response) prog" where
  "gateway_proxy E request =
     bind_prog
       (on_redis (if is_public_route request
                  then gw_get_optional_current_user E (header_get (rq_headers request) ''authorization'')
                  else gw_get_current_user E (header_get (rq_headers request) ''authorization'')))
       (\<lambda>user.
     bind_prog (lift_res (enforce_role (rq_path request) user)) (\<lambda>_.
     bind_prog (on_redis (apply_rate_limit E request user)) (\<lambda>_.
       (\<lambda>st. (forward_request (ge_settings E) (gs_http_client st) request user, st)))))"

section \<open>\<open>main.py\<close>\<close>

definition set_http_client :: "http_client \<Rightarrow> 'r gateway_state \<Rightarrow> 'r gateway_state" where
  "set_http_client client st = st\<lparr>gs_http_client := Some client\<rparr>"

definition clear_http_client :: "'r gateway_state \<Rightarrow> 'r gateway_state" where
  "clear_http_client st = st\<lparr>gs_http_client := None\<rparr>"

datatype lifespan_event = Startup http_client | Shutdown

fun lifespan :: "lifespan_event \<Rightarrow> 'r gateway_state \<Rightarrow> 'r gateway_state" where
  "lifespan (Startup client) st = set_http_client client st"
| "lifespan Shutdown st = clear_http_client st"

definition gw_health :: "(string \<times> string) list" where
  "gw_health = [(''status'', ''UP''), (''service'', ''gateway'')]"

definition gw_ready :: "(string \<times> string) list" where
  "gw_ready = [(''status'', ''READY''), (''service'', ''gateway'')]"

definition gw_live :: "(string \<times> string) list" where
  "gw_live = [(''status'', ''LIVE''), (''service'', ''gateway'')]"

section \<open>A concrete environment\<close>

text \<open>
  The default settings with the reference servers: the concrete inputs on which the
  properties below are applied.
\<close>

definition ref_gateway_env :: "ref_redis gateway_env" where
  "ref_gateway_env =
     \<lparr>ge_settings = gateway_default_settings, ge_redis = ref_client, ge_jwt = ref_jwt, ge_now = 0,
      ge_repr = (\<lambda>_. [])\<rparr>"

definition admin_claims :: claims where
  "admin_claims = [(''user_id'', PInt 1), (''username'', PStr ''root''), (''role'', PStr ''ADMIN'')]"

definition admin_token :: string where
  "admin_token = jwt_encode ref_jwt admin_claims ''change-me-in-env'' ''HS256''"

definition admin_authorization :: string where
  "admin_authorization = ''Bearer '' @ admin_token"

definition ok_client :: http_client where
  "ok_client r = Upstream \<lparr>ur_status = 200, ur_headers = [(''content-type'', up_url r)], ur_content = up_content r\<rparr>"

definition plain_request :: "string \<Rightarrow> string \<Rightarrow> (string \<times> string) list \<Rightarrow> http_request" where
  "plain_request m path hs =
     \<lparr>rq_method = m, rq_path = path, rq_client = Some ''10.0.0.9'', rq_headers = hs, rq_query = [], rq_body = []\<rparr>"

definition fresh_gateway :: "ref_redis gateway_state" where
  "fresh_gateway = \<lparr>gs_redis = fresh_redis, gs_http_client = Some ok_client\<rparr>"

definition admin_request :: http_request where
  "admin_request = plain_request ''GET'' ''/api/admin/users'' [(''authorization'', admin_authorization)]"

section \<open>Routing\<close>

lemma contains_str_set: "contains_str p s \<Longrightarrow> set p \<subseteq> set s"
  by (auto simp: contains_str_iff)

lemma api_prefix:
  "startswith path (''/api'' @ p) \<Longrightarrow> \<exists>t. path = ''/api'' @ p @ t \<and> replace_first ''/api'' [] path = p @ t"
proof -
  assume "startswith path (''/api'' @ p)"
  then obtain t where "path = ''/api'' @ p @ t" by (auto simp: startswith_iff)
  then show ?thesis using replace_first_prefix [of "''/api''" "[]" "p @ t"] by auto
qed

theorem resolve_target_confined:
  assumes "resolve_target S path = Inr url"
  shows "\<exists>base rest. path = ''/api'' @ rest \<and> url = base @ rest \<and>
           base \<in> {gw_user_service_url S, gw_product_service_url S, gw_order_service_url S} \<and>
           (\<exists>p \<in> {''/auth'', ''/users'', ''/admin/users'', ''/products'', ''/admin/products'',
                  ''/orders'', ''/admin/orders''}. startswith rest p) \<and>
           \<not> startswith rest ''/internal''"
proof -
  let ?ps = "{''/auth'', ''/users'', ''/admin/users'', ''/products'', ''/admin/products'',
              ''/orders'', ''/admin/orders''}"
  obtain p base where p: "p \<in> ?ps" "startswith path (''/api'' @ p)"
    and u: "url = base @ replace_first ''/api'' [] path"
    and b: "base \<in> {gw_user_service_url S, gw_product_service_url S, gw_order_service_url S}"
    using assms that unfolding resolve_target_def by (auto split: if_splits)
  obtain t where t: "path = ''/api'' @ p @ t" "replace_first ''/api'' [] path = p @ t"
    using api_prefix [OF p(2)] by blast
  have "startswith (p @ t) p" by simp
  moreover have "\<not> startswith (p @ t) ''/internal''" using p(1) by auto
  ultimately show ?thesis
    using t u b p(1) by (intro exI [of _ base] exI [of _ "p @ t"]) auto
qed

section \<open>Authentication\<close>

lemma gw_decode_token_Inr:
  assumes "gw_decode_token E token s = (Inr u, s')"
  shows "\<exists>payload role. jwt_decode (ge_jwt E) (ge_now E) token (gw_jwt_secret (ge_settings E))
             [gw_jwt_algorithm (ge_settings E)] = Some payload \<and>
           bind_res (dict_item payload ''user_id'') py_int = Inr (cu_user_id u) \<and>
           dict_get payload ''role'' = Some role \<and> cu_role u = py_str (ge_repr E) role \<and>
           fst (gw_is_token_blacklisted E token s) = False"
  using assms
  by (auto simp: gw_decode_token_def dict_item_def bind_res_eq_Inr
        split: prod.splits bool.splits option.splits)

lemma gw_get_current_user_Some:
  assumes "gw_get_current_user E auth s = (Inr (Some u), s')"
  shows "\<exists>a scheme sep token. auth = Some a \<and> partition_str (CHR '' '') a = (scheme, sep, token) \<and>
           lower_str scheme = ''bearer'' \<and> token \<noteq> [] \<and> gw_decode_token E token s = (Inr u, s')"
  using assms
  by (auto simp: gw_get_current_user_def bind_prog_eq_Inr split: option.splits if_splits prod.splits)

lemma gw_get_optional_same: "gw_get_optional_current_user E auth s = gw_get_current_user E auth s"
  by (auto simp: gw_get_optional_current_user_def gw_get_current_user_def)

lemma on_redis_eq:
  "on_redis m st = (r, st') \<longleftrightarrow> (\<exists>s'. m (gs_redis st) = (r, s') \<and> st' = st\<lparr>gs_redis := s'\<rparr>)"
  by (auto simp: on_redis_def split: prod.splits)

lemma gateway_proxy_Inr:
  assumes "gateway_proxy E req st = (Inr resp, st')"
  shows "\<exists>user s1 s2. gw_get_current_user E (header_get (rq_headers req) ''authorization'') (gs_redis st) = (Inr user, s1) \<and>
           enforce_role (rq_path req) user = Inr () \<and>
           apply_rate_limit E req user s1 = (Inr (), s2) \<and>
           st' = st\<lparr>gs_redis := s2\<rparr> \<and>
           forward_request (ge_settings E) (gs_http_client st) req user = Inr resp"
  using assms
  by (auto simp: gateway_proxy_def bind_prog_eq_Inr on_redis_eq gw_get_optional_same
        split: if_splits)

text \<open>
  C4: The gateway forwards a request whose path contains /api/admin/ only when its bearer token
  is not revoked, decodes under the configured secret and carries the role ADMIN.
\<close>

theorem gateway_admin_needs_verified_admin:
  assumes "contains_str ''/api/admin/'' (rq_path req)"
    and "gateway_proxy E req st = (Inr resp, st')"
  shows "\<exists>a scheme sep token payload role.
           header_get (rq_headers req) ''authorization'' = Some a \<and>
           partition_str (CHR '' '') a = (scheme, sep, token) \<and> lower_str scheme = ''bearer'' \<and>
           jwt_decode (ge_jwt E) (ge_now E) token (gw_jwt_secret (ge_settings E))
             [gw_jwt_algorithm (ge_settings E)] = Some payload \<and>
           dict_get payload ''role'' = Some role \<and> py_str (ge_repr E) role = ''ADMIN'' \<and>
           fst (gw_is_token_blacklisted E token (gs_redis st)) = False"
proof -
  obtain user s1 where u: "gw_get_current_user E (header_get (rq_headers req) ''authorization'') (gs_redis st) = (Inr user, s1)"
    and er: "enforce_role (rq_path req) user = Inr ()"
    using gateway_proxy_Inr [OF assms(2)] by blast
  obtain v where v: "user = Some v" "cu_role v = ''ADMIN''"
    using er assms(1) by (auto simp: enforce_role_def split: option.splits if_splits)
  then obtain a scheme sep token where a: "header_get (rq_headers req) ''authorization'' = Some a"
      "partition_str (CHR '' '') a = (scheme, sep, token)" "lower_str scheme = ''bearer''"
      "gw_decode_token E token (gs_redis st) = (Inr v, s1)"
    using gw_get_current_user_Some [of E _ _ v s1] u by blast
  with gw_decode_token_Inr [OF a(4)] v(2) show ?thesis by fastforce
qed

section \<open>Identity headers\<close>

lemma map_of_update_eq: "map_of (AList.update k v al) k' = (if k' = k then Some v else map_of al k')"
  by (simp add: AList.update_conv')

lemma set_update: "(k', v') \<in> set (AList.update k v al) \<Longrightarrow> k' \<noteq> k \<Longrightarrow> (k', v') \<in> set al"
  by (induction al) (auto split: if_splits)

lemma lower_str_x [simp]: 
  "lower_str ''x-user-id'' = ''x-user-id''" "lower_str ''x-username'' = ''x-username''"
  "lower_str ''x-user-role'' = ''x-user-role''" "lower_str ''authorization'' = ''authorization''"
  "lower_str ''host'' = ''host''"
  by (code_simp+)

lemma keys_dict_of_pairs: "fst ` set (dict_of_pairs kvs) = fst ` set kvs"
proof -
  have "fst ` set (foldl (\<lambda>d kv. AList.update (fst kv) (snd kv) d) d kvs) = fst ` set d \<union> fst ` set kvs"
    for d :: "(string \<times> 'a) list"
    by (induction kvs arbitrary: d) (auto simp: AList.dom_update)
  from this [of "[]"] show ?thesis by (simp add: dict_of_pairs_def)
qed

lemma distinct_dict_of_pairs: "distinct (map fst (dict_of_pairs kvs))"
proof -
  have "distinct (map fst d) \<Longrightarrow> distinct (map fst (foldl (\<lambda>d kv. AList.update (fst kv) (snd kv) d) d kvs))"
    for d :: "(string \<times> 'a) list"
    by (induction kvs arbitrary: d) (auto intro: AList.distinct_update)
  from this [of "[]"] show ?thesis by (simp add: dict_of_pairs_def)
qed

lemma map_of_dict_of_pairs_distinct:
  "distinct (map fst kvs) \<Longrightarrow> map_of (dict_of_pairs kvs) = map_of kvs"
  by (simp add: dict_of_pairs_distinct)

lemma forwarded_keys:
  "fst ` set (forwarded_headers req user) \<subseteq>
     fst ` set (rq_headers req) \<union> {''x-user-id'', ''x-username'', ''x-user-role''}"
  by (auto simp: forwarded_headers_def Let_def AList.dom_update keys_dict_of_pairs
        split: option.splits)

lemma forwarded_distinct: "distinct (map fst (forwarded_headers req user))"
  by (auto simp: forwarded_headers_def Let_def distinct_dict_of_pairs
        intro!: AList.distinct_update split: option.splits)

text \<open>
  C27: For an authenticated request, every forwarded header that is x-user-id, x-username or
  x-user-role carries the identity taken from the token, whatever the client sent under those
  names.
\<close>

theorem forwarded_identity_is_verified:
  assumes "\<forall>kv \<in> set (rq_headers req). lower_str (fst kv) = fst kv"
    and "kv \<in> set (forwarded_headers req (Some u))"
  shows "(lower_str (fst kv) = ''x-user-id'' \<longrightarrow> snd kv = int_str (cu_user_id u)) \<and>
         (lower_str (fst kv) = ''x-username'' \<longrightarrow> snd kv = cu_username u) \<and>
         (lower_str (fst kv) = ''x-user-role'' \<longrightarrow> snd kv = cu_role u)"
proof -
  let ?h = "forwarded_headers req (Some u)"
  have "fst kv \<in> fst ` set ?h" using assms(2) by simp
  then have "lower_str (fst kv) = fst kv"
    using forwarded_keys [of req "Some u"] assms(1) by fastforce
  moreover have "map_of ?h (fst kv) = Some (snd kv)"
    using assms(2) forwarded_distinct by (metis map_of_eq_Some_iff prod.collapse)
  ultimately show ?thesis
    by (auto simp: forwarded_headers_def Let_def map_of_update_eq split: if_splits)
qed

text \<open>
  C29: A request for the caller's coupons without an Authorization header is forwarded with the
  x-user-id header the client chose.
\<close>

theorem unauthenticated_identity_headers_pass_through:
  assumes "header_get (rq_headers req) ''authorization'' = None"
    and "rq_method req = ''GET''"
    and "rq_path req = ''/api/products/me/coupons''"
    and "distinct (map fst (rq_headers req))"
    and "header_get (rq_headers req) ''x-user-id'' = Some victim"
  shows "gateway_proxy E req st = (forward_request (ge_settings E) (gs_http_client st) req None, st) \<and>
         header_get (forwarded_headers req None) ''x-user-id'' = Some victim"
proof -
  have "enforce_role (rq_path req) None = Inr ()"
    using assms(3) by (simp add: enforce_role_def)
  moreover have "apply_rate_limit E req None s = (Inr (), s)" for s
    using assms(2,3) by (simp add: apply_rate_limit_def)
  ultimately have "gateway_proxy E req st = (forward_request (ge_settings E) (gs_http_client st) req None, st)"
    using assms(1)
    by (simp add: gateway_proxy_def gw_get_optional_same bind_prog_def on_redis_def gw_get_current_user_def)
  moreover have "map_of (filter (\<lambda>kv. lower_str (fst kv) \<noteq> ''host'') hs) ''x-user-id'' = map_of hs ''x-user-id''"
    for hs :: "(string \<times> string) list"
    by (induction hs) auto
  moreover have "distinct (map fst (filter (\<lambda>kv. lower_str (fst kv) \<noteq> ''host'') (rq_headers req)))"
    using assms(4) by (metis distinct_map_filter)
  ultimately show ?thesis
    using assms(5) by (simp add: forwarded_headers_def Let_def header_get_def dict_of_pairs_distinct)
qed


lemma gw_safe_execute_down:
  assumes "\<not> gw_redis_enabled (ge_settings E) \<or> (\<exists>e. fst (f (ge_redis E) s) = Inl e)"
  shows "fst (gw_safe_execute E f s) = None"
  using assms by (auto simp: gw_safe_execute_def gw_get_redis_client_def safe_execute_Some)

theorem gateway_fails_open:
  assumes "redis_server (ge_redis E) view clock up steady elapse"
    and "\<not> gw_redis_enabled (ge_settings E) \<or> \<not> up s"
  shows "fst (gw_is_token_blacklisted E token s) = False \<and> fst (apply_rate_limit E req user s) = Inr ()"
proof
  have "fst (gw_safe_execute E (\<lambda>client. redis_get client (gw_blacklist_key token)) s) = None"
    using assms(2) implements_down [OF redis_server.get_law [OF assms(1)]]
    by (intro gw_safe_execute_down) blast
  then show "fst (gw_is_token_blacklisted E token s) = False"
    by (simp add: gw_is_token_blacklisted_def case_prod_unfold)
  have "fst (gw_increment_rate_limit E k w s) = None" for k w
    unfolding gw_increment_rate_limit_def
    using assms(2) implements_down [OF redis_server.incr_ttl_law [OF assms(1)], of s k]
    by (intro gw_safe_execute_down) (auto simp: gw_increment_def case_prod_unfold)
  then show "fst (apply_rate_limit E req user s) = Inr ()"
    by (simp add: apply_rate_limit_def over_limit_def case_prod_unfold)
qed

definition bad_claims :: "'r gateway_env \<Rightarrow> string \<Rightarrow> bool" where
  "bad_claims E token =
     (case jwt_decode (ge_jwt E) (ge_now E) token (gw_jwt_secret (ge_settings E))
             [gw_jwt_algorithm (ge_settings E)] of
        None \<Rightarrow> False
      | Some payload \<Rightarrow>
          dict_get payload ''username'' = None \<or> dict_get payload ''role'' = None \<or>
          (\<nexists>i. bind_res (dict_item payload ''user_id'') py_int = Inr i))"

lemma forward_request_Inl:
  assumes "forward_request S hc req user = Inl e"
  shows "(\<exists>code detail. e = http_error code detail \<and> code \<in> {404, 502, 503, 504}) \<or>
         (\<exists>c up. hc = Some c \<and> c up = ClientError e)"
  using assms
  by (auto simp: forward_request_def bind_res_def get_http_client_def resolve_target_def Let_def
       split: sum.splits option.splits http_outcome.splits if_splits)


lemma gw_decode_token_Inl_code:
  assumes "gw_decode_token E token s = (Inl e, s')"
  shows "(\<exists>detail. e = http_error 401 detail) \<or> bad_claims E token"
  using assms
  by (auto simp: gw_decode_token_def bad_claims_def dict_item_def bind_res_def
        split: prod.splits bool.splits option.splits sum.splits)

lemma gw_get_current_user_Inl:
  assumes "gw_get_current_user E auth s = (Inl e, s')"
  shows "(\<exists>detail. e = http_error 401 detail) \<or>
         (\<exists>a. auth = Some a \<and> bad_claims E (snd (snd (partition_str (CHR '' '') a))))"
  using assms gw_decode_token_Inl_code [of E _ s e s']
  by (fastforce simp: gw_get_current_user_def bind_prog_def
        split: option.splits if_splits prod.splits sum.splits)

lemma apply_rate_limit_Inl:
  "apply_rate_limit E req user s = (Inl e, s') \<Longrightarrow> \<exists>detail. e = http_error 429 detail"
  by (auto simp: apply_rate_limit_def split: if_splits prod.splits)

lemma enforce_role_Inl: 
  "enforce_role path user = Inl e \<Longrightarrow> \<exists>code detail. e = http_error code detail \<and> code \<in> {401, 403}"
  by (auto simp: enforce_role_def split: if_splits option.splits)

text \<open>
  C28: When the gateway does not forward, it raises an HTTP error 401, 403, 404, 429, 502, 503
  or 504, except for a verified token whose claims lack a usable user id, user name or role, and
  for an exception of the HTTP client that is not one of its request errors.
\<close>

theorem gateway_proxy_error_codes:
  assumes "gateway_proxy E req st = (Inl e, st')"
  shows "(\<exists>code detail. e = http_error code detail \<and> code \<in> {401, 403, 404, 429, 502, 503, 504}) \<or>
         (\<exists>a. header_get (rq_headers req) ''authorization'' = Some a \<and>
              bad_claims E (snd (snd (partition_str (CHR '' '') a)))) \<or>
         (\<exists>c up. gs_http_client st = Some c \<and> c up = ClientError e)"
proof -
  let ?auth = "header_get (rq_headers req) ''authorization''"
  have "gateway_proxy E req st =
      bind_prog (on_redis (gw_get_current_user E ?auth)) (\<lambda>user.
      bind_prog (lift_res (enforce_role (rq_path req) user)) (\<lambda>_.
      bind_prog (on_redis (apply_rate_limit E req user)) (\<lambda>_.
       (\<lambda>st. (forward_request (ge_settings E) (gs_http_client st) req user, st))))) st"
    by (simp add: gateway_proxy_def gw_get_optional_same [abs_def])
  with assms show ?thesis
    by (auto simp: bind_prog_eq_Inl on_redis_eq
       dest!: gw_get_current_user_Inl enforce_role_Inl apply_rate_limit_Inl forward_request_Inl)
qed


section \<open>Rate limiting\<close>

locale gateway_redis =
  redis_server "ge_redis E" view clock up steady elapse
  for E :: "'r gateway_env" and view clock up steady elapse +
  assumes enabled: "gw_redis_enabled (ge_settings E)"
begin

lemma gw_client: "gw_get_redis_client E = Some (ge_redis E)"
  by (simp add: gw_get_redis_client_def enabled)

lemmas increment_defs = gw_increment_rate_limit_def gw_safe_execute_def gw_client safe_execute_def gw_increment_def

definition counted :: "'r \<Rightarrow> string \<Rightarrow> 'r \<Rightarrow> bool" where
  "counted s k s' \<longleftrightarrow>
     steady s' \<and> counter_ok (view s') k \<and> counter_level (view s') k = counter_level (view s) k + 1 \<and>
     (\<forall>k'. k' \<noteq> k \<longrightarrow> view s' k' = view s k') \<and> (\<exists>v x. view s' k = Some (v, Some x))"

text \<open>The \<^verbatim>\<open>INCR\<close>/\<^verbatim>\<open>TTL\<close> pipeline on a steady server.\<close>

lemma incr_ttl_steady:
  assumes "steady s" and "counter_ok (view s) k" and "counter_level (view s) k < int64_max"
  obtains s1 ttl where
    "redis_incr_ttl (ge_redis E) k s = (Inr (counter_level (view s) k + 1, ttl), s1)"
    "view s1 = snd (ks_incr k (clock s) (view s))" "clock s1 = clock s" "steady s1"
    "ttl = (case view s1 k of None \<Rightarrow> - 2 | Some (_, None) \<Rightarrow> - 1
            | Some (_, Some x) \<Rightarrow> (x - clock s + 500000) div second)"
proof -
  obtain r s1 where b: "redis_incr_ttl (ge_redis E) k s = (r, s1)" by fastforce
  note up = implements_up [OF incr_ttl_law steady_up [OF assms(1)], of k]
  have "steady s1" using implements_steady [OF incr_ttl_law assms(1), of k] b by simp
  then show ?thesis
    using that [of _ s1] up b ks_incr_counter(1) [OF assms(2,3), where t = "clock s"]
    by (auto simp: ks_incr_ttl_def ks_ttl_def split: prod.splits sum.splits)
qed

lemma expire_counted:
  assumes "steady s1" and "view s1 = snd (ks_incr k t (view s))" and "0 < w"
    and "counter_ok (view s) k" and "counter_level (view s) k < int64_max"
  shows "\<exists>b s'. redis_expire (ge_redis E) k w s1 = (Inr b, s') \<and> counted s k s'"
proof -
  obtain r s' where b: "redis_expire (ge_redis E) k w s1 = (r, s')" by fastforce
  note inc = ks_incr_counter [OF assms(4,5), where t = t]
  note ex = ks_expire_counter [OF assms(3), where t = "clock s1" and ks = "view s1" and k = k]
  note up = implements_up [OF expire_law steady_up [OF assms(1)], of k w]
  have v': "view s' = snd (ks_expire k w (clock s1) (view s1))" using up(2) b by simp
  have "\<exists>v x. view s' k = Some (v, Some x)"
    using inc(5) assms(2,3) by (auto simp: v' ks_expire_def)
  moreover have "steady s'" using implements_steady [OF expire_law assms(1)] b by (metis snd_conv)
  ultimately have "counted s k s'"
    using inc(2-4) ex(2-4) assms(2) by (auto simp: counted_def v')
  then show ?thesis using ex(1) up(1) b by auto
qed

lemma gw_increment_steady:
  assumes "steady s" and "counter_ok (view s) k" and "counter_level (view s) k < int64_max" and "0 < w"
  shows "\<exists>s'. gw_increment_rate_limit E k w s = (Some (counter_level (view s) k + 1), s') \<and> counted s k s'"
proof -
  obtain s1 ttl where b: "redis_incr_ttl (ge_redis E) k s = (Inr (counter_level (view s) k + 1, ttl), s1)"
    and v1: "view s1 = snd (ks_incr k (clock s) (view s))" and st1: "steady s1"
    and ttl: "ttl = (case view s1 k of None \<Rightarrow> - 2 | Some (_, None) \<Rightarrow> - 1
                     | Some (_, Some x) \<Rightarrow> (x - clock s + 500000) div second)"
    by (rule incr_ttl_steady [OF assms(1-3)])
  note inc = ks_incr_counter [OF assms(2,3), where t = "clock s"]
  show ?thesis
  proof (cases "ttl = - 1 \<or> ttl = - 2")
    case True
    then show ?thesis
      using expire_counted [OF st1 v1 assms(4,2,3)] b by (auto simp: increment_defs)
  next
    case False
    then have "\<exists>v x. view s1 k = Some (v, Some x)"
      using ttl inc(5) v1 by (auto split: option.splits)
    then have "counted s k s1"
      using inc(2-4) st1 v1 by (auto simp: counted_def)
    then show ?thesis using False b by (auto simp: increment_defs)
  qed
qed

lemma gw_increment_expiry:
  assumes "steady s" and "counter_ok (view s) k" and "counter_level (view s) k < int64_max" and "0 < w"
    and "\<And>v x. view s k = Some (v, Some x) \<Longrightarrow> clock s < x"
  shows "view (snd (gw_increment_rate_limit E k w s)) k =
           Some (RStr (int_str (counter_level (view s) k + 1)),
                 Some (case view s k of Some (_, Some x) \<Rightarrow> x | _ \<Rightarrow> clock s + w * second))"
proof -
  obtain s1 ttl where b: "redis_incr_ttl (ge_redis E) k s = (Inr (counter_level (view s) k + 1, ttl), s1)"
    and v1: "view s1 = snd (ks_incr k (clock s) (view s))" and c1: "clock s1 = clock s" and st1: "steady s1"
    and ttl: "ttl = (case view s1 k of None \<Rightarrow> - 2 | Some (_, None) \<Rightarrow> - 1
                     | Some (_, Some x) \<Rightarrow> (x - clock s + 500000) div second)"
    by (rule incr_ttl_steady [OF assms(1-3)])
  note ex = implements_up [OF expire_law steady_up [OF st1], of k w]
  have vk: "view s1 k = Some (RStr (int_str (counter_level (view s) k + 1)),
                              case view s k of Some (_, e) \<Rightarrow> e | None \<Rightarrow> None)"
    using v1 assms(2,3) int_str_one
    by (auto simp: ks_incr_def counter_ok_def counter_level_def split: option.splits rvalue.splits)
  show ?thesis
  proof (cases "\<exists>v x. view s k = Some (v, Some x)")
    case True
    then obtain v x where vx: "view s k = Some (v, Some x)" by blast
    have "0 \<le> (x - clock s + 500000) div second"
      using assms(5) [OF vx] by (intro div_int_pos_iff [THEN iffD2]) auto
    then have "0 \<le> ttl" using ttl vk vx by simp
    then show ?thesis using b vk vx by (auto simp: increment_defs)
  next
    case False
    then have "ttl = - 1" and e: "view s1 k = Some (RStr (int_str (counter_level (view s) k + 1)), None)"
      using vk ttl by (auto split: option.splits)
    moreover have "ks_expire k w (clock s1) (view s1) =
        (Inr True, (view s1)(k \<mapsto> (RStr (int_str (counter_level (view s) k + 1)), Some (clock s + w * second))))"
      using e assms(4) c1 by (simp add: ks_expire_def)
    ultimately show ?thesis using b ex(1,2) False
      by (auto simp: increment_defs split: option.splits prod.splits)
  qed
qed

sublocale counter: window_counter "gw_increment_rate_limit E" "\<lambda>s. counter_level (view s)"
  "\<lambda>s k. steady s \<and> counter_ok (view s) k"
proof (unfold_locales, goal_cases)
  case (1 s k w)
  then show ?case using gw_increment_steady [of s k w] by auto
next
  case (2 s k w)
  then show ?case using gw_increment_steady [of s k w] by (auto simp: counted_def)
next
  case (3 s k w)
  then show ?case using gw_increment_steady [of s k w] by (auto simp: counted_def)
next
  case (4 s k w k')
  then show ?case using gw_increment_steady [of s k w] by (auto simp: counted_def counter_level_def)
qed

text \<open>A request limited on one key: the outcomes of \<open>n\<close> calls that start a window.\<close>

lemma limited_window:
  assumes "steady s" and "view s k = None" and "0 < w" and "0 \<le> mx" and "int n \<le> int64_max"
  shows "fst (repeat_prog n (\<lambda>s. case gw_increment_rate_limit E k w s of
                (c, s') \<Rightarrow> (if over_limit mx c then Inl e else Inr (), s')) s) =
           map (\<lambda>i. if int i < mx then Inr () else Inl e) [0..<n]"
proof -
  have "steady s \<and> counter_ok (view s) k" and "counter_level (view s) k = 0"
    using assms(1,2) by (auto simp: counter_ok_def counter_level_def)
  then have "map (over_limit mx) (fst (bump_times (gw_increment_rate_limit E) k w n s)) = map (\<lambda>i. mx \<le> int i) [0..<n]"
    using counter.over_limit_in_window assms(3-5) by blast
  then have "map (\<lambda>b. if b then Inl e else Inr ()) (map (over_limit mx) (fst (bump_times (gw_increment_rate_limit E) k w n s))) =
      map (\<lambda>b. if b then Inl e else Inr ()) (map (\<lambda>i. mx \<le> int i) [0..<n])"
    by simp
  then have "map (\<lambda>c. if over_limit mx c then Inl e else Inr ()) (fst (bump_times (gw_increment_rate_limit E) k w n s)) =
      map (\<lambda>i. if int i < mx then Inr () else Inl e) [0..<n]"
    by (simp add: comp_def not_less flip: not_le if_not_P cong: if_cong)
  then show ?thesis
    by (subst repeat_bump [where f = "\<lambda>c. if over_limit mx c then Inl e else Inr ()"])
      (simp add: case_prod_unfold)
qed

end

text \<open>
  C14: With a reachable Redis and no open window for the client address, of n login requests in
  a row exactly the first login_rate_limit_max_requests pass and all later ones are answered
  429.
\<close>

theorem login_attempts_limited:
  assumes "gateway_redis E view clock up steady elapse"
    and "steady s" and "view s (login_rate_key req) = None"
    and "rq_method req = ''POST''" and "rq_path req = ''/api/auth/login''"
    and "0 < gw_login_rate_limit_window_seconds (ge_settings E)"
    and "0 \<le> gw_login_rate_limit_max_requests (ge_settings E)" and "int n \<le> int64_max"
  shows "fst (repeat_prog n (apply_rate_limit E req user) s) =
           map (\<lambda>i. if int i < gw_login_rate_limit_max_requests (ge_settings E) then Inr ()
                    else Inl (http_error 429 ''Too many login attempts. Please try again later.'')) [0..<n]"
proof -
  have "apply_rate_limit E req user =
      (\<lambda>s. case gw_increment_rate_limit E (login_rate_key req)
              (gw_login_rate_limit_window_seconds (ge_settings E)) s of
             (c, s') \<Rightarrow> (if over_limit (gw_login_rate_limit_max_requests (ge_settings E)) c
                         then Inl (http_error 429 ''Too many login attempts. Please try again later.'')
                         else Inr (), s'))"
    by (rule ext) (simp add: apply_rate_limit_def assms(4,5))
  then show ?thesis
    using gateway_redis.limited_window [OF assms(1-3,6-8)] by (simp only:)
qed

interpretation ref_gw: gateway_redis ref_gateway_env rr_keys rr_clock rr_up rr_steady rr_elapse
proof (intro gateway_redis.intro gateway_redis_axioms.intro)
  show "redis_server (ge_redis ref_gateway_env) rr_keys rr_clock rr_up rr_steady rr_elapse"
    by (simp add: ref_gateway_env_def ref.redis_server_axioms)
qed (simp add: ref_gateway_env_def gateway_default_settings_def)

theorem login_attempts_limited_witness:
  "fst (repeat_prog 12 (apply_rate_limit ref_gateway_env
      \<lparr>rq_method = ''POST'', rq_path = ''/api/auth/login'', rq_client = Some ''10.0.0.9'', rq_headers = [],
       rq_query = [], rq_body = []\<rparr> None) fresh_redis) =
     replicate 10 (Inr ()) @
     replicate 2 (Inl (http_error 429 ''Too many login attempts. Please try again later.''))"
proof -
  let ?req = "\<lparr>rq_method = ''POST'', rq_path = ''/api/auth/login'', rq_client = Some ''10.0.0.9'', rq_headers = [],
       rq_query = [], rq_body = []\<rparr> :: http_request"
  have "fst (repeat_prog 12 (apply_rate_limit ref_gateway_env ?req None) fresh_redis) =
      map (\<lambda>i. if int i < gw_login_rate_limit_max_requests (ge_settings ref_gateway_env) then Inr ()
               else Inl (http_error 429 ''Too many login attempts. Please try again later.'')) [0..<12]"
    by (rule login_attempts_limited [OF ref_gw.gateway_redis_axioms])
      (simp_all add: fresh_redis_def rr_steady_def ref_gateway_env_def gateway_default_settings_def)
  also have "[0..<12] = [0, 1, 2, 3, 4, 5, 6, 7, 8, 9, 10, 11::nat]" by (simp add: upt_rec)
  finally show ?thesis
    by (simp add: ref_gateway_env_def gateway_default_settings_def numeral_eq_Suc)
qed


theorem gateway_counter_always_expires:
  assumes "gateway_redis E view clock up steady elapse"
    and "steady s" and "counter_ok (view s) k" and "counter_level (view s) k < int64_max" and "0 < w"
    and "\<And>v x. view s k = Some (v, Some x) \<Longrightarrow> clock s < x"
  shows "view (snd (gw_increment_rate_limit E k w s)) k =
           Some (RStr (int_str (counter_level (view s) k + 1)),
                 Some (case view s k of Some (_, Some x) \<Rightarrow> x | _ \<Rightarrow> clock s + w * second))"
  by (rule gateway_redis.gw_increment_expiry [OF assms(1-5)]) (rule assms(6))

section \<open>Witnesses\<close>

lemma fresh_not_blacklisted [simp]: "gw_is_token_blacklisted ref_gateway_env token fresh_redis = (False, fresh_redis)"
  by (simp add: gw_is_token_blacklisted_def gw_safe_execute_def gw_get_redis_client_def ref_gateway_env_def
      gateway_default_settings_def safe_execute_def ref_client_def rr_run_def rr_up_def fresh_redis_def ks_get_def)

lemma admin_claims_json: "jwt_claims admin_claims = admin_claims" "json_ok (PDict admin_claims)"
  by (simp add: jwt_claims_def admin_claims_def, code_simp)

lemma admin_token_decodes:
  "jwt_decode ref_jwt now admin_token ''change-me-in-env'' [''HS256''] = Some admin_claims"
proof -
  have "jwt_fresh now admin_claims" by (simp add: jwt_fresh_def admin_claims_def dict_get_def)
  then show ?thesis
    using ref_jwt.decode_encode [of "''HS256''" "[''HS256'']" admin_claims now "''change-me-in-env''"]
    by (simp add: admin_token_def admin_claims_json del: json_ok.simps)
qed

lemma admin_token_user:
  "gw_decode_token ref_gateway_env admin_token fresh_redis =
     (Inr \<lparr>cu_user_id = 1, cu_username = ''root'', cu_role = ''ADMIN''\<rparr>, fresh_redis)"
  by (simp add: gw_decode_token_def)
    (simp add: ref_gateway_env_def gateway_default_settings_def admin_token_decodes, 
     simp add: admin_claims_def dict_item_def dict_get_def)

lemma admin_token_nonempty: "admin_token \<noteq> []"
proof
  assume "admin_token = []"
  moreover have "jwt_decode ref_jwt 0 [] ''change-me-in-env'' [''HS256''] = None" by code_simp
  ultimately show False using admin_token_decodes [of 0] by simp
qed

lemma lower_bearer: "lower_str ''Bearer'' = ''bearer''" by code_simp

lemma admin_authorization_user:
  "gw_get_current_user ref_gateway_env (Some admin_authorization) fresh_redis =
     (Inr (Some \<lparr>cu_user_id = 1, cu_username = ''root'', cu_role = ''ADMIN''\<rparr>), fresh_redis)"
  using admin_token_user admin_token_nonempty lower_bearer
  by (simp add: gw_get_current_user_def partition_str_def admin_authorization_def)

lemma admin_request_passes:
  "\<exists>resp st'. gateway_proxy ref_gateway_env admin_request fresh_gateway = (Inr resp, st')"
proof -
  have "header_get (rq_headers admin_request) ''authorization'' = Some admin_authorization"
    by (simp add: admin_request_def plain_request_def header_get_def)
  then show ?thesis
    by (simp add: gateway_proxy_def gw_get_optional_same bind_prog_def on_redis_def fresh_gateway_def admin_authorization_user)
     (simp add: admin_request_def plain_request_def enforce_role_def apply_rate_limit_def bind_prog_def on_redis_def
        forward_request_def resolve_target_def get_http_client_def ok_client_def)
qed

theorem gateway_admin_witness:
  "\<exists>a scheme sep token payload role.
     header_get (rq_headers admin_request) ''authorization'' = Some a \<and>
     partition_str (CHR '' '') a = (scheme, sep, token) \<and> lower_str scheme = ''bearer'' \<and>
     jwt_decode (ge_jwt ref_gateway_env) (ge_now ref_gateway_env) token (gw_jwt_secret (ge_settings ref_gateway_env))
       [gw_jwt_algorithm (ge_settings ref_gateway_env)] = Some payload \<and>
     dict_get payload ''role'' = Some role \<and> py_str (ge_repr ref_gateway_env) role = ''ADMIN'' \<and>
     fst (gw_is_token_blacklisted ref_gateway_env token (gs_redis fresh_gateway)) = False"
proof -
  have "contains_str ''/api/admin/'' (rq_path admin_request)"
    by (simp add: admin_request_def plain_request_def)
  then show ?thesis
    using admin_request_passes gateway_admin_needs_verified_admin by blast
qed

theorem resolve_target_confined_witness:
  "\<exists>base rest. ''/api/orders/7'' = ''/api'' @ rest \<and> ''http://localhost:8080/orders/7'' = base @ rest \<and>
     base \<in> {gw_user_service_url gateway_default_settings, gw_product_service_url gateway_default_settings,
             gw_order_service_url gateway_default_settings} \<and>
     (\<exists>p \<in> {''/auth'', ''/users'', ''/admin/users'', ''/products'', ''/admin/products'',
            ''/orders'', ''/admin/orders''}. startswith rest p) \<and>
     \<not> startswith rest ''/internal''"
  by (rule resolve_target_confined) (simp add: resolve_target_def gateway_default_settings_def)

theorem forwarded_identity_witness:
  "hd (forwarded_headers (plain_request ''GET'' ''/api/orders'' [(''x-user-id'', ''1'')])
         (Some \<lparr>cu_user_id = 7, cu_username = ''bob'', cu_role = ''USER''\<rparr>)) = (''x-user-id'', int_str 7)"
proof -
  let ?req = "plain_request ''GET'' ''/api/orders'' [(''x-user-id'', ''1'')]"
  let ?u = "\<lparr>cu_user_id = 7, cu_username = ''bob'', cu_role = ''USER''\<rparr>"
  let ?kv = "hd (forwarded_headers ?req (Some ?u))"
  have f: "fst ?kv = ''x-user-id''" and "?kv \<in> set (forwarded_headers ?req (Some ?u))"
    by (simp_all add: forwarded_headers_def plain_request_def Let_def dict_of_pairs_def)
  moreover have "\<forall>kv \<in> set (rq_headers ?req). lower_str (fst kv) = fst kv"
    by (simp add: plain_request_def)
  ultimately have "snd ?kv = int_str 7"
    using forwarded_identity_is_verified [of ?req ?kv ?u] by simp
  with f show ?thesis by (metis prod.collapse)
qed

theorem unauthenticated_identity_witness:
  "header_get (forwarded_headers (plain_request ''GET'' ''/api/products/me/coupons'' [(''x-user-id'', ''1'')]) None)
     ''x-user-id'' = Some ''1''"
  using unauthenticated_identity_headers_pass_through
    [of "plain_request ''GET'' ''/api/products/me/coupons'' [(''x-user-id'', ''1'')]" "''1''" ref_gateway_env fresh_gateway]
  by (simp add: plain_request_def header_get_def)

theorem gateway_fails_open_witness:
  "fst (gw_is_token_blacklisted ref_gateway_env ''t'' (fresh_redis\<lparr>rr_faults := [False]\<rparr>)) = False \<and>
   fst (apply_rate_limit ref_gateway_env (plain_request ''POST'' ''/api/orders'' []) None
          (fresh_redis\<lparr>rr_faults := [False]\<rparr>)) = Inr ()"
  by (rule gateway_fails_open [OF ref_gw.redis_server_axioms]) (simp add: rr_up_def fresh_redis_def)

theorem gateway_proxy_error_codes_witness:
  "\<exists>e st'. gateway_proxy ref_gateway_env (plain_request ''GET'' ''/api/internal/products'' []) fresh_gateway = (Inl e, st') \<and>
     e = http_error 404 ''Route not found'' \<and>
     (\<exists>code detail. e = http_error code detail \<and> code \<in> {401, 403, 404, 429, 502, 503, 504})"
proof -
  let ?req = "plain_request ''GET'' ''/api/internal/products'' []"
  have run: "gateway_proxy ref_gateway_env ?req fresh_gateway = (Inl (http_error 404 ''Route not found''), fresh_gateway)"
    by (simp add: gateway_proxy_def gw_get_optional_same bind_prog_def on_redis_def gw_get_current_user_def
        plain_request_def header_get_def enforce_role_def apply_rate_limit_def forward_request_def resolve_target_def)
  have "\<exists>code detail. http_error 404 ''Route not found'' = http_error code detail \<and> code \<in> {401, 403, 404, 429, 502, 503, 504}"
    using gateway_proxy_error_codes [OF run] by (simp add: plain_request_def header_get_def fresh_gateway_def ok_client_def)
  with run show ?thesis by blast
qed

theorem gateway_counter_always_expires_witness:
  "rr_keys (snd (gw_increment_rate_limit ref_gateway_env ''k'' 60
      (fresh_redis\<lparr>rr_keys := [''k'' \<mapsto> (RStr ''1'', None)]\<rparr>))) ''k'' = Some (RStr (int_str 2), Some (60 * second))"
proof -
  let ?s = "fresh_redis\<lparr>rr_keys := [''k'' \<mapsto> (RStr ''1'', None)]\<rparr>"
  have "rr_steady ?s" "counter_ok (rr_keys ?s) ''k''" "counter_level (rr_keys ?s) ''k'' = 1"
    by (simp_all add: fresh_redis_def rr_steady_def counter_ok_def counter_level_def)
  with gateway_counter_always_expires [OF ref_gw.gateway_redis_axioms, of ?s "''k''" 60]
  show ?thesis by (simp add: fresh_redis_def)
qed

end
