(* ===== verification/User_Service.thy ===== *)
theory User_Service
  imports Redis_Spec Sql_Spec Auth_Libs Py_Sha256
begin

text \<open>
  The user service (\<^verbatim>\<open>services/user-service/app\<close>): its settings, the mapped classes
  (\<^verbatim>\<open>models\<close>), the request and response schemas, the token blacklist (\<^verbatim>\<open>core/cache.py\<close>),
  tokens and claims (\<^verbatim>\<open>core/security.py\<close>), the operations of \<^verbatim>\<open>services/auth_service.py\<close>
  and the endpoints of \<^verbatim>\<open>api/routes.py\<close>.

  Parameters: the Redis client, the SQLAlchemy session and the database's text comparison
  (its collation), PyJWT, passlib, pydantic's e-mail validator (which returns the normalised
  address), the current time in microseconds, the next \<^verbatim>\<open>uuid4\<close> and the next salt.
\<close>

section \<open>Settings, models and schemas\<close>

record user_settings =
  us_app_name :: string
  us_db_host :: string
  us_db_port :: int
  us_db_name :: string
  us_db_user :: string
  us_db_password :: string
  us_jwt_secret :: string
  us_jwt_algorithm :: string
  us_jwt_expire_minutes :: int
  us_redis_enabled :: bool
  us_redis_host :: string
  us_redis_port :: int
  us_redis_db :: int
  us_redis_password :: "string option"

definition user_default_settings :: user_settings where
  "user_default_settings =
     \<lparr>us_app_name = ''user-service'',
      us_db_host = ''localhost'',
      us_db_port = 3306,
      us_db_name = ''h_user_db'',
      us_db_user = ''app'',
      us_db_password = ''app_pass'',
      us_jwt_secret = ''change-me-in-env'',
      us_jwt_algorithm = ''HS256'',
      us_jwt_expire_minutes = 120,
      us_redis_enabled = True,
      us_redis_host = ''localhost'',
      us_redis_port = 6379,
      us_redis_db = 0,
      us_redis_password = None\<rparr>"

definition us_database_url :: "user_settings \<Rightarrow> string" where
  "us_database_url S =
     ''mysql+pymysql://'' @ us_db_user S @ '':'' @ us_db_password S @
     ''@'' @ us_db_host S @ '':'' @ int_str (us_db_port S) @ ''/'' @ us_db_name S"

text \<open>The columns \<^verbatim>\<open>create_time\<close> and \<^verbatim>\<open>update_time\<close> are written by MySQL and never read.\<close>

record user =
  u_id :: int
  u_userno :: string
  u_username :: string
  u_password :: string
  u_nickname :: "string option"
  u_phone :: "string option"
  u_email :: "string option"
  u_role :: string
  u_login_enabled :: int
  u_version :: int

record system_config =
  sc_config_key :: string
  sc_config_value :: string

datatype user_entity = UserRow user | ConfigRow system_config

record login_request =
  lr_username :: string
  lr_password :: string

record login_response =
  lp_access_token :: string
  lp_token_type :: string
  lp_expires_in :: int
  lp_user_id :: int
  lp_username :: string
  lp_role :: string

record user_profile_response =
  up_id :: int
  up_userno :: string
  up_username :: string
  up_nickname :: "string option"
  up_phone :: "string option"
  up_email :: "string option"
  up_role :: string

record update_profile_request =
  pr_nickname :: "string option"
  pr_phone :: "string option"
  pr_email :: "string option"

record change_password_request =
  cp_old_password :: string
  cp_new_password :: string

record login_policy_request =
  lq_user_login_enabled :: bool

record login_policy_response =
  ls_user_login_enabled :: bool

record admin_user_list_item = user_profile_response +
  ai_login_enabled :: bool

record admin_user_page_response =
  ap_page :: int
  ap_size :: int
  ap_total :: int
  ap_items :: "admin_user_list_item list"

record user_login_flag =
  uf_user_id :: int
  uf_user_login_enabled :: bool

text \<open>\<^verbatim>\<open>ApiResponse[T]\<close> of \<^verbatim>\<open>schemas/common.py\<close>; the services never set the trace id.\<close>

record 'a api_response =
  ar_code :: int
  ar_message :: string
  ar_data :: "'a option"
  ar_trace_id :: string
  ar_timestamp :: int

definition api_data :: "int \<Rightarrow> 'a \<Rightarrow> 'a api_response" where
  "api_data now x =
     \<lparr>ar_code = 0, ar_message = ''success'', ar_data = Some x, ar_trace_id = ''-'', ar_timestamp = now\<rparr>"

definition api_message :: "int \<Rightarrow> string \<Rightarrow> unit api_response" where
  "api_message now m =
     \<lparr>ar_code = 0, ar_message = m, ar_data = None, ar_trace_id = ''-'', ar_timestamp = now\<rparr>"

record ('r, 'd) user_env =
  ue_settings :: user_settings
  ue_redis :: "'r redis"
  ue_db :: "('d, user_entity) sql"
  ue_text_eq :: "string \<Rightarrow> string \<Rightarrow> bool"
  ue_jwt :: jwt_lib
  ue_passlib :: passlib
  ue_email :: "string \<Rightarrow> string option"
  ue_now :: int
  ue_uuid :: string
  ue_salt :: string

text \<open>Pydantic's length constraints on the request bodies.\<close>

definition length_between :: "nat \<Rightarrow> nat \<Rightarrow> string \<Rightarrow> bool" where
  "length_between lo hi s = (lo \<le> length s \<and> length s \<le> hi)"

definition login_request_ok :: "login_request \<Rightarrow> bool" where
  "login_request_ok p =
     (length_between 3 50 (lr_username p) \<and> length_between 6 50 (lr_password p))"

definition change_password_request_ok :: "change_password_request \<Rightarrow> bool" where
  "change_password_request_ok p =
     (length_between 6 50 (cp_old_password p) \<and> length_between 6 50 (cp_new_password p))"

definition validate_update_profile ::
  "('r, 'd) user_env \<Rightarrow> update_profile_request \<Rightarrow> update_profile_request res" where
  "validate_update_profile E p =
     (if pred_option (\<lambda>s. length s \<le> 50) (pr_nickname p) \<and>
         pred_option (\<lambda>s. length s \<le> 20) (pr_phone p)
      then (case pr_email p of
              None \<Rightarrow> Inr p
            | Some a \<Rightarrow>
                (case ue_email E a of
                   None \<Rightarrow> Inl RequestValidationError
                 | Some a' \<Rightarrow> Inr (p\<lparr>pr_email := Some a'\<rparr>)))
      else Inl RequestValidationError)"

definition ensure :: "bool \<Rightarrow> py_exc \<Rightarrow> unit res" where
  "ensure b e = (if b then Inr () else Inl e)"

section \<open>\<open>core/cache.py\<close>\<close>

definition us_blacklist_key :: "string \<Rightarrow> string" where
  "us_blacklist_key token = ''user-service:blacklist:'' @ sha256_hexdigest token"

definition us_get_redis_client :: "('r, 'd) user_env \<Rightarrow> 'r redis option" where
  "us_get_redis_client E = (if \<not> us_redis_enabled (ue_settings E) then None else Some (ue_redis E))"

definition us_safe_execute ::
  "('r, 'd) user_env \<Rightarrow> ('r redis \<Rightarrow> ('r, 'a option) rcmd) \<Rightarrow> 'r \<Rightarrow> 'a option \<times> 'r" where
  "us_safe_execute E func = safe_execute (us_get_redis_client E) func"

text \<open>\<^verbatim>\<open>max(1, int(exp_timestamp - time.time()))\<close>.\<close>

definition blacklist_ttl :: "int \<Rightarrow> int \<Rightarrow> int" where
  "blacklist_ttl now exp_timestamp = max 1 (trunc_div (exp_timestamp * second - now) second)"

definition blacklist_token :: "('r, 'd) user_env \<Rightarrow> string \<Rightarrow> int \<Rightarrow> ('r, unit) prog" where
  "blacklist_token E token exp_timestamp s =
     (let ttl_seconds = blacklist_ttl (ue_now E) exp_timestamp;
          key = us_blacklist_key token
      in (Inr (), snd (us_safe_execute E (\<lambda>client. some_reply (redis_setex client key ttl_seconds ''1'')) s)))"

definition us_is_token_blacklisted :: "('r, 'd) user_env \<Rightarrow> string \<Rightarrow> ('r, bool) prog" where
  "us_is_token_blacklisted E token s =
     (case us_safe_execute E (\<lambda>client. redis_get client (us_blacklist_key token)) s of
        (value, s') \<Rightarrow> (Inr (value \<noteq> None), s'))"

section \<open>\<open>core/security.py\<close>\<close>

definition verify_password :: "('r, 'd) user_env \<Rightarrow> string \<Rightarrow> string \<Rightarrow> bool res" where
  "verify_password E plain_password hashed_password = pw_verify (ue_passlib E) plain_password hashed_password"

definition hash_password :: "('r, 'd) user_env \<Rightarrow> string \<Rightarrow> string res" where
  "hash_password E password = pw_hash (ue_passlib E) (ue_salt E) password"

definition access_token_payload :: "('r, 'd) user_env \<Rightarrow> int \<Rightarrow> string \<Rightarrow> string \<Rightarrow> claims" where
  "access_token_payload E user_id username role =
     [(''user_id'', PInt user_id),
      (''username'', PStr username),
      (''role'', PStr role),
      (''exp'', PDatetime (ue_now E + us_jwt_expire_minutes (ue_settings E) * 60 * second)),
      (''jti'', PStr (ue_uuid E))]"

definition create_access_token :: "('r, 'd) user_env \<Rightarrow> int \<Rightarrow> string \<Rightarrow> string \<Rightarrow> string" where
  "create_access_token E user_id username role =
     jwt_encode (ue_jwt E) (access_token_payload E user_id username role)
       (us_jwt_secret (ue_settings E)) (us_jwt_algorithm (ue_settings E))"

definition extract_bearer_token :: "string option \<Rightarrow> string res" where
  "extract_bearer_token authorization =
     (case authorization of
        None \<Rightarrow> Inl (http_error 401 ''Missing bearer token'')
      | Some a \<Rightarrow>
          (if a = [] then Inl (http_error 401 ''Missing bearer token'')
           else (case partition_str (CHR '' '') a of
                   (scheme, _, token) \<Rightarrow>
                     (if lower_str scheme \<noteq> ''bearer'' \<or> token = []
                      then Inl (http_error 401 ''Invalid authorization header'')
                      else Inr token))))"

definition us_decode_token :: "('r, 'd) user_env \<Rightarrow> string \<Rightarrow> claims res" where
  "us_decode_token E token =
     (case jwt_decode (ue_jwt E) (ue_now E) token (us_jwt_secret (ue_settings E))
             [us_jwt_algorithm (ue_settings E)] of
        None \<Rightarrow> Inl (http_error 401 ''Invalid access token'')
      | Some payload \<Rightarrow> Inr payload)"

definition get_current_claims :: "('r, 'd) user_env \<Rightarrow> string option \<Rightarrow> ('r, claims) prog" where
  "get_current_claims E authorization =
     bind_prog (lift_res (extract_bearer_token authorization)) (\<lambda>token.
     bind_prog (us_is_token_blacklisted E token) (\<lambda>revoked.
       (if revoked then raise_prog (http_error 401 ''Access token has been revoked'')
        else lift_res (us_decode_token E token))))"

definition get_current_token_with_claims ::
  "('r, 'd) user_env \<Rightarrow> string option \<Rightarrow> ('r, string \<times> claims) prog" where
  "get_current_token_with_claims E authorization =
     bind_prog (lift_res (extract_bearer_token authorization)) (\<lambda>token.
     bind_prog (lift_res (us_decode_token E token)) (\<lambda>claims.
     bind_prog (us_is_token_blacklisted E token) (\<lambda>revoked.
       (if revoked then raise_prog (http_error 401 ''Access token has been revoked'')
        else return_prog (token, claims)))))"

text \<open>
  \<^verbatim>\<open>claims.get("exp")\<close> may be missing (\<^verbatim>\<open>int(None)\<close> raises a \<^verbatim>\<open>TypeError\<close>); a \<^verbatim>\<open>datetime\<close> gives its
  whole seconds.
\<close>

definition exp_timestamp_of :: "claims \<Rightarrow> int res" where
  "exp_timestamp_of claims =
     (case dict_get claims ''exp'' of
        None \<Rightarrow> py_int PNone
      | Some (PDatetime us) \<Rightarrow> Inr (trunc_div us second)
      | Some v \<Rightarrow> py_int v)"

definition revoke_token :: "('r, 'd) user_env \<Rightarrow> string \<Rightarrow> claims \<Rightarrow> ('r, unit) prog" where
  "revoke_token E token claims =
     bind_prog (lift_res (exp_timestamp_of claims)) (\<lambda>exp_timestamp.
       blacklist_token E token exp_timestamp)"

section \<open>\<open>services/auth_service.py\<close>\<close>

definition USER_LOGIN_ENABLED_KEY :: string where
  "USER_LOGIN_ENABLED_KEY = ''USER_LOGIN_ENABLED''"

text \<open>\<^verbatim>\<open>db.query(User).filter(P)\<close> and \<^verbatim>\<open>db.query(SystemConfig).filter(P)\<close>.\<close>

fun where_user :: "(user \<Rightarrow> bool) \<Rightarrow> user_entity \<Rightarrow> bool" where
  "where_user P (UserRow u) = P u"
| "where_user P (ConfigRow c) = False"

fun where_config :: "(system_config \<Rightarrow> bool) \<Rightarrow> user_entity \<Rightarrow> bool" where
  "where_config P (UserRow u) = False"
| "where_config P (ConfigRow c) = P c"

fun map_user :: "(user \<Rightarrow> user) \<Rightarrow> user_entity \<Rightarrow> user_entity" where
  "map_user f (UserRow u) = UserRow (f u)"
| "map_user f (ConfigRow c) = ConfigRow c"

fun map_config :: "(system_config \<Rightarrow> system_config) \<Rightarrow> user_entity \<Rightarrow> user_entity" where
  "map_config f (UserRow u) = UserRow u"
| "map_config f (ConfigRow c) = ConfigRow (f c)"

fun user_of :: "user_entity option \<Rightarrow> user option" where
  "user_of (Some (UserRow u)) = Some u"
| "user_of _ = None"

fun config_of :: "user_entity option \<Rightarrow> system_config option" where
  "config_of (Some (ConfigRow c)) = Some c"
| "config_of _ = None"

fun entity_id :: "user_entity \<Rightarrow> int" where
  "entity_id (UserRow u) = u_id u"
| "entity_id (ConfigRow c) = 0"

definition find_user :: "('r, 'd) user_env \<Rightarrow> (user \<Rightarrow> bool) \<Rightarrow> ('d, user option) prog" where
  "find_user E P =
     bind_prog (one_or_none (ue_db E) (where_user P)) (\<lambda>e. return_prog (user_of e))"

definition find_config :: "('r, 'd) user_env \<Rightarrow> string \<Rightarrow> ('d, system_config option) prog" where
  "find_config E key =
     bind_prog (one_or_none (ue_db E) (where_config (\<lambda>c. ue_text_eq E (sc_config_key c) key)))
       (\<lambda>e. return_prog (config_of e))"

definition get_user_login_enabled :: "('r, 'd) user_env \<Rightarrow> ('d, bool) prog" where
  "get_user_login_enabled E =
     bind_prog (find_config E USER_LOGIN_ENABLED_KEY) (\<lambda>config.
       (case config of
          None \<Rightarrow> return_prog True
        | Some c \<Rightarrow> return_prog (sc_config_value c = ''1'')))"

definition login_response_for :: "('r, 'd) user_env \<Rightarrow> user \<Rightarrow> login_response" where
  "login_response_for E user =
     \<lparr>lp_access_token = create_access_token E (u_id user) (u_username user) (u_role user),
      lp_token_type = ''Bearer'',
      lp_expires_in = us_jwt_expire_minutes (ue_settings E) * 60,
      lp_user_id = u_id user,
      lp_username = u_username user,
      lp_role = u_role user\<rparr>"

definition login :: "('r, 'd) user_env \<Rightarrow> string \<Rightarrow> string \<Rightarrow> ('d, login_response) prog" where
  "login E username password =
     bind_prog (find_user E (\<lambda>u. ue_text_eq E (u_username u) username)) (\<lambda>found.
       (case found of
          None \<Rightarrow> raise_prog (http_error 401 ''Invalid username or password'')
        | Some user \<Rightarrow>
            bind_prog (lift_res (verify_password E password (u_password user))) (\<lambda>valid.
             if \<not> valid
             then raise_prog (http_error 401 ''Invalid username or password'')
             else
               bind_prog (if u_role user = ''USER''
                          then bind_prog (get_user_login_enabled E) (\<lambda>on. return_prog (\<not> on))
                          else return_prog False) (\<lambda>blocked.
                 (if blocked then raise_prog (http_error 403 ''User login is currently disabled'')
                  else if u_login_enabled user = 0
                  then raise_prog (http_error 403 ''Your account is disabled'')
                  else return_prog (login_response_for E user))))))"

fun list_item :: "user_entity \<Rightarrow> admin_user_list_item list" where
  "list_item (UserRow user) =
     [\<lparr>up_id = u_id user, up_userno = u_userno user, up_username = u_username user,
       up_nickname = u_nickname user, up_phone = u_phone user, up_email = u_email user,
       up_role = u_role user, ai_login_enabled = (u_login_enabled user \<noteq> 0)\<rparr>]"
| "list_item (ConfigRow c) = []"

definition list_users_by_admin :: "('r, 'd) user_env \<Rightarrow> int \<Rightarrow> int \<Rightarrow> ('d, admin_user_page_response) prog" where
  "list_users_by_admin E page0 size0 =
     (let page = max page0 1; sz = max (min size0 100) 1
      in bind_prog (sql_count (ue_db E) (where_user (\<lambda>_. True))) (\<lambda>total.
         bind_prog (sql_page (ue_db E) (where_user (\<lambda>_. True)) entity_id False ((page - 1) * sz) sz) (\<lambda>rows.
           return_prog \<lparr>ap_page = page, ap_size = sz, ap_total = total,
                        ap_items = concat (map list_item rows)\<rparr>)))"

definition flag_value :: "bool \<Rightarrow> string" where
  "flag_value enabled = (if enabled then ''1'' else ''0'')"

definition set_user_login_enabled :: "('r, 'd) user_env \<Rightarrow> bool \<Rightarrow> ('d, bool) prog" where
  "set_user_login_enabled E enabled =
     bind_prog (find_config E USER_LOGIN_ENABLED_KEY) (\<lambda>config.
     bind_prog
       (case config of
          Some c \<Rightarrow>
            sql_modify (ue_db E) (where_config (\<lambda>c'. sc_config_key c' = sc_config_key c))
              (map_config (\<lambda>c'. c'\<lparr>sc_config_value :=
                 set_col (sc_config_value c) (flag_value enabled) (sc_config_value c')\<rparr>))
        | None \<Rightarrow>
            sql_add (ue_db E) (\<lambda>_. ConfigRow
              \<lparr>sc_config_key = USER_LOGIN_ENABLED_KEY, sc_config_value = flag_value enabled\<rparr>)) (\<lambda>_.
     bind_prog (sql_commit (ue_db E)) (\<lambda>_.
       return_prog enabled)))"

definition get_user_by_id :: "('r, 'd) user_env \<Rightarrow> int \<Rightarrow> ('d, user) prog" where
  "get_user_by_id E user_id =
     bind_prog (find_user E (\<lambda>u. u_id u = user_id)) (\<lambda>user.
       (case user of
          None \<Rightarrow> raise_prog (http_error 404 ''User not found'')
        | Some u \<Rightarrow> return_prog u))"

text \<open>
  \<^verbatim>\<open>db.add(user)\<close>, \<^verbatim>\<open>db.commit()\<close> of a loaded user whose attributes were assigned (\<open>assign\<close>), and
  \<^verbatim>\<open>db.refresh(user)\<close>.
\<close>

definition save_user :: "('r, 'd) user_env \<Rightarrow> user \<Rightarrow> (user \<Rightarrow> user) \<Rightarrow> ('d, int list) prog" where
  "save_user E user assign =
     bind_prog (sql_modify (ue_db E) (where_user (\<lambda>u. u_id u = u_id user)) (map_user assign)) (\<lambda>_.
       sql_commit (ue_db E))"

definition refresh_user :: "('r, 'd) user_env \<Rightarrow> user \<Rightarrow> ('d, user) prog" where
  "refresh_user E user =
     bind_prog (refresh (ue_db E) (where_user (\<lambda>u. u_id u = u_id user))) (\<lambda>e.
       (case user_of (Some e) of
          None \<Rightarrow> raise_prog InvalidRequestError
        | Some u \<Rightarrow> return_prog u))"

definition set_user_login_enabled_by_admin :: "('r, 'd) user_env \<Rightarrow> int \<Rightarrow> bool \<Rightarrow> ('d, user) prog" where
  "set_user_login_enabled_by_admin E user_id enabled =
     bind_prog (get_user_by_id E user_id) (\<lambda>user.
       (if u_role user \<noteq> ''USER''
        then raise_prog (http_error 400 ''Only USER accounts can be enabled/disabled'')
        else
          bind_prog (save_user E user (\<lambda>u.
            u\<lparr>u_login_enabled := set_col (u_login_enabled user) (if enabled then 1 else 0) (u_login_enabled u),
              u_version := set_col (u_version user) (u_version user + 1) (u_version u)\<rparr>)) (\<lambda>_.
          refresh_user E user)))"

definition update_profile ::
  "('r, 'd) user_env \<Rightarrow> user \<Rightarrow> update_profile_request \<Rightarrow> ('d, user) prog" where
  "update_profile E user payload =
     bind_prog (save_user E user (\<lambda>u.
       u\<lparr>u_nickname := set_col (u_nickname user) (pr_nickname payload) (u_nickname u),
         u_phone := set_col (u_phone user) (pr_phone payload) (u_phone u),
         u_email := set_col (u_email user) (pr_email payload) (u_email u),
         u_version := set_col (u_version user) (u_version user + 1) (u_version u)\<rparr>)) (\<lambda>_.
     refresh_user E user)"

definition change_password :: "('r, 'd) user_env \<Rightarrow> user \<Rightarrow> string \<Rightarrow> string \<Rightarrow> ('d, unit) prog" where
  "change_password E user old_password new_password =
     bind_prog (lift_res (verify_password E old_password (u_password user))) (\<lambda>valid.
      if \<not> valid
      then raise_prog (http_error 400 ''Old password is incorrect'')
      else
        bind_prog (lift_res (hash_password E new_password)) (\<lambda>hashed.
        bind_prog (save_user E user (\<lambda>u.
          u\<lparr>u_password := set_col (u_password user) hashed (u_password u),
            u_version := set_col (u_version user) (u_version user + 1) (u_version u)\<rparr>)) (\<lambda>_.
        return_prog ())))"

definition logout :: "('r, 'd) user_env \<Rightarrow> string \<Rightarrow> claims \<Rightarrow> ('r, unit) prog" where
  "logout E token claims = revoke_token E token claims"

section \<open>\<open>api/routes.py\<close>\<close>

text \<open>
  An endpoint runs its dependencies in the order of its parameters, then the constraints on
  the body and the query, then its body. The conversion of JSON and of path and query strings
  to the parameter types is FastAPI's.
\<close>

type_synonym ('r, 'd, 'a) endpoint = "(('r, 'd) service_state, 'a api_response) prog"

definition us_health :: "(string \<times> string) list" where
  "us_health = [(''status'', ''UP''), (''service'', ''user-service'')]"

definition us_ready :: "(string \<times> string) list" where
  "us_ready = [(''status'', ''READY''), (''service'', ''user-service'')]"

definition us_live :: "(string \<times> string) list" where
  "us_live = [(''status'', ''LIVE''), (''service'', ''user-service'')]"

definition respond :: "('r, 'd) user_env \<Rightarrow> ('s, 'a) prog \<Rightarrow> ('s, 'a api_response) prog" where
  "respond E m = bind_prog m (\<lambda>x. return_prog (api_data (ue_now E) x))"

definition profile_of :: "user \<Rightarrow> user_profile_response" where
  "profile_of user =
     \<lparr>up_id = u_id user, up_userno = u_userno user, up_username = u_username user,
      up_nickname = u_nickname user, up_phone = u_phone user, up_email = u_email user,
      up_role = u_role user\<rparr>"

definition login_endpoint :: "('r, 'd) user_env \<Rightarrow> login_request \<Rightarrow> ('r, 'd, login_response) endpoint" where
  "login_endpoint E payload =
     bind_prog (lift_res (ensure (login_request_ok payload) RequestValidationError)) (\<lambda>_.
       respond E (with_db (get_db (ue_db E) (login E (lr_username payload) (lr_password payload)))))"

definition logout_endpoint :: "('r, 'd) user_env \<Rightarrow> string option \<Rightarrow> ('r, 'd, unit) endpoint" where
  "logout_endpoint E authorization =
     bind_prog (with_redis (get_current_token_with_claims E authorization)) (\<lambda>(token, claims).
     bind_prog (with_redis (logout E token claims)) (\<lambda>_.
       return_prog (api_message (ue_now E) ''signed out'')))"

text \<open>\<^verbatim>\<open>int(claims["user_id"])\<close>.\<close>

definition claimed_user_id :: "claims \<Rightarrow> int res" where
  "claimed_user_id claims = bind_res (dict_item claims ''user_id'') py_int"

definition me :: "('r, 'd) user_env \<Rightarrow> string option \<Rightarrow> ('r, 'd, user_profile_response) endpoint" where
  "me E authorization =
     bind_prog (with_redis (get_current_claims E authorization)) (\<lambda>claims.
       respond E (with_db (get_db (ue_db E)
         (bind_prog (lift_res (claimed_user_id claims)) (\<lambda>user_id.
          bind_prog (get_user_by_id E user_id) (\<lambda>user.
            return_prog (profile_of user)))))))"

definition update_me ::
  "('r, 'd) user_env \<Rightarrow> update_profile_request \<Rightarrow> string option \<Rightarrow> ('r, 'd, user_profile_response) endpoint" where
  "update_me E payload0 authorization =
     bind_prog (with_redis (get_current_claims E authorization)) (\<lambda>claims.
     bind_prog (lift_res (validate_update_profile E payload0)) (\<lambda>payload.
       respond E (with_db (get_db (ue_db E)
         (bind_prog (lift_res (claimed_user_id claims)) (\<lambda>user_id.
          bind_prog (get_user_by_id E user_id) (\<lambda>user.
          bind_prog (update_profile E user payload) (\<lambda>updated_user.
            return_prog (profile_of updated_user)))))))))"

definition change_my_password ::
  "('r, 'd) user_env \<Rightarrow> change_password_request \<Rightarrow> string option \<Rightarrow> ('r, 'd, unit) endpoint" where
  "change_my_password E payload authorization =
     bind_prog (with_redis (get_current_claims E authorization)) (\<lambda>claims.
     bind_prog (lift_res (ensure (change_password_request_ok payload) RequestValidationError)) (\<lambda>_.
     bind_prog (with_db (get_db (ue_db E)
         (bind_prog (lift_res (claimed_user_id claims)) (\<lambda>user_id.
          bind_prog (get_user_by_id E user_id) (\<lambda>user.
            change_password E user (cp_old_password payload) (cp_new_password payload)))))) (\<lambda>_.
       return_prog (api_message (ue_now E) ''password updated''))))"

definition require_admin_role :: "string option \<Rightarrow> unit res" where
  "require_admin_role x_user_role = ensure (x_user_role = Some ''ADMIN'') (http_error 403 ''Admin role required'')"

definition get_login_policy :: "('r, 'd) user_env \<Rightarrow> string option \<Rightarrow> ('r, 'd, login_policy_response) endpoint" where
  "get_login_policy E x_user_role =
     bind_prog (lift_res (require_admin_role x_user_role)) (\<lambda>_.
       respond E (with_db (get_db (ue_db E)
         (bind_prog (get_user_login_enabled E) (\<lambda>enabled.
            return_prog \<lparr>ls_user_login_enabled = enabled\<rparr>)))))"

definition update_login_policy ::
  "('r, 'd) user_env \<Rightarrow> login_policy_request \<Rightarrow> string option \<Rightarrow> ('r, 'd, login_policy_response) endpoint" where
  "update_login_policy E payload x_user_role =
     bind_prog (lift_res (require_admin_role x_user_role)) (\<lambda>_.
       respond E (with_db (get_db (ue_db E)
         (bind_prog (set_user_login_enabled E (lq_user_login_enabled payload)) (\<lambda>enabled.
            return_prog \<lparr>ls_user_login_enabled = enabled\<rparr>)))))"

definition get_user_by_admin ::
  "('r, 'd) user_env \<Rightarrow> int \<Rightarrow> string option \<Rightarrow> ('r, 'd, user_profile_response) endpoint" where
  "get_user_by_admin E user_id x_user_role =
     bind_prog (lift_res (require_admin_role x_user_role)) (\<lambda>_.
       respond E (with_db (get_db (ue_db E)
         (bind_prog (get_user_by_id E user_id) (\<lambda>user. return_prog (profile_of user))))))"

definition list_users_endpoint ::
  "('r, 'd) user_env \<Rightarrow> int \<Rightarrow> int \<Rightarrow> string option \<Rightarrow> ('r, 'd, admin_user_page_response) endpoint" where
  "list_users_endpoint E page sz x_user_role =
     bind_prog (lift_res (ensure (1 \<le> page \<and> 1 \<le> sz \<and> sz \<le> 100) RequestValidationError)) (\<lambda>_.
     bind_prog (lift_res (require_admin_role x_user_role)) (\<lambda>_.
       respond E (with_db (get_db (ue_db E) (list_users_by_admin E page sz)))))"

definition update_user_login_policy ::
  "('r, 'd) user_env \<Rightarrow> int \<Rightarrow> login_policy_request \<Rightarrow> string option \<Rightarrow> ('r, 'd, user_login_flag) endpoint" where
  "update_user_login_policy E user_id payload x_user_role =
     bind_prog (lift_res (require_admin_role x_user_role)) (\<lambda>_.
       respond E (with_db (get_db (ue_db E)
         (bind_prog (set_user_login_enabled_by_admin E user_id (lq_user_login_enabled payload)) (\<lambda>user.
            return_prog \<lparr>uf_user_id = u_id user, uf_user_login_enabled = (u_login_enabled user \<noteq> 0)\<rparr>)))))"

section \<open>The schema of the user database\<close>

text \<open>
  The tables \<^verbatim>\<open>t_user\<close> and \<^verbatim>\<open>t_system_config\<close> of \<^verbatim>\<open>infra/docker/mysql/init\<close>: primary keys, the
  unique keys on the user number and the user name (compared by the collation), column widths
  and integer ranges. MySQL stores these columns as they are.
\<close>

fun users_of :: "user_entity list \<Rightarrow> user list" where
  "users_of [] = []"
| "users_of (UserRow u # rows) = u # users_of rows"
| "users_of (ConfigRow c # rows) = users_of rows"

fun configs_of :: "user_entity list \<Rightarrow> system_config list" where
  "configs_of [] = []"
| "configs_of (UserRow u # rows) = configs_of rows"
| "configs_of (ConfigRow c # rows) = c # configs_of rows"

definition user_columns_ok :: "user \<Rightarrow> bool" where
  "user_columns_ok u =
     (length (u_userno u) \<le> 10 \<and> length (u_username u) \<le> 50 \<and> length (u_password u) \<le> 100 \<and>
      pred_option (\<lambda>s. length s \<le> 50) (u_nickname u) \<and> pred_option (\<lambda>s. length s \<le> 20) (u_phone u) \<and>
      pred_option (\<lambda>s. length s \<le> 100) (u_email u) \<and> length (u_role u) \<le> 20 \<and>
      - 128 \<le> u_login_enabled u \<and> u_login_enabled u \<le> 127 \<and>
      - 2147483648 \<le> u_version u \<and> u_version u \<le> 2147483647)"

definition config_columns_ok :: "system_config \<Rightarrow> bool" where
  "config_columns_ok c = (length (sc_config_key c) \<le> 100 \<and> length (sc_config_value c) \<le> 255)"

definition user_check :: "(string \<Rightarrow> string \<Rightarrow> bool) \<Rightarrow> user_entity list \<Rightarrow> py_exc option" where
  "user_check text_eq rows =
     (if \<not> list_all user_columns_ok (users_of rows) \<or> \<not> list_all config_columns_ok (configs_of rows)
      then Some DataError
      else if distinct (map u_id (users_of rows)) \<and>
              unique_by (\<lambda>a b. text_eq (u_username a) (u_username b)) (users_of rows) \<and>
              unique_by (\<lambda>a b. text_eq (u_userno a) (u_userno b)) (users_of rows) \<and>
              unique_by (\<lambda>a b. text_eq (sc_config_key a) (sc_config_key b)) (configs_of rows)
           then None else Some IntegrityError)"

lemma users_of_append [simp]: "users_of (a @ b) = users_of a @ users_of b"
  by (induction a rule: users_of.induct) auto

lemma configs_of_append [simp]: "configs_of (a @ b) = configs_of a @ configs_of b"
  by (induction a rule: users_of.induct) auto

lemma filter_where_user: "filter (where_user P) rows = map UserRow (filter P (users_of rows))"
  by (induction rows rule: users_of.induct) auto

lemma filter_where_config: "filter (where_config P) rows = map ConfigRow (filter P (configs_of rows))"
  by (induction rows rule: users_of.induct) auto

lemma users_of_set: "u \<in> set (users_of rows) \<longleftrightarrow> UserRow u \<in> set rows"
  by (induction rows rule: users_of.induct) auto

lemma configs_of_set: "c \<in> set (configs_of rows) \<longleftrightarrow> ConfigRow c \<in> set rows"
  by (induction rows rule: users_of.induct) auto

section \<open>The operations on a session and on its table\<close>

definition on_table ::
  "('r, 'd) user_env \<Rightarrow> (user_entity list \<Rightarrow> py_exc option) \<Rightarrow> (user_entity \<Rightarrow> user_entity) \<Rightarrow>
     ('r, user_entity table) user_env" where
  "on_table E check coerce =
     \<lparr>ue_settings = ue_settings E, ue_redis = ue_redis E, ue_db = table_sql check coerce,
      ue_text_eq = ue_text_eq E, ue_jwt = ue_jwt E, ue_passlib = ue_passlib E, ue_email = ue_email E,
      ue_now = ue_now E, ue_uuid = ue_uuid E, ue_salt = ue_salt E\<rparr>"

lemma on_table_simps [simp]:
  "ue_settings (on_table E check coerce) = ue_settings E" "ue_redis (on_table E check coerce) = ue_redis E"
  "ue_db (on_table E check coerce) = table_sql check coerce" "ue_text_eq (on_table E check coerce) = ue_text_eq E"
  "ue_jwt (on_table E check coerce) = ue_jwt E" "ue_passlib (on_table E check coerce) = ue_passlib E"
  "ue_email (on_table E check coerce) = ue_email E" "ue_now (on_table E check coerce) = ue_now E"
  "ue_uuid (on_table E check coerce) = ue_uuid E" "ue_salt (on_table E check coerce) = ue_salt E"
  by (simp_all add: on_table_def)

lemma on_table_pure [simp]:
  "verify_password (on_table E check coerce) = verify_password E"
  "hash_password (on_table E check coerce) = hash_password E"
  "login_response_for (on_table E check coerce) = login_response_for E"
  by (simp_all add: fun_eq_iff verify_password_def hash_password_def login_response_for_def
      create_access_token_def access_token_payload_def)

locale user_session =
  sql_session "ue_db E" view up steady check coerce
  for E :: "('r, 'd) user_env" and view up steady check coerce
begin

abbreviation T where
  "T \<equiv> on_table E check coerce"

lemma sim_find:
  "simulates steady view (find_user E P) (find_user T P)"
  "simulates steady view (find_config E k) (find_config T k)"
  unfolding find_user_def find_config_def on_table_simps
  by (intro simulates_intros)+

lemma sim_policy: "simulates steady view (get_user_login_enabled E) (get_user_login_enabled T)"
  unfolding get_user_login_enabled_def
  by (rule simulates_bind [OF sim_find(2)]) (simp add: simulates_pure split: option.split)

lemma sim_login: "simulates steady view (login E username password) (login T username password)"
  unfolding login_def on_table_simps on_table_pure
  by (rule simulates_bind [OF sim_find(1)])
    (auto split: option.split intro!: simulates_intros sim_policy)

lemma sim_set_policy: "simulates steady view (set_user_login_enabled E b) (set_user_login_enabled T b)"
  unfolding set_user_login_enabled_def on_table_simps
  by (rule simulates_bind [OF sim_find(2)])
    (auto split: option.split intro!: simulates_intros)

lemma sim_get_user: "simulates steady view (get_user_by_id E i) (get_user_by_id T i)"
  unfolding get_user_by_id_def
  by (rule simulates_bind [OF sim_find(1)]) (auto split: option.split intro!: simulates_intros)

lemma sim_save: "simulates steady view (save_user E u f) (save_user T u f)"
  unfolding save_user_def on_table_simps by (intro simulates_intros)

lemma sim_refresh: "simulates steady view (refresh_user E u) (refresh_user T u)"
  unfolding refresh_user_def on_table_simps
  by (rule simulates_bind [OF simulates_refresh]) (auto split: option.split intro!: simulates_intros)

lemma sim_enable: "simulates steady view (set_user_login_enabled_by_admin E i b) (set_user_login_enabled_by_admin T i b)"
  unfolding set_user_login_enabled_by_admin_def
  by (rule simulates_bind [OF sim_get_user])
    (auto intro!: simulates_intros sim_save sim_refresh)

lemma sim_profile: "simulates steady view (update_profile E u p) (update_profile T u p)"
  unfolding update_profile_def by (intro simulates_intros sim_save sim_refresh)

lemma sim_password: "simulates steady view (change_password E u p q) (change_password T u p q)"
  unfolding change_password_def on_table_pure
  by (auto intro!: simulates_intros sim_save)

lemmas sim_operations = sim_find sim_policy sim_login sim_set_policy sim_get_user sim_enable sim_profile sim_password

end


section \<open>Runs on the table\<close>

lemma find_user_table:
  "find_user (on_table E check coerce) P t =
     ((case filter P (users_of (tb_rows t)) of [] \<Rightarrow> Inr None | [u] \<Rightarrow> Inr (Some u) | _ \<Rightarrow> Inl MultipleResultsFound), t)"
  by (simp add: find_user_def bind_prog_def table_one_or_none filter_where_user split: list.split)

lemma find_config_table:
  "find_config (on_table E check coerce) k t =
     ((case filter (\<lambda>c. ue_text_eq E (sc_config_key c) k) (configs_of (tb_rows t)) of
         [] \<Rightarrow> Inr None | [c] \<Rightarrow> Inr (Some c) | _ \<Rightarrow> Inl MultipleResultsFound), t)"
  by (simp add: find_config_def bind_prog_def table_one_or_none filter_where_config split: list.split)

definition matching_user :: "('r, 'd) user_env \<Rightarrow> string \<Rightarrow> user_entity list \<Rightarrow> user list" where
  "matching_user E username rows = filter (\<lambda>u. ue_text_eq E (u_username u) username) (users_of rows)"

text \<open>The sign-in policy the rows express: enabled unless the configuration says otherwise.\<close>

definition policy_rows :: "('r, 'd) user_env \<Rightarrow> user_entity list \<Rightarrow> system_config list" where
  "policy_rows E rows = filter (\<lambda>c. ue_text_eq E (sc_config_key c) USER_LOGIN_ENABLED_KEY) (configs_of rows)"

definition policy_enabled :: "('r, 'd) user_env \<Rightarrow> user_entity list \<Rightarrow> bool" where
  "policy_enabled E rows = list_all (\<lambda>c. sc_config_value c = ''1'') (policy_rows E rows)"

lemma check_unique:
  assumes "user_check (ue_text_eq E) rows = None" and "equivp (ue_text_eq E)"
  shows "length (matching_user E n rows) \<le> 1" and "length (policy_rows E rows) \<le> 1"
    and "length (filter (\<lambda>u. u_id u = i) (users_of rows)) \<le> 1"
proof -
  have s: "symp (ue_text_eq E)" and t: "transp (ue_text_eq E)"
    using assms(2) by (simp_all add: equivp_reflp_symp_transp)
  show "length (matching_user E n rows) \<le> 1" and "length (policy_rows E rows) \<le> 1"
    using assms(1) unique_by_filter [OF _ s t, of u_username] unique_by_filter [OF _ s t, of sc_config_key]
    by (auto simp: user_check_def matching_user_def policy_rows_def split: if_splits)
  show "length (filter (\<lambda>u. u_id u = i) (users_of rows)) \<le> 1"
    using assms(1) by (intro distinct_filter_key) (auto simp: user_check_def split: if_splits)
qed

lemma policy_table:
  assumes "length (policy_rows E (tb_rows t)) \<le> 1"
  shows "get_user_login_enabled (on_table E check coerce) t = (Inr (policy_enabled E (tb_rows t)), t)"
  using at_most_one [OF assms]
  by (auto simp: get_user_login_enabled_def bind_prog_def find_config_table policy_enabled_def policy_rows_def)

definition may_login :: "('r, 'd) user_env \<Rightarrow> user_entity list \<Rightarrow> string \<Rightarrow> string \<Rightarrow> user \<Rightarrow> bool" where
  "may_login E rows username password u \<longleftrightarrow>
     UserRow u \<in> set rows \<and> ue_text_eq E (u_username u) username \<and>
     verify_password E password (u_password u) = Inr True \<and> u_login_enabled u \<noteq> 0 \<and>
     (u_role u = ''USER'' \<longrightarrow> policy_enabled E rows)"

lemma login_table:
  assumes "length (policy_rows E (tb_rows t)) \<le> 1"
  shows "login (on_table E check coerce) username password t =
     ((case matching_user E username (tb_rows t) of
         [] \<Rightarrow> Inl (http_error 401 ''Invalid username or password'')
       | [u] \<Rightarrow>
          (case verify_password E password (u_password u) of
             Inl e \<Rightarrow> Inl e
           | Inr valid \<Rightarrow>
           if \<not> valid then Inl (http_error 401 ''Invalid username or password'')
           else if u_role u = ''USER'' \<and> \<not> policy_enabled E (tb_rows t)
           then Inl (http_error 403 ''User login is currently disabled'')
           else if u_login_enabled u = 0 then Inl (http_error 403 ''Your account is disabled'')
           else Inr (login_response_for E u))
       | _ \<Rightarrow> Inl MultipleResultsFound), t)"
  using policy_table [OF assms]
  by (auto simp: login_def bind_prog_def find_user_table matching_user_def split: list.split sum.split)

text \<open>What a sign-in with that name and password answers, from the rows.\<close>

definition named :: "('r, 'd) user_env \<Rightarrow> user_entity list \<Rightarrow> string \<Rightarrow> user \<Rightarrow> bool" where
  "named E rows username u \<longleftrightarrow> UserRow u \<in> set rows \<and> ue_text_eq E (u_username u) username"

lemma login_outcome:
  assumes "user_session E view up steady (user_check (ue_text_eq E)) coerce" and "equivp (ue_text_eq E)"
    and "steady d" and "user_check (ue_text_eq E) (tb_rows (view d)) = None"
  shows "(\<nexists>u. named E (tb_rows (view d)) username u) \<and>
           fst (login E username password d) = Inl (http_error 401 ''Invalid username or password'') \<or>
         (\<exists>u. (\<forall>v. named E (tb_rows (view d)) username v \<longleftrightarrow> v = u) \<and>
            fst (login E username password d) =
              (case verify_password E password (u_password u) of
                 Inl e \<Rightarrow> Inl e
               | Inr False \<Rightarrow> Inl (http_error 401 ''Invalid username or password'')
               | Inr True \<Rightarrow>
                   (if u_role u = ''USER'' \<and> \<not> policy_enabled E (tb_rows (view d))
                    then Inl (http_error 403 ''User login is currently disabled'')
                    else if u_login_enabled u = 0 then Inl (http_error 403 ''Your account is disabled'')
                    else Inr (login_response_for E u))))"
proof -
  let ?rows = "tb_rows (view d)"
  note one = check_unique [OF assms(4,2)]
  have r: "fst (login E username password d) = fst (login (on_table E (user_check (ue_text_eq E)) coerce) username password (view d))"
    using user_session.sim_login [OF assms(1)] assms(3) by (simp add: simulates_def)
  have mem: "named E ?rows username u \<longleftrightarrow> u \<in> set (matching_user E username ?rows)" for u
    by (simp add: named_def matching_user_def users_of_set)
  show ?thesis
    using at_most_one [OF one(1) [of username]]
  proof (elim disjE exE)
    assume "matching_user E username ?rows = []"
    then show ?thesis using mem by (auto simp: r login_table [OF one(2)])
  next
    fix u
    assume u: "matching_user E username ?rows = [u]"
    have "named E ?rows username v \<longleftrightarrow> v = u" for v using mem [of v] u by simp
    then show ?thesis using u
      by (intro disjI2 exI [of _ u]) (auto simp: r login_table [OF one(2)] split: sum.split bool.split)
  qed
qed

lemma may_login_named:
  "may_login E rows username password u \<longleftrightarrow>
     named E rows username u \<and> verify_password E password (u_password u) = Inr True \<and> u_login_enabled u \<noteq> 0 \<and>
     (u_role u = ''USER'' \<longrightarrow> policy_enabled E rows)"
  by (auto simp: may_login_def named_def)

lemma login_Inr:
  assumes "user_session E view up steady (user_check (ue_text_eq E)) coerce" and "equivp (ue_text_eq E)"
    and "steady d" and "user_check (ue_text_eq E) (tb_rows (view d)) = None"
    and "fst (login E username password d) = Inr resp"
  shows "\<exists>u. may_login E (tb_rows (view d)) username password u \<and> resp = login_response_for E u"
  using login_outcome [OF assms(1-4), of username password]
proof (elim disjE exE conjE)
  fix u
  assume u: "\<forall>v. named E (tb_rows (view d)) username v \<longleftrightarrow> v = u"
    and l: "fst (login E username password d) = (case verify_password E password (u_password u) of
                 Inl e \<Rightarrow> Inl e
               | Inr False \<Rightarrow> Inl (http_error 401 ''Invalid username or password'')
               | Inr True \<Rightarrow>
                   (if u_role u = ''USER'' \<and> \<not> policy_enabled E (tb_rows (view d))
                    then Inl (http_error 403 ''User login is currently disabled'')
                    else if u_login_enabled u = 0 then Inl (http_error 403 ''Your account is disabled'')
                    else Inr (login_response_for E u)))"
  have "may_login E (tb_rows (view d)) username password u \<and> resp = login_response_for E u"
    using l [unfolded assms(5)] u by (auto simp: may_login_named split: sum.splits bool.splits if_splits)
  then show ?thesis by blast
qed (use assms(5) in simp)

text \<open>
  C13: On a reachable database that satisfies its schema, login issues a token exactly to an
  enabled account whose name and password match and, for the role USER, only while the sign-in
  policy allows it; an exception of passlib for the password and the stored hash of the account
  named leaves login as it is, and in all other cases the answer is 403 if the password is that
  of the account and 401 if not.
\<close>

theorem login_grants_exactly_entitled:
  assumes "user_session E view up steady (user_check (ue_text_eq E)) coerce" and "equivp (ue_text_eq E)"
    and "steady d" and "user_check (ue_text_eq E) (tb_rows (view d)) = None"
  shows "(\<forall>u. may_login E (tb_rows (view d)) username password u \<longrightarrow>
            fst (login E username password d) = Inr (login_response_for E u)) \<and>
         (\<forall>u e. named E (tb_rows (view d)) username u \<and> verify_password E password (u_password u) = Inl e \<longrightarrow>
            fst (login E username password d) = Inl e) \<and>
         ((\<nexists>u. may_login E (tb_rows (view d)) username password u) \<and>
          (\<nexists>u e. named E (tb_rows (view d)) username u \<and> verify_password E password (u_password u) = Inl e) \<longrightarrow>
            (\<exists>detail. fst (login E username password d) =
               Inl (http_error (if \<exists>u. named E (tb_rows (view d)) username u \<and> verify_password E password (u_password u) = Inr True
                                then 403 else 401) detail)))"
  using login_outcome [OF assms, of username password]
proof (elim disjE exE conjE)
  fix u
  assume u: "\<forall>v. named E (tb_rows (view d)) username v \<longleftrightarrow> v = u"
    and l: "fst (login E username password d) = (case verify_password E password (u_password u) of
                 Inl e \<Rightarrow> Inl e
               | Inr False \<Rightarrow> Inl (http_error 401 ''Invalid username or password'')
               | Inr True \<Rightarrow>
                   (if u_role u = ''USER'' \<and> \<not> policy_enabled E (tb_rows (view d))
                    then Inl (http_error 403 ''User login is currently disabled'')
                    else if u_login_enabled u = 0 then Inl (http_error 403 ''Your account is disabled'')
                    else Inr (login_response_for E u)))"
  have n: "named E (tb_rows (view d)) username v \<longleftrightarrow> v = u" for v using u by blast
  show ?thesis unfolding l may_login_named n by (auto split: sum.split bool.split)
qed (auto simp: may_login_named)

section \<open>Updates of the rows\<close>

lemma update_config_rows [simp]:
  "users_of (update_rows id (where_config P) (map_config f) rows) = users_of rows"
  "configs_of (update_rows id (where_config P) (map_config f) rows) =
     map (\<lambda>c. if P c then f c else c) (configs_of rows)"
  by (induction rows rule: users_of.induct) (auto simp: update_rows_def)

lemma update_user_rows [simp]:
  "configs_of (update_rows id (where_user P) (map_user f) rows) = configs_of rows"
  "users_of (update_rows id (where_user P) (map_user f) rows) = map (\<lambda>u. if P u then f u else u) (users_of rows)"
  by (induction rows rule: users_of.induct) (auto simp: update_rows_def)

lemma check_config_update:
  assumes "user_check eq rows = None" and "\<And>c. sc_config_key (f c) = sc_config_key c"
    and "\<And>c. config_columns_ok c \<Longrightarrow> P c \<Longrightarrow> config_columns_ok (f c)"
  shows "user_check eq (update_rows id (where_config P) (map_config f) rows) = None"
proof -
  have "unique_by (\<lambda>a b. eq (sc_config_key a) (sc_config_key b)) (map (\<lambda>c. if P c then f c else c) (configs_of rows))"
    using assms(1,2) by (subst unique_by_map) (auto simp: user_check_def split: if_splits)
  with assms(1,3) show ?thesis
    by (auto simp: user_check_def list_all_iff split: if_splits)
qed

lemma check_user_update:
  assumes "user_check eq rows = None"
    and "\<And>u. u_id (f u) = u_id u \<and> u_username (f u) = u_username u \<and> u_userno (f u) = u_userno u"
    and "\<And>u. user_columns_ok u \<Longrightarrow> P u \<Longrightarrow> UserRow u \<in> set rows \<Longrightarrow> user_columns_ok (f u)"
  shows "user_check eq (update_rows id (where_user P) (map_user f) rows) = None"
proof -
  let ?g = "\<lambda>u. if P u then f u else u"
  have "unique_by (\<lambda>a b. eq (u_username a) (u_username b)) (map ?g (users_of rows))"
    and "unique_by (\<lambda>a b. eq (u_userno a) (u_userno b)) (map ?g (users_of rows))"
    using assms(1,2) by (subst unique_by_map; auto simp: user_check_def split: if_splits)+
  moreover have "u_id \<circ> ?g = u_id"
    using assms(2) by auto
  then have "distinct (map (u_id \<circ> ?g) (users_of rows))"
    using assms(1) by (auto simp: user_check_def split: if_splits)
  ultimately show ?thesis
    using assms(1,3) unfolding user_check_def
    by (auto simp: list_all_iff users_of_set split: if_splits)
qed

section \<open>The sign-in policy\<close>

lemma flag_value_ok [simp]: "(flag_value b = ''1'') = b" "length (flag_value b) \<le> 255"
  by (simp_all add: flag_value_def)

lemma set_policy_table:
  assumes "user_check (ue_text_eq E) rows = None" and "equivp (ue_text_eq E)"
  shows "\<exists>rows' n'. set_user_login_enabled (on_table E (user_check (ue_text_eq E)) id) b (table_of rows n) =
            (Inr b, table_of rows' n') \<and>
          user_check (ue_text_eq E) rows' = None \<and> users_of rows' = users_of rows \<and> policy_enabled E rows' = b"
proof -
  let ?eq = "ue_text_eq E"
  let ?T = "on_table E (user_check ?eq) id"
  have refl: "?eq x x" for x using assms(2) by (simp add: equivp_reflp)
  have sym: "?eq x y \<Longrightarrow> ?eq y x" for x y using assms(2) by (metis equivp_symp)
  show ?thesis
    using at_most_one [OF check_unique(2) [OF assms]]
  proof (elim disjE exE)
    assume none: "policy_rows E rows = []"
    let ?new = "\<lparr>sc_config_key = USER_LOGIN_ENABLED_KEY, sc_config_value = flag_value b\<rparr>"
    let ?rows' = "rows @ [ConfigRow ?new]"
    have no: "\<not> ?eq (sc_config_key c) USER_LOGIN_ENABLED_KEY" if "c \<in> set (configs_of rows)" for c
      using none that by (auto simp: policy_rows_def filter_empty_conv)
    have "config_columns_ok ?new" by (simp add: config_columns_ok_def USER_LOGIN_ENABLED_KEY_def)
    moreover have "unique_by (\<lambda>a b. ?eq (sc_config_key a) (sc_config_key b)) (configs_of rows @ [?new])"
      using assms(1) no sym by (auto simp: unique_by_snoc list_all_iff user_check_def split: if_splits)
    ultimately have ok: "user_check ?eq ?rows' = None"
      using assms(1) by (auto simp: user_check_def split: if_splits)
    have "set_user_login_enabled ?T b (table_of rows n) = (Inr b, table_of ?rows' (n + 1))"
      using none ok
      by (simp add: set_user_login_enabled_def bind_prog_def find_config_table commit_insert
          flip: policy_rows_def)
    moreover have "policy_enabled E ?rows' = b"
      using none refl by (simp add: policy_enabled_def policy_rows_def)
    ultimately show ?thesis using ok by auto
  next
    fix c
    assume one: "policy_rows E rows = [c]"
    let ?P = "\<lambda>c'. sc_config_key c' = sc_config_key c"
    let ?f = "\<lambda>c'. c'\<lparr>sc_config_value := set_col (sc_config_value c) (flag_value b) (sc_config_value c')\<rparr>"
    let ?rows' = "update_rows id (where_config ?P) (map_config ?f) rows"
    have c: "c \<in> set (configs_of rows)" "?eq (sc_config_key c) USER_LOGIN_ENABLED_KEY"
      using one by (auto simp: policy_rows_def filter_eq_Cons_iff)
    have ok: "user_check ?eq ?rows' = None"
      by (rule check_config_update [OF assms(1)]) (auto simp: config_columns_ok_def set_col_def)
    have "\<exists>e \<in> set rows. where_config ?P e"
      using c(1) by (auto simp: configs_of_set intro!: bexI [of _ "ConfigRow c"])
    then have "set_user_login_enabled ?T b (table_of rows n) = (Inr b, table_of ?rows' n)"
      using one ok
      by (simp add: set_user_login_enabled_def bind_prog_def find_config_table commit_modify
          flip: policy_rows_def)
    moreover have "policy_enabled E ?rows' = b"
    proof -
      have "policy_rows E ?rows' = map (\<lambda>c'. if ?P c' then ?f c' else c') (policy_rows E rows)"
        by (auto simp: policy_rows_def filter_map comp_def intro!: arg_cong2 [where f = map] filter_cong)
      then show ?thesis by (auto simp: policy_enabled_def one set_col_def)
    qed
    ultimately show ?thesis using ok by auto
  qed
qed

text \<open>
  C30: set_user_login_enabled stores the policy that get_user_login_enabled then returns, and
  while it is off no login succeeds for an account of role USER.
\<close>

theorem policy_off_blocks_users:
  assumes "user_session E view up steady (user_check (ue_text_eq E)) id" and "equivp (ue_text_eq E)"
    and "steady d" and "view d = table_of rows n" and "user_check (ue_text_eq E) rows = None"
    and "set_user_login_enabled E b d = (r, d')"
  shows "r = Inr b \<and> fst (get_user_login_enabled E d') = Inr b \<and>
         (\<not> b \<longrightarrow> (\<forall>username password resp. fst (login E username password d') = Inr resp \<longrightarrow>
                       lp_role resp \<noteq> ''USER''))"
proof -
  let ?chk = "user_check (ue_text_eq E)"
  let ?T = "on_table E ?chk id"
  obtain rows' n' where t: "set_user_login_enabled ?T b (table_of rows n) = (Inr b, table_of rows' n')"
    and ok: "?chk rows' = None" and pol: "policy_enabled E rows' = b"
    using set_policy_table [OF assms(5,2)] by blast
  have d': "r = Inr b" "view d' = table_of rows' n'" "steady d'"
    using simulates_run [OF user_session.sim_set_policy [OF assms(1)] assms(3,4) t assms(6)] by auto
  have "length (policy_rows E rows') \<le> 1" using check_unique(2) [OF ok assms(2)] .
  then have "fst (get_user_login_enabled E d') = Inr b"
    using user_session.sim_policy [OF assms(1)] d'(2,3) pol by (simp add: simulates_def policy_table)
  moreover have "lp_role resp \<noteq> ''USER''" if "\<not> b" "fst (login E username password d') = Inr resp" for username password resp
  proof -
    have "\<exists>u. may_login E rows' username password u \<and> resp = login_response_for E u"
      using login_Inr [OF assms(1,2) d'(3) _ that(2)] ok d'(2) by simp
    then show ?thesis using that(1) pol by (auto simp: may_login_def login_response_for_def)
  qed
  ultimately show ?thesis using d'(1) by blast
qed

section \<open>Changes of one account\<close>

definition replace_user :: "user \<Rightarrow> user \<Rightarrow> user_entity list \<Rightarrow> user_entity list" where
  "replace_user u u' rows = map (\<lambda>e. if e = UserRow u then UserRow u' else e) rows"

lemma same_id_same_user:
  assumes "user_check eq rows = None" and "UserRow u \<in> set rows" and "UserRow v \<in> set rows" and "u_id v = u_id u"
  shows "v = u"
proof -
  have "inj_on u_id (set (users_of rows))"
    using assms(1) by (auto simp: user_check_def distinct_map split: if_splits)
  then show ?thesis using assms(2-4) by (auto simp: users_of_set inj_on_def)
qed

lemma update_one_user:
  assumes "user_check eq rows = None" and "UserRow u \<in> set rows"
  shows "update_rows id (where_user (\<lambda>v. u_id v = u_id u)) (map_user f) rows = replace_user u (f u) rows"
proof -
  have "(if where_user (\<lambda>v. u_id v = u_id u) e then id (map_user f e) else e) =
        (if e = UserRow u then UserRow (f u) else e)" if "e \<in> set rows" for e
    using same_id_same_user [OF assms, of "case e of UserRow v \<Rightarrow> v"] that by (cases e) auto
  then show ?thesis by (simp add: update_rows_def replace_user_def)
qed

lemma filter_by_id:
  assumes "user_check eq rows = None" and "UserRow u \<in> set rows"
  shows "filter (\<lambda>v. u_id v = u_id u) (users_of rows) = [u]"
proof -
  have "length (filter (\<lambda>v. u_id v = u_id u) (users_of rows)) \<le> 1"
    using assms(1) by (intro distinct_filter_key) (auto simp: user_check_def split: if_splits)
  moreover have "u \<in> set (filter (\<lambda>v. u_id v = u_id u) (users_of rows))"
    using assms(2) by (simp add: users_of_set)
  ultimately show ?thesis
    using at_most_one [of "filter (\<lambda>v. u_id v = u_id u) (users_of rows)"] by (auto simp del: set_filter)
qed

lemma get_user_table:
  assumes "user_check eq rows = None"
  shows "UserRow u \<in> set rows \<Longrightarrow> get_user_by_id (on_table E check coerce) (u_id u) (table_of rows n) = (Inr u, table_of rows n)"
    and "(\<nexists>u. UserRow u \<in> set rows \<and> u_id u = i) \<Longrightarrow>
         get_user_by_id (on_table E check coerce) i (table_of rows n) = (Inl (http_error 404 ''User not found''), table_of rows n)"
proof -
  show "UserRow u \<in> set rows \<Longrightarrow> get_user_by_id (on_table E check coerce) (u_id u) (table_of rows n) = (Inr u, table_of rows n)"
    using filter_by_id [OF assms] by (simp add: get_user_by_id_def bind_prog_def find_user_table)
  assume "\<nexists>u. UserRow u \<in> set rows \<and> u_id u = i"
  then have "filter (\<lambda>u. u_id u = i) (users_of rows) = []"
    by (auto simp: filter_empty_conv users_of_set)
  then show "get_user_by_id (on_table E check coerce) i (table_of rows n) = (Inl (http_error 404 ''User not found''), table_of rows n)"
    by (simp add: get_user_by_id_def bind_prog_def find_user_table)
qed

lemma save_user_table:
  assumes ok: "user_check eq rows = None" and u: "UserRow u \<in> set rows"
    and keys: "\<And>v. u_id (f v) = u_id v \<and> u_username (f v) = u_username v \<and> u_userno (f v) = u_userno v"
    and cols: "user_columns_ok (f u)"
  shows "save_user (on_table E (user_check eq) id) u f (table_of rows n) = (Inr [], table_of (replace_user u (f u) rows) n)"
    and "user_check eq (replace_user u (f u) rows) = None"
    and "refresh_user (on_table E (user_check eq) id) u (table_of (replace_user u (f u) rows) n) =
           (Inr (f u), table_of (replace_user u (f u) rows) n)"
proof -
  let ?P = "\<lambda>v. u_id v = u_id u"
  have "user_check eq (update_rows id (where_user ?P) (map_user f) rows) = None"
    using cols same_id_same_user [OF ok u] by (intro check_user_update [OF ok keys]) auto
  then show ok': "user_check eq (replace_user u (f u) rows) = None"
    by (simp add: update_one_user [OF ok u])
  have "\<exists>r \<in> set rows. where_user ?P r" using u by force
  then show "save_user (on_table E (user_check eq) id) u f (table_of rows n) = (Inr [], table_of (replace_user u (f u) rows) n)"
    using ok' by (simp add: save_user_def bind_prog_def commit_modify update_one_user [OF ok u])
  have "UserRow (f u) \<in> set (replace_user u (f u) rows)"
    using u by (force simp: replace_user_def)
  from filter_by_id [OF ok' this] keys [of u]
  show "refresh_user (on_table E (user_check eq) id) u (table_of (replace_user u (f u) rows) n) =
           (Inr (f u), table_of (replace_user u (f u) rows) n)"
    by (simp add: refresh_user_def bind_prog_def table_refresh filter_where_user)
qed

definition switched_account :: "bool \<Rightarrow> user \<Rightarrow> user" where
  "switched_account b u = u\<lparr>u_login_enabled := (if b then 1 else 0), u_version := u_version u + 1\<rparr>"

lemma columns_ok_of: "user_check eq rows = None \<Longrightarrow> UserRow u \<in> set rows \<Longrightarrow> user_columns_ok u"
  by (auto simp: user_check_def list_all_iff users_of_set split: if_splits)

lemma switch_account_table:
  assumes ok: "user_check (ue_text_eq E) rows = None" and u: "UserRow u \<in> set rows" and v: "u_version u < 2147483647"
  shows "set_user_login_enabled_by_admin (on_table E (user_check (ue_text_eq E)) id) (u_id u) b (table_of rows n) =
     (if u_role u = ''USER'' then (Inr (switched_account b u), table_of (replace_user u (switched_account b u) rows) n)
      else (Inl (http_error 400 ''Only USER accounts can be enabled/disabled''), table_of rows n))"
proof -
  let ?f = "\<lambda>v. v\<lparr>u_login_enabled := set_col (u_login_enabled u) (if b then 1 else 0) (u_login_enabled v),
                   u_version := set_col (u_version u) (u_version u + 1) (u_version v)\<rparr>"
  have f: "?f u = switched_account b u" by (simp add: switched_account_def)
  have "user_columns_ok (?f u)"
    using columns_ok_of [OF ok u] v by (simp add: user_columns_ok_def)
  note save = save_user_table(1,3) [where f = ?f and E = E and n = n, OF ok u _ this, unfolded f]
  show ?thesis
    by (simp add: set_user_login_enabled_by_admin_def bind_prog_def get_user_table(1) [OF ok u] save)
qed

theorem account_switch_outcome:
  assumes "user_session E view up steady (user_check (ue_text_eq E)) id"
    and "steady d" and "view d = table_of rows n" and "user_check (ue_text_eq E) rows = None"
    and "list_all (\<lambda>u. u_version u < 2147483647) (users_of rows)"
    and "set_user_login_enabled_by_admin E i b d = (r, d')"
  shows "(\<nexists>u. UserRow u \<in> set rows \<and> u_id u = i) \<and>
           r = Inl (http_error 404 ''User not found'') \<and> view d' = table_of rows n \<or>
         (\<exists>u. UserRow u \<in> set rows \<and> u_id u = i \<and>
           (if u_role u = ''USER''
            then r = Inr (switched_account b u) \<and> view d' = table_of (replace_user u (switched_account b u) rows) n
            else r = Inl (http_error 400 ''Only USER accounts can be enabled/disabled'') \<and> view d' = table_of rows n))"
proof (cases "\<exists>u. UserRow u \<in> set rows \<and> u_id u = i")
  case True
  then obtain u where u: "UserRow u \<in> set rows" "u_id u = i" by blast
  then have v: "u_version u < 2147483647"
    using assms(5) by (simp add: list_all_iff users_of_set)
  from simulates_run [OF user_session.sim_enable [OF assms(1)] assms(2,3) _ assms(6)]
    switch_account_table [OF assms(4) u(1) v, of b n] u
  show ?thesis by (auto split: if_splits)
next
  case False
  then have "set_user_login_enabled_by_admin (on_table E (user_check (ue_text_eq E)) id) i b (table_of rows n) =
      (Inl (http_error 404 ''User not found''), table_of rows n)"
    by (simp add: set_user_login_enabled_by_admin_def bind_prog_def get_user_table(2) [OF assms(4)])
  from simulates_run [OF user_session.sim_enable [OF assms(1)] assms(2,3) this assms(6)] False
  show ?thesis by simp
qed

section \<open>Passwords\<close>

definition with_password :: "string \<Rightarrow> user \<Rightarrow> user" where
  "with_password h u = u\<lparr>u_password := h, u_version := u_version u + 1\<rparr>"

text \<open>
  C31: With the old password, change_password stores a hash that verifies the new password, as
  long as passlib hashes it, and changes nothing but that row; with a wrong old password it
  answers 400, and an exception of passlib for the old password or the new one leaves it as it
  is: then nothing is changed.
\<close>

theorem change_password_takes_effect:
  assumes "user_session E view up steady (user_check (ue_text_eq E)) id" and "password_hashing (ue_passlib E)"
    and "steady d" and "view d = table_of rows n" and "user_check (ue_text_eq E) rows = None"
    and "UserRow u \<in> set rows" and "u_version u < 2147483647"
    and "\<And>h. hash_password E new = Inr h \<Longrightarrow> length h \<le> 100"
    and "change_password E u old new d = (r, d')"
  shows "case verify_password E old (u_password u) of
           Inl e \<Rightarrow> r = Inl e \<and> view d' = table_of rows n
         | Inr False \<Rightarrow> r = Inl (http_error 400 ''Old password is incorrect'') \<and> view d' = table_of rows n
         | Inr True \<Rightarrow>
             (case hash_password E new of
                Inl e \<Rightarrow> r = Inl e \<and> view d' = table_of rows n
              | Inr h \<Rightarrow> r = Inr () \<and> verify_password E new h = Inr True \<and>
                  view d' = table_of (replace_user u (with_password h u) rows) n)"
proof -
  let ?T = "on_table E (user_check (ue_text_eq E)) id"
  note run = simulates_run [OF user_session.sim_password [OF assms(1)] assms(3,4) _ assms(9)]
  show ?thesis
  proof (cases "verify_password E old (u_password u)")
    case (Inl e)
    then have "change_password ?T u old new (table_of rows n) = (Inl e, table_of rows n)"
      by (simp add: change_password_def bind_prog_def)
    from run [OF this] Inl show ?thesis by simp
  next
    case (Inr valid)
    show ?thesis
    proof (cases valid)
      case False
      then have "change_password ?T u old new (table_of rows n) = (Inl (http_error 400 ''Old password is incorrect''), table_of rows n)"
        using Inr by (simp add: change_password_def bind_prog_def)
      from run [OF this] Inr False show ?thesis by simp
    next
      case True
      show ?thesis
      proof (cases "hash_password E new")
        case (Inl e)
        then have "change_password ?T u old new (table_of rows n) = (Inl e, table_of rows n)"
          using Inr True by (simp add: change_password_def bind_prog_def)
        from run [OF this] Inr Inl True show ?thesis by simp
      next
        case (Inr h)
        let ?f = "\<lambda>v. v\<lparr>u_password := set_col (u_password u) h (u_password v),
                         u_version := set_col (u_version u) (u_version u + 1) (u_version v)\<rparr>"
        have f: "?f u = with_password h u" by (simp add: with_password_def)
        have "user_columns_ok (?f u)"
          using columns_ok_of [OF assms(5,6)] assms(7,8) Inr by (simp add: user_columns_ok_def)
        note save = save_user_table(1) [where f = ?f and E = E and n = n, OF assms(5,6) _ this, unfolded f]
        have "change_password ?T u old new (table_of rows n) = (Inr (), table_of (replace_user u (with_password h u) rows) n)"
          using \<open>verify_password E old (u_password u) = Inr valid\<close> True Inr
          by (simp add: change_password_def bind_prog_def save)
        moreover have "verify_password E new h = Inr True"
          using password_hashing.verify_hash [OF assms(2)] Inr by (simp add: verify_password_def hash_password_def)
        ultimately show ?thesis using run \<open>verify_password E old (u_password u) = Inr valid\<close> True Inr by simp
      qed
    qed
  qed
qed

section \<open>Pages\<close>

definition user_item :: "user \<Rightarrow> admin_user_list_item" where
  "user_item u = hd (list_item (UserRow u))"

lemma list_items: "concat (map list_item (map UserRow us)) = map user_item us"
  by (induction us) (simp_all add: user_item_def)

definition page_items :: "admin_user_page_response res \<Rightarrow> admin_user_list_item list" where
  "page_items r = (case r of Inl _ \<Rightarrow> [] | Inr resp \<Rightarrow> ap_items resp)"

context user_session
begin

lemma list_users_run:
  assumes "steady d" and "distinct (map u_id (users_of (tb_rows (view d))))"
    and "1 \<le> page" and "1 \<le> sz" and "sz \<le> 100" and "page_bound ((page - 1) * sz)"
  shows "\<exists>d'. list_users_by_admin E page sz d =
     (Inr \<lparr>ap_page = page, ap_size = sz, ap_total = int (length (users_of (tb_rows (view d)))),
           ap_items = map user_item (page_slice ((page - 1) * sz) sz (sort_key u_id (users_of (tb_rows (view d)))))\<rparr>, d') \<and>
     view d' = view d \<and> steady d'"
proof -
  let ?us = "users_of (tb_rows (view d))"
  let ?P = "where_user (\<lambda>_. True)"
  have fp: "filter ?P (tb_rows (view d)) = map UserRow ?us"
    by (simp add: filter_where_user)
  have eid: "entity_id \<circ> UserRow = u_id" by auto
  obtain c d1 where c: "sql_count (ue_db E) ?P d = (c, d1)" by fastforce
  have c1: "c = Inr (int (length ?us))" "view d1 = view d" "steady d1"
    using sql_implements_up [OF count_law steady_up [OF assms(1)], of ?P]
      sql_implements_steady [OF count_law assms(1), of ?P] c
    by (simp_all add: tb_count_def fp)
  obtain p d2 where p: "sql_page (ue_db E) ?P entity_id False ((page - 1) * sz) sz d1 = (p, d2)" by fastforce
  have "distinct (map entity_id (filter ?P (tb_rows (view d1))))"
    using assms(2) c1(2) by (simp add: fp eid)
  then have "p = fst (tb_page ?P entity_id False ((page - 1) * sz) sz (view d1))"
    using page_law [OF steady_up [OF c1(3)]] p by (metis fst_conv)
  moreover have "page_bound ((page - 1) * sz)" "page_bound sz" using assms(4-6) by (simp_all add: page_bound_def)
  ultimately have p1: "p = Inr (map UserRow (page_slice ((page - 1) * sz) sz (sort_key u_id ?us)))"
    using c1(2) by (simp add: tb_page_def ordered_def fp sort_key_map eid page_slice_map)
  have d2: "view d2 = view d" "steady d2"
    using page_view [OF steady_up [OF c1(3)], of ?P entity_id False "(page - 1) * sz" sz]
      page_steady [OF c1(3), of ?P entity_id False "(page - 1) * sz" sz] p c1(2) by simp_all
  have "max page 1 = page" "max (min sz 100) 1 = sz" using assms(3-5) by simp_all
  then show ?thesis
    using c p c1 p1 d2
    by (auto simp: list_users_by_admin_def Let_def bind_prog_def list_items simp del: map_map)
qed

end

theorem user_pages_partition:
  assumes "user_session E view up steady (user_check (ue_text_eq E)) coerce"
    and "steady d" and "user_check (ue_text_eq E) (tb_rows (view d)) = None"
    and "1 \<le> sz" and "sz \<le> 100" and "length (users_of (tb_rows (view d))) \<le> n * sz"
    and "n * sz < 2 ^ 64"
  shows "concat (map (\<lambda>p. page_items (fst (list_users_by_admin E (int p + 1) (int sz) d))) [0..<n]) =
           map user_item (sort_key u_id (users_of (tb_rows (view d))))"
proof -
  let ?us = "users_of (tb_rows (view d))"
  have "distinct (map u_id ?us)" using assms(3) by (auto simp: user_check_def split: if_splits)
  note run = user_session.list_users_run [OF assms(1,2) this]
  have "page_items (fst (list_users_by_admin E (int p + 1) (int sz) d)) =
      map user_item (page_slice (int p * int sz) (int sz) (sort_key u_id ?us))" if "p < n" for p
    using run [of "int p + 1" "int sz"] assms(4,5) page_bounds [OF that assms(7)] by (auto simp: page_items_def)
  then have "concat (map (\<lambda>p. page_items (fst (list_users_by_admin E (int p + 1) (int sz) d))) [0..<n]) =
      map user_item (concat (map (\<lambda>p. page_slice (int p * int sz) (int sz) (sort_key u_id ?us)) [0..<n]))"
    unfolding map_concat map_map comp_def by (rule concat_upt_cong)
  with assms(6) show ?thesis by (simp add: pages_partition)
qed

section \<open>Administration endpoints\<close>

theorem admin_endpoints_need_role:
  assumes "role \<noteq> Some ''ADMIN''"
  shows "get_login_policy E role st = (Inl (http_error 403 ''Admin role required''), st) \<and>
         update_login_policy E policy role st = (Inl (http_error 403 ''Admin role required''), st) \<and>
         get_user_by_admin E i role st = (Inl (http_error 403 ''Admin role required''), st) \<and>
         update_user_login_policy E i policy role st = (Inl (http_error 403 ''Admin role required''), st) \<and>
         (\<exists>e. list_users_endpoint E page sz role st = (Inl e, st))"
  using assms
  by (auto simp: get_login_policy_def update_login_policy_def get_user_by_admin_def
      update_user_login_policy_def list_users_endpoint_def require_admin_role_def ensure_def bind_prog_def)

section \<open>Tokens\<close>

lemma extract_bearer [simp]: "token \<noteq> [] \<Longrightarrow> extract_bearer_token (Some (bearer token)) = Inr token"
  by (simp add: extract_bearer_token_def)

definition token_expiry :: "('r, 'd) user_env \<Rightarrow> int" where
  "token_expiry E = (ue_now E + us_jwt_expire_minutes (ue_settings E) * 60 * second) div second"

definition access_token_claims :: "('r, 'd) user_env \<Rightarrow> int \<Rightarrow> string \<Rightarrow> string \<Rightarrow> claims" where
  "access_token_claims E user_id username role =
     [(''user_id'', PInt user_id), (''username'', PStr username), (''role'', PStr role),
      (''exp'', PInt (token_expiry E)), (''jti'', PStr (ue_uuid E))]"

lemma access_token_decodes:
  assumes "jwt_codec (ue_jwt E)" and "\<bar>user_id\<bar> \<le> int64_max" and "\<bar>token_expiry E\<bar> \<le> int64_max"
  shows "jwt_decode (ue_jwt E) now (create_access_token E user_id username role)
           (us_jwt_secret (ue_settings E)) [us_jwt_algorithm (ue_settings E)] =
         (if now < token_expiry E * second then Some (access_token_claims E user_id username role) else None)"
proof -
  let ?p = "access_token_payload E user_id username role"
  have c: "jwt_claims ?p = access_token_claims E user_id username role"
    by (simp add: jwt_claims_def access_token_payload_def access_token_claims_def token_expiry_def)
  have "length (int_str i) \<le> 4300" if "\<bar>i\<bar> \<le> int64_max" for i
    using int_str_length [of i 19] that by simp
  then have ok: "json_ok (PDict (jwt_claims ?p))"
    using assms(2,3) by (simp add: c) (simp add: access_token_claims_def)
  have "jwt_fresh now (jwt_claims ?p) = (now < token_expiry E * second)"
    by (simp add: c) (simp add: access_token_claims_def jwt_fresh_def dict_get_def)
  with jwt_codec.decode_encode [OF assms(1) _ ok] show ?thesis
    by (simp add: create_access_token_def c)
qed

lemma get_current_claims_run:
  assumes "us_is_token_blacklisted E token s = (Inr b, s')" and "token \<noteq> []"
  shows "get_current_claims E (Some (bearer token)) s =
     ((if b then Inl (http_error 401 ''Access token has been revoked'') else us_decode_token E token), s')"
  using assms by (simp add: get_current_claims_def bind_prog_def)

lemma blacklisted_at [simp]: "us_is_token_blacklisted (E\<lparr>ue_now := now\<rparr>) = us_is_token_blacklisted E"
  by (simp add: fun_eq_iff us_is_token_blacklisted_def us_safe_execute_def us_get_redis_client_def)

lemma login_issues_token:
  assumes "fst (login E username password d) = Inr resp"
  shows "lp_access_token resp = create_access_token E (lp_user_id resp) (lp_username resp) (lp_role resp)"
    and "jwt_codec (ue_jwt E) \<Longrightarrow> lp_access_token resp \<noteq> []"
proof -
  obtain u where "resp = login_response_for E u"
    using assms
    by (auto simp: login_def bind_prog_def split: prod.splits sum.splits option.splits if_splits)
  then show t: "lp_access_token resp = create_access_token E (lp_user_id resp) (lp_username resp) (lp_role resp)"
    by (simp add: login_response_for_def)
  show "jwt_codec (ue_jwt E) \<Longrightarrow> lp_access_token resp \<noteq> []"
    using jwt_codec.encode_nonempty by (simp add: t create_access_token_def)
qed

theorem login_token_round_trip:
  assumes "jwt_codec (ue_jwt E)" and "fst (login E username password d) = Inr resp"
    and "\<bar>lp_user_id resp\<bar> \<le> int64_max" and "\<bar>token_expiry E\<bar> \<le> int64_max"
    and "fst (us_is_token_blacklisted E (lp_access_token resp) s) = Inr False"
  shows "fst (get_current_claims (E\<lparr>ue_now := now\<rparr>) (Some (bearer (lp_access_token resp))) s) =
           (if now < token_expiry E * second
            then Inr (access_token_claims E (lp_user_id resp) (lp_username resp) (lp_role resp))
            else Inl (http_error 401 ''Invalid access token''))"
proof -
  note t = login_issues_token(1) [OF assms(2)]
  have "lp_access_token resp \<noteq> []" by (rule login_issues_token(2) [OF assms(2,1)])
  moreover obtain s' where "us_is_token_blacklisted (E\<lparr>ue_now := now\<rparr>) (lp_access_token resp) s = (Inr False, s')"
    using assms(5) by (metis blacklisted_at prod.collapse)
  ultimately show ?thesis
    using access_token_decodes [OF assms(1,3,4), of now "lp_username resp" "lp_role resp"]
    by (simp add: get_current_claims_run us_decode_token_def t)
qed

section \<open>Revocation\<close>

locale user_redis =
  redis_server "ue_redis E" view clock up steady elapse
  for E :: "('r, 'd) user_env" and view clock up steady elapse +
  assumes enabled: "us_redis_enabled (ue_settings E)"
begin

lemma us_client: "us_get_redis_client E = Some (ue_redis E)"
  by (simp add: us_get_redis_client_def enabled)

lemma blacklist_token_run:
  assumes "steady s"
  shows "\<exists>s'. blacklist_token E token x s = (Inr (), s') \<and> steady s' \<and> clock s' = clock s \<and>
     view s' = (view s)(us_blacklist_key token \<mapsto> (RStr ''1'', Some (clock s + blacklist_ttl (ue_now E) x * second)))"
proof -
  let ?k = "us_blacklist_key token" and ?n = "blacklist_ttl (ue_now E) x"
  note law = setex_law [of ?k ?n "''1''"]
  note up = implements_up [OF law steady_up [OF assms]]
  have "0 < ?n" by (simp add: blacklist_ttl_def)
  then show ?thesis
    using up implements_steady [OF law assms]
    by (simp add: blacklist_token_def Let_def us_safe_execute_def us_client safe_execute_Some ks_setex_def)
qed

lemma blacklisted_run:
  assumes "steady s"
  shows "fst (us_is_token_blacklisted E token s) = Inr (\<exists>v e. view s (us_blacklist_key token) = Some (RStr v, e))"
  using implements_up(1) [OF get_law [of "us_blacklist_key token"] steady_up [OF assms]]
  by (auto simp: us_is_token_blacklisted_def us_safe_execute_def us_client safe_execute_Some ks_get_def
      case_prod_unfold split: option.splits rvalue.splits)

lemma logout_run:
  assumes "steady s" and "dict_get claims ''exp'' = Some (PInt x)" and "logout E token claims s = (r, s')" and "0 \<le> t"
  shows "r = Inr ()" and "steady s'"
    and "clock s + t < clock s + blacklist_ttl (ue_now E) x * second \<Longrightarrow>
           view (elapse t s') (us_blacklist_key token) = Some (RStr ''1'', Some (clock s + blacklist_ttl (ue_now E) x * second))"
    and "clock s + blacklist_ttl (ue_now E) x * second \<le> clock s + t \<Longrightarrow> view (elapse t s') (us_blacklist_key token) = None"
  using blacklist_token_run [OF assms(1), of token x] assms(2-4) elapse_view [OF assms(4), of s']
  by (auto simp: logout_def revoke_token_def exp_timestamp_of_def bind_prog_def purge_def)

end

lemma blacklist_ttl_bounds:
  assumes "now + second \<le> x * second"
  shows "x * second - second < now + blacklist_ttl now x * second"
    and "now + blacklist_ttl now x * second \<le> x * second"
  using assms by (auto simp: blacklist_ttl_def trunc_div_def Let_def max_def)

theorem logout_revokes_until_last_second:
  assumes "user_redis E view clock up steady elapse"
    and "steady s" and "ue_now E = clock s" and "dict_get claims ''exp'' = Some (PInt x)"
    and "logout E token claims s = (r, s')" and "token \<noteq> []"
    and "0 \<le> t" and "clock s + t \<le> x * second - second"
  shows "r = Inr () \<and>
         fst (get_current_claims (E\<lparr>ue_now := clock s + t\<rparr>) (Some (bearer token)) (elapse t s')) =
           Inl (http_error 401 ''Access token has been revoked'')"
proof -
  note run = user_redis.logout_run [OF assms(1,2,4,5,7)]
  have "clock s + t < clock s + blacklist_ttl (ue_now E) x * second"
    using blacklist_ttl_bounds(1) [of "clock s" x] assms(3,7,8) by simp
  then have "fst (us_is_token_blacklisted E token (elapse t s')) = Inr True"
    using user_redis.blacklisted_run [OF assms(1), of "elapse t s'" token] run(3)
      redis_server.elapse_steady [OF user_redis.axioms(1) [OF assms(1)] run(2), of t] by simp
  then show ?thesis
    using run(1) assms(6)
      get_current_claims_run [of "E\<lparr>ue_now := clock s + t\<rparr>" token "elapse t s'" True]
    by (cases "us_is_token_blacklisted E token (elapse t s')") simp
qed

theorem revoked_token_accepted_again:
  assumes "user_redis E view clock up steady elapse"
    and "steady s" and "ue_now E = clock s" and "dict_get claims ''exp'' = Some (PInt x)"
    and "logout E token claims s = (r, s')" and "token \<noteq> []"
    and "t = blacklist_ttl (clock s) x * second" and "clock s + t < x * second"
    and "jwt_decode (ue_jwt E) (clock s + t) token (us_jwt_secret (ue_settings E)) [us_jwt_algorithm (ue_settings E)] = Some claims"
  shows "fst (get_current_claims (E\<lparr>ue_now := clock s + t\<rparr>) (Some (bearer token)) (elapse t s')) = Inr claims"
proof -
  have t: "0 \<le> t" using assms(7) by (simp add: blacklist_ttl_def)
  note run = user_redis.logout_run [OF assms(1,2,4,5) t]
  have "fst (us_is_token_blacklisted E token (elapse t s')) = Inr False"
    using user_redis.blacklisted_run [OF assms(1), of "elapse t s'" token] run(4) assms(3,7)
      redis_server.elapse_steady [OF user_redis.axioms(1) [OF assms(1)] run(2), of t] by simp
  then show ?thesis
    using assms(6,9)
      get_current_claims_run [of "E\<lparr>ue_now := clock s + t\<rparr>" token "elapse t s'" False]
    by (cases "us_is_token_blacklisted E token (elapse t s')") (simp add: us_decode_token_def)
qed

section \<open>A concrete service\<close>

definition alice :: user where
  "alice = \<lparr>u_id = 7, u_userno = ''U0007'', u_username = ''alice'', u_password = ''h:secret1'', u_nickname = None,
            u_phone = None, u_email = None, u_role = ''USER'', u_login_enabled = 1, u_version = 0\<rparr>"

definition admin :: user where
  "admin = \<lparr>u_id = 1, u_userno = ''U9999'', u_username = ''admin'', u_password = ''h:secret2'', u_nickname = None,
            u_phone = None, u_email = None, u_role = ''ADMIN'', u_login_enabled = 1, u_version = 0\<rparr>"

definition ref_user_rows :: "user_entity list" where
  "ref_user_rows = [UserRow alice, UserRow admin]"

definition ref_user_env :: "(ref_redis, user_entity ref_db) user_env" where
  "ref_user_env =
     \<lparr>ue_settings = user_default_settings, ue_redis = ref_client, ue_db = ref_sql (user_check (=)) id,
      ue_text_eq = (=), ue_jwt = ref_jwt, ue_passlib = ref_passlib, ue_email = Some,
      ue_now = 500000, ue_uuid = ''u-1'', ue_salt = []\<rparr>"

definition ref_user_redis :: ref_redis where
  "ref_user_redis = fresh_redis\<lparr>rr_clock := 500000\<rparr>"

definition ref_user_db :: "user_entity ref_db" where
  "ref_user_db = ref_database ref_user_rows 8"

interpretation ref_us: user_session ref_user_env rd_table rd_up rd_steady "user_check (=)" id
  by (rule user_session.intro) (simp add: ref_user_env_def ref_db.sql_session_axioms)

interpretation ref_ur: user_redis ref_user_env rr_keys rr_clock rr_up rr_steady rr_elapse
  by (intro user_redis.intro user_redis_axioms.intro)
    (simp_all add: ref_user_env_def user_default_settings_def ref.redis_server_axioms)

lemma ref_user_facts:
  "ue_text_eq ref_user_env = (=)" "equivp (ue_text_eq ref_user_env)" "rd_steady ref_user_db"
  "rd_table ref_user_db = table_of ref_user_rows 8" "user_check (=) ref_user_rows = None"
  "rr_steady ref_user_redis" "ue_now ref_user_env = rr_clock ref_user_redis"
  "jwt_codec (ue_jwt ref_user_env)" "password_hashing (ue_passlib ref_user_env)"
proof -
  show "user_check (=) ref_user_rows = None"
    by (simp add: user_check_def ref_user_rows_def alice_def admin_def user_columns_ok_def)
qed (simp_all add: ref_user_env_def ref_user_db_def ref_database_def table_of_def rd_steady_def identity_equivp
       ref_user_redis_def fresh_redis_def rr_steady_def ref_jwt.jwt_codec_axioms ref_pw.password_hashing_axioms)

lemma alice_may_login: "may_login ref_user_env ref_user_rows ''alice'' ''secret1'' u \<longleftrightarrow> u = alice"
  by (auto simp: may_login_def ref_user_rows_def ref_user_env_def alice_def admin_def verify_password_def ref_passlib_def
      policy_enabled_def policy_rows_def)

lemma alice_named: "named ref_user_env ref_user_rows ''alice'' u \<longleftrightarrow> u = alice"
  by (auto simp: named_def ref_user_rows_def ref_user_env_def alice_def admin_def)

lemma ref_login:
  "user_session ref_user_env rd_table rd_up rd_steady (user_check (ue_text_eq ref_user_env)) id"
  "user_check (ue_text_eq ref_user_env) (tb_rows (rd_table ref_user_db)) = None"
  "tb_rows (rd_table ref_user_db) = ref_user_rows"
  using ref_user_facts(1,4,5) ref_us.user_session_axioms by (simp_all add: table_of_def)

theorem login_grants_witness:
  "fst (login ref_user_env ''alice'' ''secret1'' ref_user_db) = Inr (login_response_for ref_user_env alice) \<and>
   (\<exists>detail. fst (login ref_user_env ''alice'' ''secret2'' ref_user_db) = Inl (http_error 401 detail)) \<and>
   fst (login ref_user_env ''alice'' [nul_char] ref_user_db) = Inl ValueError"
proof -
  note grants = login_grants_exactly_entitled [OF ref_login(1) ref_user_facts(2,3) ref_login(2), unfolded ref_login(3), of "''alice''"]
  have wrong: "verify_password ref_user_env ''secret2'' (u_password alice) = Inr False"
    "verify_password ref_user_env [nul_char] (u_password alice) = Inl ValueError"
    by (simp_all add: verify_password_def ref_user_env_def ref_passlib_def alice_def)
  have "fst (login ref_user_env ''alice'' ''secret1'' ref_user_db) = Inr (login_response_for ref_user_env alice)"
    using grants [of "''secret1''"] alice_may_login by blast
  moreover have "\<exists>detail. fst (login ref_user_env ''alice'' ''secret2'' ref_user_db) = Inl (http_error 401 detail)"
    using grants [of "''secret2''"] wrong(1) by (simp add: alice_named may_login_named)
  moreover have "fst (login ref_user_env ''alice'' [nul_char] ref_user_db) = Inl ValueError"
    using grants [of "[nul_char]"] wrong(2) by (simp add: alice_named)
  ultimately show ?thesis by blast
qed

theorem policy_off_witness:
  "\<exists>r d'. set_user_login_enabled ref_user_env False ref_user_db = (r, d') \<and> r = Inr False \<and>
     fst (get_user_login_enabled ref_user_env d') = Inr False"
proof -
  obtain r d' where run: "set_user_login_enabled ref_user_env False ref_user_db = (r, d')" by fastforce
  show ?thesis
    using policy_off_blocks_users [OF _ _ _ _ _ run, of rd_table rd_up rd_steady ref_user_rows 8]
      ref_us.user_session_axioms ref_user_facts run by simp
qed

theorem account_switch_witness:
  "\<exists>r d'. set_user_login_enabled_by_admin ref_user_env 7 False ref_user_db = (r, d') \<and>
     r = Inr (switched_account False alice)"
proof -
  obtain r d' where run: "set_user_login_enabled_by_admin ref_user_env 7 False ref_user_db = (r, d')" by fastforce
  have u: "UserRow v \<in> set ref_user_rows \<and> u_id v = 7 \<longleftrightarrow> v = alice" for v
    by (auto simp: ref_user_rows_def alice_def admin_def)
  have "list_all (\<lambda>u. u_version u < 2147483647) (users_of ref_user_rows)" and role: "u_role alice = ''USER''"
    by (simp_all add: ref_user_rows_def alice_def admin_def)
  then have "(\<nexists>u. UserRow u \<in> set ref_user_rows \<and> u_id u = 7) \<or>
      (\<exists>u. UserRow u \<in> set ref_user_rows \<and> u_id u = 7 \<and> (u_role u = ''USER'' \<longrightarrow> r = Inr (switched_account False u)))"
    using account_switch_outcome [OF _ _ _ _ _ run, of rd_table rd_up rd_steady ref_user_rows 8]
      ref_us.user_session_axioms ref_user_facts by auto
  then show ?thesis using run u role by metis
qed

theorem change_password_witness:
  "\<exists>r d' h. change_password ref_user_env alice ''secret1'' ''secret9'' ref_user_db = (r, d') \<and> r = Inr () \<and>
     verify_password ref_user_env ''secret9'' h = Inr True \<and>
     rd_table d' = table_of (replace_user alice (with_password h alice) ref_user_rows) 8"
proof -
  obtain r d' where run: "change_password ref_user_env alice ''secret1'' ''secret9'' ref_user_db = (r, d')" by fastforce
  have "UserRow alice \<in> set ref_user_rows" "u_version alice < 2147483647"
    "hash_password ref_user_env ''secret9'' = Inr ''h:secret9''" "verify_password ref_user_env ''secret1'' (u_password alice) = Inr True"
    by (simp_all add: ref_user_rows_def alice_def hash_password_def verify_password_def ref_user_env_def ref_passlib_def)
  then show ?thesis
    using change_password_takes_effect [OF _ _ _ _ _ _ _ _ run, of rd_table rd_up rd_steady ref_user_rows 8]
      ref_us.user_session_axioms ref_user_facts run by auto
qed

theorem user_pages_witness:
  "concat (map (\<lambda>p. page_items (fst (list_users_by_admin ref_user_env (int p + 1) (int 1) ref_user_db))) [0..<2]) =
     map user_item [admin, alice]"
proof -
  have "sort_key u_id (users_of ref_user_rows) = [admin, alice]" "length (users_of ref_user_rows) = 2"
    by (simp_all add: ref_user_rows_def alice_def admin_def)
  then show ?thesis
    using user_pages_partition [of ref_user_env rd_table rd_up rd_steady id ref_user_db 1 2]
      ref_us.user_session_axioms ref_user_facts by simp
qed

theorem admin_endpoints_witness:
  "get_login_policy ref_user_env None \<lparr>ss_redis = ref_user_redis, ss_db = ref_user_db\<rparr> =
     (Inl (http_error 403 ''Admin role required''), \<lparr>ss_redis = ref_user_redis, ss_db = ref_user_db\<rparr>)"
  using admin_endpoints_need_role [of None ref_user_env] by blast

lemma alice_login: "fst (login ref_user_env ''alice'' ''secret1'' ref_user_db) = Inr (login_response_for ref_user_env alice)"
  using login_outcome [OF ref_login(1) ref_user_facts(2,3) ref_login(2), unfolded ref_login(3), of "''alice''" "''secret1''"]
proof (elim disjE exE conjE)
  fix u
  assume "\<forall>v. named ref_user_env ref_user_rows ''alice'' v \<longleftrightarrow> v = u"
  then have "u = alice" by (simp add: alice_named)
  moreover have "may_login ref_user_env ref_user_rows ''alice'' ''secret1'' alice" by (simp add: alice_may_login)
  moreover assume "fst (login ref_user_env ''alice'' ''secret1'' ref_user_db) =
      (case verify_password ref_user_env ''secret1'' (u_password u) of
         Inl e \<Rightarrow> Inl e
       | Inr False \<Rightarrow> Inl (http_error 401 ''Invalid username or password'')
       | Inr True \<Rightarrow>
           (if u_role u = ''USER'' \<and> \<not> policy_enabled ref_user_env ref_user_rows
            then Inl (http_error 403 ''User login is currently disabled'')
            else if u_login_enabled u = 0 then Inl (http_error 403 ''Your account is disabled'')
            else Inr (login_response_for ref_user_env u)))"
  ultimately show ?thesis by (simp add: may_login_named)
qed (simp add: alice_named)

lemma fresh_not_revoked: "fst (us_is_token_blacklisted ref_user_env token ref_user_redis) = Inr False"
  using ref_ur.blacklisted_run [OF ref_user_facts(6), of token]
  by (simp add: ref_user_redis_def fresh_redis_def)

theorem login_token_witness:
  "fst (get_current_claims (ref_user_env\<lparr>ue_now := 7000000\<rparr>)
         (Some (bearer (lp_access_token (login_response_for ref_user_env alice)))) ref_user_redis) =
     Inr (access_token_claims ref_user_env 7 ''alice'' ''USER'')"
proof -
  have "token_expiry ref_user_env = 7200"
    by (simp add: token_expiry_def ref_user_env_def user_default_settings_def)
  then show ?thesis
    using login_token_round_trip [OF ref_user_facts(8) alice_login, of ref_user_redis 7000000] fresh_not_revoked
    by (simp add: login_response_for_def alice_def)
qed

theorem logout_revokes_witness:
  "\<exists>r s'. logout ref_user_env ''t'' [(''exp'', PInt 7200)] ref_user_redis = (r, s') \<and> r = Inr () \<and>
     fst (get_current_claims (ref_user_env\<lparr>ue_now := 500000 + 60 * second\<rparr>) (Some (bearer ''t''))
            (rr_elapse (60 * second) s')) = Inl (http_error 401 ''Access token has been revoked'')"
proof -
  obtain r s' where run: "logout ref_user_env ''t'' [(''exp'', PInt 7200)] ref_user_redis = (r, s')" by fastforce
  have "rr_clock ref_user_redis = 500000" by (simp add: ref_user_redis_def)
  then show ?thesis
    using logout_revokes_until_last_second [OF ref_ur.user_redis_axioms ref_user_facts(6,7) _ run, of 7200 "60 * second"]
      run by (simp add: dict_get_def)
qed

theorem revoked_token_accepted_again_witness:
  "\<exists>token r s'. logout ref_user_env token (access_token_claims ref_user_env 7 ''alice'' ''USER'') ref_user_redis = (r, s') \<and>
     fst (get_current_claims (ref_user_env\<lparr>ue_now := 500000 + 7199 * second\<rparr>) (Some (bearer token))
            (rr_elapse (7199 * second) s')) = Inr (access_token_claims ref_user_env 7 ''alice'' ''USER'')"
proof -
  let ?token = "create_access_token ref_user_env 7 ''alice'' ''USER''"
  let ?c = "access_token_claims ref_user_env 7 ''alice'' ''USER''"
  obtain r s' where run: "logout ref_user_env ?token ?c ref_user_redis = (r, s')" by fastforce
  have x: "token_expiry ref_user_env = 7200"
    by (simp add: token_expiry_def ref_user_env_def user_default_settings_def)
  have "dict_get ?c ''exp'' = Some (PInt 7200)" by (simp add: access_token_claims_def dict_get_def x)
  moreover have "?token \<noteq> []" using jwt_codec.encode_nonempty [OF ref_user_facts(8)] by (simp add: create_access_token_def)
  moreover have "blacklist_ttl 500000 7200 = 7199" by (simp add: blacklist_ttl_def trunc_div_def)
  moreover have "rr_clock ref_user_redis = 500000" by (simp add: ref_user_redis_def)
  ultimately have "fst (get_current_claims (ref_user_env\<lparr>ue_now := 500000 + 7199 * second\<rparr>) (Some (bearer ?token))
            (rr_elapse (7199 * second) s')) = Inr ?c"
    using revoked_token_accepted_again [OF ref_ur.user_redis_axioms ref_user_facts(6,7) _ run, of 7200 "7199 * second"]
      access_token_decodes [OF ref_user_facts(8), of 7 "500000 + 7199 * second" "''alice''" "''USER''"]
    by (simp add: x)
  with run show ?thesis by blast
qed

end
