(* ===== verification/Product_Data.thy ===== *)
theory Product_Data
  imports User_Service Py_Decimal
begin

text \<open>
  The product service (\<^verbatim>\<open>services/product-service/app\<close>), first part: settings
  (\<^verbatim>\<open>core/config.py\<close>), the mapped class \<^verbatim>\<open>Product\<close>, the request and response schemas with
  their constraints (\<^verbatim>\<open>schemas/product.py\<close>), the guards of \<^verbatim>\<open>core/security.py\<close> and the schema
  of the table \<^verbatim>\<open>t_product\<close>.

  Parameters: the Redis client, the SQLAlchemy session, the collation and the \<^verbatim>\<open>LIKE\<close> of
  the database, PyJWT, pydantic's conversions, the current time and the next \<^verbatim>\<open>random.random()\<close>. The envelope
  \<^verbatim>\<open>ApiResponse\<close> is the same as in the user service.
\<close>

section \<open>Settings\<close>

text \<open>A Python float is the pair of its mantissa and its binary exponent.\<close>

type_synonym pyfloat = "int \<times> int"

definition float_le :: "pyfloat \<Rightarrow> pyfloat \<Rightarrow> bool" where
  "float_le a b =
     (let e = min (snd a) (snd b)
      in fst a * 2 ^ nat (snd a - e) \<le> fst b * 2 ^ nat (snd b - e))"

record product_settings =
  ps_app_name :: string
  ps_db_host :: string
  ps_db_port :: int
  ps_db_name :: string
  ps_db_user :: string
  ps_db_password :: string
  ps_sqlalchemy_pool_size :: int
  ps_sqlalchemy_max_overflow :: int
  ps_sqlalchemy_pool_timeout_seconds :: int
  ps_sqlalchemy_pool_recycle_seconds :: int
  ps_jwt_secret :: string
  ps_jwt_algorithm :: string
  ps_redis_enabled :: bool
  ps_redis_host :: string
  ps_redis_port :: int
  ps_redis_db :: int
  ps_redis_password :: "string option"
  ps_redis_cache_ttl_seconds :: int
  ps_internal_api_token :: string
  ps_coupon_rate_limit_window_seconds :: int
  ps_coupon_issue_rate_limit_max_requests :: int
  ps_coupon_claim_rate_limit_max_requests :: int
  ps_coupon_order_record_ttl_seconds :: int
  ps_coupon_issue_fail_sim_enabled :: bool
  ps_coupon_issue_fail_sim_ratio :: pyfloat

definition product_default_settings :: product_settings where
  "product_default_settings =
     \<lparr>ps_app_name = ''product-service'',
      ps_db_host = ''localhost'',
      ps_db_port = 3306,
      ps_db_name = ''h_product_db'',
      ps_db_user = ''app'',
      ps_db_password = ''app_pass'',
      ps_sqlalchemy_pool_size = 30,
      ps_sqlalchemy_max_overflow = 60,
      ps_sqlalchemy_pool_timeout_seconds = 10,
      ps_sqlalchemy_pool_recycle_seconds = 1800,
      ps_jwt_secret = ''change-me-in-env'',
      ps_jwt_algorithm = ''HS256'',
      ps_redis_enabled = True,
      ps_redis_host = ''localhost'',
      ps_redis_port = 6379,
      ps_redis_db = 0,
      ps_redis_password = None,
      ps_redis_cache_ttl_seconds = 120,
      ps_internal_api_token = ''change-me-internal-token'',
      ps_coupon_rate_limit_window_seconds = 60,
      ps_coupon_issue_rate_limit_max_requests = 30,
      ps_coupon_claim_rate_limit_max_requests = 60,
      ps_coupon_order_record_ttl_seconds = 2592000,
      ps_coupon_issue_fail_sim_enabled = False,
      ps_coupon_issue_fail_sim_ratio = (5404319552844595, - 54)\<rparr>"

definition ps_database_url :: "product_settings \<Rightarrow> string" where
  "ps_database_url S =
     ''mysql+pymysql://'' @ ps_db_user S @ '':'' @ ps_db_password S @
     ''@'' @ ps_db_host S @ '':'' @ int_str (ps_db_port S) @ ''/'' @ ps_db_name S"

section \<open>Model and schemas\<close>

record product =
  p_id :: int
  p_product_name :: string
  p_product_code :: string
  p_price :: decimal
  p_stock :: int
  p_category :: "string option"
  p_status :: int
  p_version :: int

text \<open>
  The conversions pydantic applies to a value that was read back from JSON, with what it
  documents for the values these services write: a JSON integer is an \<^verbatim>\<open>int\<close>, a string is a
  \<^verbatim>\<open>str\<close>, a boolean is a \<^verbatim>\<open>bool\<close>, and a string that is a finite decimal literal is a \<^verbatim>\<open>Decimal\<close>.
  \<open>None\<close> stands for a \<^verbatim>\<open>ValidationError\<close>.
\<close>

record pydantic =
  pd_int :: "pyval \<Rightarrow> int option"
  pd_decimal :: "pyval \<Rightarrow> decimal option"
  pd_bool :: "pyval \<Rightarrow> bool option"
  pd_str :: "pyval \<Rightarrow> string option"

locale pydantic_json =
  fixes Y :: pydantic
  assumes json_int: "pd_int Y (PInt i) = Some i"
    and json_decimal: "dec_of_str s = Some x \<Longrightarrow> pd_decimal Y (PStr s) = Some x"
    and json_bool: "pd_bool Y (PBool b) = Some b"
    and json_str: "pd_str Y (PStr s) = Some s"

definition ref_pydantic :: pydantic where
  "ref_pydantic =
     \<lparr>pd_int = (\<lambda>v. case v of PInt i \<Rightarrow> Some i | _ \<Rightarrow> None),
      pd_decimal = (\<lambda>v. case v of PStr s \<Rightarrow> dec_of_str s | _ \<Rightarrow> None),
      pd_bool = (\<lambda>v. case v of PBool b \<Rightarrow> Some b | _ \<Rightarrow> None),
      pd_str = (\<lambda>v. case v of PStr s \<Rightarrow> Some s | _ \<Rightarrow> None)\<rparr>"

interpretation ref_pd: pydantic_json ref_pydantic
  by unfold_locales (simp_all add: ref_pydantic_def)

record ('r, 'd) product_env =
  pe_settings :: product_settings
  pe_redis :: "'r redis"
  pe_db :: "('d, product) sql"
  pe_text_eq :: "string \<Rightarrow> string \<Rightarrow> bool"
  pe_ilike :: "string \<Rightarrow> string \<Rightarrow> bool"
  pe_jwt :: jwt_lib
  pe_pydantic :: pydantic
  pe_now :: int
  pe_random :: pyfloat

record product_internal_response =
  ir_id :: int
  ir_product_name :: string
  ir_product_code :: string
  ir_price :: decimal
  ir_stock :: int
  ir_status :: int

record product_create_request =
  cr_product_name :: string
  cr_product_code :: string
  cr_price :: decimal
  cr_stock :: int
  cr_category :: "string option"
  cr_status :: int

record product_update_request =
  pu_product_name :: string
  pu_price :: decimal
  pu_stock :: int
  pu_category :: "string option"
  pu_status :: int

record coupon_request =
  cq_order_amount :: decimal
  cq_order_no :: "string option"

record coupon_issue_response =
  ci_user_id :: int
  ci_order_amount :: decimal
  ci_issued :: bool
  ci_coupon_type :: "int option"
  ci_discount_rate :: "decimal option"
  ci_balance_after_issue :: "int option"
  ci_message :: string

record coupon_claim_best_response =
  cb_user_id :: int
  cb_order_amount :: decimal
  cb_claimed :: bool
  cb_coupon_type :: "int option"
  cb_discount_rate :: decimal
  cb_discount_amount :: decimal
  cb_final_amount :: decimal
  cb_message :: string

record coupon_balance_item =
  bi_coupon_type :: int
  bi_discount_rate :: decimal
  bi_quantity :: int

record user_coupon_balance_response =
  ub_user_id :: int
  ub_items :: "coupon_balance_item list"

text \<open>The constraints of the request bodies.\<close>

definition price_positive :: "decimal \<Rightarrow> bool" where
  "price_positive d = (0 < coeff d)"

definition product_create_request_ok :: "product_create_request \<Rightarrow> bool" where
  "product_create_request_ok p =
     (length_between 2 200 (cr_product_name p) \<and> length_between 2 50 (cr_product_code p) \<and>
      price_positive (cr_price p) \<and> 0 \<le> cr_stock p \<and>
      pred_option (\<lambda>s. length s \<le> 50) (cr_category p) \<and> 0 \<le> cr_status p \<and> cr_status p \<le> 1)"

definition product_update_request_ok :: "product_update_request \<Rightarrow> bool" where
  "product_update_request_ok p =
     (length_between 2 200 (pu_product_name p) \<and> price_positive (pu_price p) \<and> 0 \<le> pu_stock p \<and>
      pred_option (\<lambda>s. length s \<le> 50) (pu_category p) \<and> 0 \<le> pu_status p \<and> pu_status p \<le> 1)"

definition status_request_ok :: "int \<Rightarrow> bool" where
  "status_request_ok status = (0 \<le> status \<and> status \<le> 1)"

definition stock_request_ok :: "int \<Rightarrow> bool" where
  "stock_request_ok stock = (0 \<le> stock)"

definition reserve_request_ok :: "int \<Rightarrow> bool" where
  "reserve_request_ok quantity = (0 < quantity)"

definition coupon_request_ok :: "coupon_request \<Rightarrow> bool" where
  "coupon_request_ok p =
     (price_positive (cq_order_amount p) \<and> pred_option (length_between 1 64) (cq_order_no p))"

text \<open>\<^verbatim>\<open>ProductResponse\<close> has the columns of the model; \<^verbatim>\<open>ProductInternalResponse\<close> leaves out two.\<close>

definition internal_response_of :: "product \<Rightarrow> product_internal_response" where
  "internal_response_of p =
     \<lparr>ir_id = p_id p, ir_product_name = p_product_name p, ir_product_code = p_product_code p,
      ir_price = p_price p, ir_stock = p_stock p, ir_status = p_status p\<rparr>"

section \<open>\<open>core/security.py\<close>\<close>

definition token_is_admin :: "('r, 'd) product_env \<Rightarrow> string \<Rightarrow> bool" where
  "token_is_admin E token =
     (case jwt_decode (pe_jwt E) (pe_now E) token (ps_jwt_secret (pe_settings E))
             [ps_jwt_algorithm (pe_settings E)] of
        None \<Rightarrow> False
      | Some payload \<Rightarrow> dict_get payload ''role'' = Some (PStr ''ADMIN''))"

definition require_admin :: "('r, 'd) product_env \<Rightarrow> string option \<Rightarrow> string option \<Rightarrow> unit res" where
  "require_admin E x_user_role authorization =
     (if x_user_role = Some ''ADMIN'' then Inr ()
      else
        (case authorization of
           None \<Rightarrow> Inl (http_error 403 ''Admin role required'')
         | Some a \<Rightarrow>
             (if a = [] then Inl (http_error 403 ''Admin role required'')
              else (case partition_str (CHR '' '') a of
                      (scheme, _, token) \<Rightarrow>
                        (if lower_str scheme = ''bearer'' \<and> token \<noteq> [] \<and> token_is_admin E token then Inr ()
                         else Inl (http_error 403 ''Admin role required''))))))"

text \<open>\<^verbatim>\<open>hmac.compare_digest\<close> on two \<^verbatim>\<open>str\<close> raises a \<^verbatim>\<open>TypeError\<close> unless both are ASCII.\<close>

definition is_ascii :: "string \<Rightarrow> bool" where
  "is_ascii s = list_all (\<lambda>c. of_char c < (128 :: int)) s"

definition compare_digest :: "string \<Rightarrow> string \<Rightarrow> bool res" where
  "compare_digest a b = (if is_ascii a \<and> is_ascii b then Inr (a = b) else Inl TypeError)"

definition require_internal_caller :: "('r, 'd) product_env \<Rightarrow> string option \<Rightarrow> unit res" where
  "require_internal_caller E x_internal_token =
     (if x_internal_token = None \<or> x_internal_token = Some []
      then Inl (http_error 401 ''Internal token required'')
      else bind_res (compare_digest (the x_internal_token) (ps_internal_api_token (pe_settings E))) (\<lambda>same.
             if \<not> same then Inl (http_error 403 ''Invalid internal token'') else Inr ()))"

section \<open>The table \<open>t_product\<close>\<close>

text \<open>
  Column widths and ranges, the checks on price and stock, the primary key and the unique
  product code. MySQL rounds a price to the scale of \<^verbatim>\<open>DECIMAL(10,2)\<close>, ties away from zero.
\<close>

definition round_cents :: "decimal \<Rightarrow> decimal" where
  "round_cents d =
     Dec (if - 2 \<le> expo d then coeff d * 10 ^ nat (expo d + 2)
          else round_half_up (coeff d) (10 ^ nat (- 2 - expo d))) (- 2)"

definition product_coerce :: "product \<Rightarrow> product" where
  "product_coerce p = p\<lparr>p_price := round_cents (p_price p)\<rparr>"

definition product_columns_ok :: "product \<Rightarrow> bool" where
  "product_columns_ok p =
     (- int64_max - 1 \<le> p_id p \<and> p_id p \<le> int64_max \<and>
      length (p_product_name p) \<le> 200 \<and> length (p_product_code p) \<le> 50 \<and>
      pred_option (\<lambda>s. length s \<le> 50) (p_category p) \<and>
      \<bar>coeff (p_price p)\<bar> < 10 ^ 10 \<and>
      - 2147483648 \<le> p_stock p \<and> p_stock p \<le> 2147483647 \<and>
      - 128 \<le> p_status p \<and> p_status p \<le> 127 \<and>
      - 2147483648 \<le> p_version p \<and> p_version p \<le> 2147483647)"

definition product_check :: "(string \<Rightarrow> string \<Rightarrow> bool) \<Rightarrow> product list \<Rightarrow> py_exc option" where
  "product_check text_eq rows =
     (if \<not> list_all product_columns_ok rows then Some DataError
      else if \<not> list_all (\<lambda>p. 0 \<le> coeff (p_price p) \<and> 0 \<le> p_stock p) rows then Some OperationalError
      else if distinct (map p_id rows) \<and>
              unique_by (\<lambda>a b. text_eq (p_product_code a) (p_product_code b)) rows
           then None else Some IntegrityError)"

end
