(* ===== verification/Product_Cache.thy ===== *)
theory Product_Cache
  imports Product_Data Rate_Limit
begin

text \<open>
  The product service, second part: \<^verbatim>\<open>core/cache.py\<close>. The catalogue version and the cached
  JSON documents, the rate counter, the coupon balances (a Redis hash per user, claimed by a
  Lua script) and the coupon records of an order.
\<close>

section \<open>Keys\<close>

definition CATALOG_VERSION_KEY :: string where
  "CATALOG_VERSION_KEY = ''product-service:catalog:version''"

definition COUPON_BALANCE_KEY_PREFIX :: string where
  "COUPON_BALANCE_KEY_PREFIX = ''product-service:coupon:balance:user:''"

definition COUPON_ISSUE_RECORD_KEY_PREFIX :: string where
  "COUPON_ISSUE_RECORD_KEY_PREFIX = ''product-service:coupon:issue:user:''"

definition COUPON_CLAIM_RECORD_KEY_PREFIX :: string where
  "COUPON_CLAIM_RECORD_KEY_PREFIX = ''product-service:coupon:claim:user:''"

text \<open>\<^verbatim>\<open>base64.urlsafe_b64encode\<close> on bytes.\<close>

definition b64_char :: "int \<Rightarrow> char" where
  "b64_char n =
     (if n < 26 then char_of (65 + n) else if n < 52 then char_of (71 + n)
      else if n < 62 then char_of (n - 4) else if n = 62 then CHR ''-'' else CHR ''_'')"

fun urlsafe_b64encode :: "int list \<Rightarrow> string" where
  "urlsafe_b64encode [] = []"
| "urlsafe_b64encode [a] = [b64_char (a div 4), b64_char (a mod 4 * 16), CHR ''='', CHR ''='']"
| "urlsafe_b64encode [a, b] =
     [b64_char (a div 4), b64_char (a mod 4 * 16 + b div 16), b64_char (b mod 16 * 4), CHR ''='']"
| "urlsafe_b64encode (a # b # c # xs) =
     [b64_char (a div 4), b64_char (a mod 4 * 16 + b div 16), b64_char (b mod 16 * 4 + c div 64),
      b64_char (c mod 64)] @ urlsafe_b64encode xs"

definition encode_fragment :: "string option \<Rightarrow> string" where
  "encode_fragment value =
     (let raw = utf8_encode (case value of None \<Rightarrow> [] | Some v \<Rightarrow> v);
          text = urlsafe_b64encode raw
      in if text = [] then ''empty'' else text)"

definition list_cache_key :: "int \<Rightarrow> int \<Rightarrow> int \<Rightarrow> string option \<Rightarrow> bool \<Rightarrow> string" where
  "list_cache_key version page sz keyword include_off_sale =
     ''product-service:catalog:v'' @ int_str version @ '':list:'' @
     ''page='' @ int_str page @ '':size='' @ int_str sz @ '':keyword='' @ encode_fragment keyword @
     '':include_off_sale='' @ int_str (if include_off_sale then 1 else 0)"

definition detail_cache_key :: "int \<Rightarrow> int \<Rightarrow> bool \<Rightarrow> string" where
  "detail_cache_key version product_id internal =
     ''product-service:catalog:v'' @ int_str version @ '':'' @
     (if internal then ''internal'' else ''public'') @ '':product:'' @ int_str product_id"

definition make_coupon_balance_key :: "int \<Rightarrow> string" where
  "make_coupon_balance_key user_id = COUPON_BALANCE_KEY_PREFIX @ int_str user_id"

definition make_coupon_issue_record_key :: "int \<Rightarrow> string \<Rightarrow> string" where
  "make_coupon_issue_record_key user_id order_no =
     COUPON_ISSUE_RECORD_KEY_PREFIX @ int_str user_id @ '':order:'' @ order_no"

definition make_coupon_claim_record_key :: "int \<Rightarrow> string \<Rightarrow> string" where
  "make_coupon_claim_record_key user_id order_no =
     COUPON_CLAIM_RECORD_KEY_PREFIX @ int_str user_id @ '':order:'' @ order_no"

section \<open>Redis access\<close>

definition ps_get_redis_client :: "('r, 'd) product_env \<Rightarrow> 'r redis option" where
  "ps_get_redis_client E = (if \<not> ps_redis_enabled (pe_settings E) then None else Some (pe_redis E))"

definition ps_safe_execute ::
  "('r, 'd) product_env \<Rightarrow> ('r redis \<Rightarrow> ('r, 'a option) rcmd) \<Rightarrow> 'r \<Rightarrow> 'a option \<times> 'r" where
  "ps_safe_execute E func = safe_execute (ps_get_redis_client E) func"

definition get_catalog_version :: "('r, 'd) product_env \<Rightarrow> ('r, int) prog" where
  "get_catalog_version E s =
     (case ps_safe_execute E (\<lambda>client. redis_get client CATALOG_VERSION_KEY) s of
        (None, s1) \<Rightarrow>
          (Inr 0, snd (ps_safe_execute E (\<lambda>client. some_reply (redis_setnx client CATALOG_VERSION_KEY ''0'')) s1))
      | (Some value, s1) \<Rightarrow> (py_int (PStr value), s1))"

definition bump_catalog_version :: "('r, 'd) product_env \<Rightarrow> ('r, unit) prog" where
  "bump_catalog_version E s =
     (Inr (), snd (ps_safe_execute E (\<lambda>client. some_reply (redis_incr client CATALOG_VERSION_KEY)) s))"

definition make_product_list_cache_key ::
  "('r, 'd) product_env \<Rightarrow> int \<Rightarrow> int \<Rightarrow> string option \<Rightarrow> bool \<Rightarrow> ('r, string) prog" where
  "make_product_list_cache_key E page sz keyword include_off_sale =
     bind_prog (get_catalog_version E) (\<lambda>version.
       return_prog (list_cache_key version page sz keyword include_off_sale))"

definition make_product_detail_cache_key ::
  "('r, 'd) product_env \<Rightarrow> int \<Rightarrow> bool \<Rightarrow> ('r, string) prog" where
  "make_product_detail_cache_key E product_id internal =
     bind_prog (get_catalog_version E) (\<lambda>version.
       return_prog (detail_cache_key version product_id internal))"

text \<open>\<^verbatim>\<open>json.loads(value)\<close>, with no value or an empty one read as \<^verbatim>\<open>None\<close>.\<close>

definition loads_value :: "string option \<Rightarrow> pyval option res" where
  "loads_value value =
     (case value of
        None \<Rightarrow> Inr None
      | Some text \<Rightarrow>
          (if text = [] then Inr None
           else (case json_loads text of None \<Rightarrow> Inl JSONDecodeError | Some v \<Rightarrow> Inr (Some v))))"

definition get_cached_json :: "('r, 'd) product_env \<Rightarrow> string \<Rightarrow> ('r, pyval option) prog" where
  "get_cached_json E key s =
     (case ps_safe_execute E (\<lambda>client. redis_get client key) s of
        (value, s') \<Rightarrow> (loads_value value, s'))"

text \<open>
  \<^verbatim>\<open>_safe_execute(..., lambda client: client.setex(key, ttl, json.dumps(payload)))\<close>: whether the
  key was set. Without a client nothing is serialised.
\<close>

definition setex_json :: "('r, 'd) product_env \<Rightarrow> string \<Rightarrow> int \<Rightarrow> pyval \<Rightarrow> ('r, bool) prog" where
  "setex_json E key ttl payload s =
     (case ps_get_redis_client E of
        None \<Rightarrow> (Inr False, s)
      | Some _ \<Rightarrow>
          (case json_dumps payload of
             Inl e \<Rightarrow> (Inl e, s)
           | Inr text \<Rightarrow>
               (case ps_safe_execute E (\<lambda>client. some_reply (redis_setex client key ttl text)) s of
                  (reply, s') \<Rightarrow> (Inr (reply = Some True), s'))))"

definition set_cached_json :: "('r, 'd) product_env \<Rightarrow> string \<Rightarrow> pyval \<Rightarrow> int option \<Rightarrow> ('r, unit) prog" where
  "set_cached_json E key payload ttl_seconds =
     (let ttl = (case ttl_seconds of
                   None \<Rightarrow> ps_redis_cache_ttl_seconds (pe_settings E)
                 | Some n \<Rightarrow> (if n = 0 then ps_redis_cache_ttl_seconds (pe_settings E) else n))
      in bind_prog (setex_json E key ttl payload) (\<lambda>_. return_prog ()))"

definition ps_increment_rate_limit :: "('r, 'd) product_env \<Rightarrow> string \<Rightarrow> int \<Rightarrow> 'r \<Rightarrow> int option \<times> 'r" where
  "ps_increment_rate_limit E key window_seconds s =
     (case ps_safe_execute E (\<lambda>client. some_reply (redis_incr client key)) s of
        (None, s1) \<Rightarrow> (None, s1)
      | (Some current, s1) \<Rightarrow>
          (if current = 1
           then (Some current, snd (ps_safe_execute E (\<lambda>client. some_reply (redis_expire client key window_seconds)) s1))
           else (Some current, s1)))"

section \<open>Coupon balances\<close>

text \<open>
  The script \<^verbatim>\<open>CLAIM_BEST_COUPON_LUA\<close>. \<^verbatim>\<open>tonumber\<close> is modelled on the integers that \<^verbatim>\<open>HINCRBY\<close>
  itself writes; a field holding anything else, which no operation of the service writes,
  makes the script fail.
\<close>

fun claim_loop :: "string \<Rightarrow> string list \<Rightarrow> string rspec" where
  "claim_loop key [] t ks = (Inr ''0'', ks)"
| "claim_loop key (coupon_type # rest) t ks =
     (case ks_hget key coupon_type t ks of
        (Inl e, ks') \<Rightarrow> (Inl e, ks')
      | (Inr v, ks') \<Rightarrow>
          (case (case v of None \<Rightarrow> Some 0 | Some text \<Rightarrow> redis_int text) of
             None \<Rightarrow> (Inl ResponseError, ks')
           | Some qty \<Rightarrow>
               (if 0 < qty
                then (case ks_hincrby key coupon_type (- 1) t ks' of
                        (Inl e, ks'') \<Rightarrow> (Inl e, ks'')
                      | (Inr _, ks'') \<Rightarrow> (Inr coupon_type, ks''))
                else claim_loop key rest t ks')))"

definition CLAIM_BEST_COUPON_LUA :: script where
  "CLAIM_BEST_COUPON_LUA keys args = claim_loop (hd keys) args"

definition issue_coupon_balance :: "('r, 'd) product_env \<Rightarrow> int \<Rightarrow> int \<Rightarrow> 'r \<Rightarrow> int option \<times> 'r" where
  "issue_coupon_balance E user_id coupon_type =
     (let key = make_coupon_balance_key user_id
      in ps_safe_execute E (\<lambda>client. some_reply (redis_hincrby client key (int_str coupon_type) 1)))"

definition claim_best_coupon_balance :: "('r, 'd) product_env \<Rightarrow> int \<Rightarrow> int list \<Rightarrow> ('r, int option) prog" where
  "claim_best_coupon_balance E user_id coupon_types s =
     (if coupon_types = [] then (Inr (Some 0), s)
      else
        (let key = make_coupon_balance_key user_id
         in case ps_safe_execute E (\<lambda>client. some_reply
                   (redis_eval client CLAIM_BEST_COUPON_LUA [key] (map int_str coupon_types))) s of
              (None, s') \<Rightarrow> (Inr None, s')
            | (Some raw, s') \<Rightarrow> (bind_res (py_int (PStr raw)) (\<lambda>n. Inr (Some n)), s')))"

definition snapshot_of :: "(string \<times> string) list \<Rightarrow> (int \<times> int) list" where
  "snapshot_of raw =
     foldl (\<lambda>snapshot (raw_coupon_type, raw_quantity).
              (case (int_of_str raw_coupon_type, int_of_str raw_quantity) of
                 (Some ct, Some n) \<Rightarrow> AList.update ct n snapshot
               | _ \<Rightarrow> snapshot)) [] raw"

definition get_coupon_balance_snapshot ::
  "('r, 'd) product_env \<Rightarrow> int \<Rightarrow> 'r \<Rightarrow> (int \<times> int) list option \<times> 'r" where
  "get_coupon_balance_snapshot E user_id s =
     (let key = make_coupon_balance_key user_id
      in case ps_safe_execute E (\<lambda>client. some_reply (redis_hgetall client key)) s of
           (None, s') \<Rightarrow> (None, s')
         | (Some raw, s') \<Rightarrow> (Some (snapshot_of raw), s'))"

section \<open>Coupon records\<close>

definition set_coupon_issue_record ::
  "('r, 'd) product_env \<Rightarrow> int \<Rightarrow> string \<Rightarrow> pyval \<Rightarrow> int \<Rightarrow> ('r, bool) prog" where
  "set_coupon_issue_record E user_id order_no payload ttl_seconds =
     setex_json E (make_coupon_issue_record_key user_id order_no) ttl_seconds payload"

definition set_coupon_claim_record ::
  "('r, 'd) product_env \<Rightarrow> int \<Rightarrow> string \<Rightarrow> pyval \<Rightarrow> int \<Rightarrow> ('r, bool) prog" where
  "set_coupon_claim_record E user_id order_no payload ttl_seconds =
     setex_json E (make_coupon_claim_record_key user_id order_no) ttl_seconds payload"

definition get_coupon_issue_record :: "('r, 'd) product_env \<Rightarrow> int \<Rightarrow> string \<Rightarrow> ('r, pyval option) prog" where
  "get_coupon_issue_record E user_id order_no =
     get_cached_json E (make_coupon_issue_record_key user_id order_no)"

definition get_coupon_claim_record :: "('r, 'd) product_env \<Rightarrow> int \<Rightarrow> string \<Rightarrow> ('r, pyval option) prog" where
  "get_coupon_claim_record E user_id order_no =
     get_cached_json E (make_coupon_claim_record_key user_id order_no)"

end
