(* ===== verification/Product_Catalog.thy ===== *)
theory Product_Catalog
  imports Product_Data
begin

text \<open>
  The product service, third part: the catalogue and stock operations of
  \<^verbatim>\<open>services/product_service.py\<close> on the database, and what they do to the stock.
\<close>

section \<open>Operations\<close>

definition product_where :: "('r, 'd) product_env \<Rightarrow> string option \<Rightarrow> bool \<Rightarrow> product \<Rightarrow> bool" where
  "product_where E keyword include_off_sale p =
     ((case keyword of
         None \<Rightarrow> True
       | Some k \<Rightarrow> (k = [] \<or> pe_ilike E (''%'' @ k @ ''%'') (p_product_name p))) \<and>
      (include_off_sale \<or> p_status p = 1))"

definition paginate_products ::
  "('r, 'd) product_env \<Rightarrow> int \<Rightarrow> int \<Rightarrow> string option \<Rightarrow> bool \<Rightarrow> ('d, int \<times> product list) prog" where
  "paginate_products E page sz keyword include_off_sale =
     bind_prog (sql_count (pe_db E) (product_where E keyword include_off_sale)) (\<lambda>total.
     bind_prog (sql_page (pe_db E) (product_where E keyword include_off_sale) p_id True ((page - 1) * sz) sz) (\<lambda>items.
       return_prog (total, items)))"

definition get_product_or_404 :: "('r, 'd) product_env \<Rightarrow> int \<Rightarrow> ('d, product) prog" where
  "get_product_or_404 E product_id =
     bind_prog (one_or_none (pe_db E) (\<lambda>p. p_id p = product_id)) (\<lambda>found.
       (case found of
          None \<Rightarrow> raise_prog (http_error 404 ''Product not found'')
        | Some product \<Rightarrow> return_prog product))"

text \<open>\<^verbatim>\<open>Product(**payload.model_dump())\<close>; the key comes from the database.\<close>

definition new_product :: "product_create_request \<Rightarrow> int \<Rightarrow> product" where
  "new_product payload key =
     \<lparr>p_id = key, p_product_name = cr_product_name payload, p_product_code = cr_product_code payload,
      p_price = cr_price payload, p_stock = cr_stock payload, p_category = cr_category payload,
      p_status = cr_status payload, p_version = 0\<rparr>"

definition create_product :: "('r, 'd) product_env \<Rightarrow> product_create_request \<Rightarrow> ('d, product) prog" where
  "create_product E payload =
     bind_prog (one_or_none (pe_db E) (\<lambda>p. pe_text_eq E (p_product_code p) (cr_product_code payload))) (\<lambda>exists.
       (case exists of
          Some _ \<Rightarrow> raise_prog (http_error 409 ''Product code already exists'')
        | None \<Rightarrow>
            bind_prog (sql_add (pe_db E) (new_product payload)) (\<lambda>_.
            bind_prog (sql_commit (pe_db E)) (\<lambda>keys.
              refresh (pe_db E) (\<lambda>p. p_id p = hd keys)))))"

text \<open>
  \<^verbatim>\<open>db.add(product)\<close>, \<^verbatim>\<open>db.commit()\<close>, \<^verbatim>\<open>db.refresh(product)\<close> of a loaded product whose attributes
  were assigned.
\<close>

definition save_product :: "('r, 'd) product_env \<Rightarrow> product \<Rightarrow> (product \<Rightarrow> product) \<Rightarrow> ('d, product) prog" where
  "save_product E product assign =
     bind_prog (sql_modify (pe_db E) (\<lambda>p. p_id p = p_id product) assign) (\<lambda>_.
     bind_prog (sql_commit (pe_db E)) (\<lambda>_.
       refresh (pe_db E) (\<lambda>p. p_id p = p_id product)))"

definition update_product ::
  "('r, 'd) product_env \<Rightarrow> product \<Rightarrow> product_update_request \<Rightarrow> ('d, product) prog" where
  "update_product E product payload =
     save_product E product (\<lambda>p.
       p\<lparr>p_product_name := set_col (p_product_name product) (pu_product_name payload) (p_product_name p),
         p_price := (if dec_eq (pu_price payload) (p_price product) then p_price p else pu_price payload),
         p_stock := set_col (p_stock product) (pu_stock payload) (p_stock p),
         p_category := set_col (p_category product) (pu_category payload) (p_category p),
         p_status := set_col (p_status product) (pu_status payload) (p_status p),
         p_version := set_col (p_version product) (p_version product + 1) (p_version p)\<rparr>)"

definition update_product_status :: "('r, 'd) product_env \<Rightarrow> product \<Rightarrow> int \<Rightarrow> ('d, product) prog" where
  "update_product_status E product status_value =
     save_product E product (\<lambda>p.
       p\<lparr>p_status := set_col (p_status product) status_value (p_status p),
         p_version := set_col (p_version product) (p_version product + 1) (p_version p)\<rparr>)"

definition update_product_stock :: "('r, 'd) product_env \<Rightarrow> product \<Rightarrow> int \<Rightarrow> ('d, product) prog" where
  "update_product_stock E product stock =
     save_product E product (\<lambda>p.
       p\<lparr>p_stock := set_col (p_stock product) stock (p_stock p),
         p_version := set_col (p_version product) (p_version product + 1) (p_version p)\<rparr>)"

definition reserve_stock :: "('r, 'd) product_env \<Rightarrow> int \<Rightarrow> int \<Rightarrow> ('d, product) prog" where
  "reserve_stock E product_id quantity =
     bind_prog (sql_execute_update (pe_db E)
       (\<lambda>p. p_id p = product_id \<and> p_status p = 1 \<and> quantity \<le> p_stock p)
       (\<lambda>p. p\<lparr>p_stock := p_stock p - quantity, p_version := p_version p + 1\<rparr>)) (\<lambda>rowcount.
       (if rowcount \<noteq> 1
        then bind_prog (sql_rollback (pe_db E)) (\<lambda>_.
               raise_prog (http_error 409 ''Insufficient stock or product unavailable''))
        else bind_prog (sql_commit (pe_db E)) (\<lambda>_.
               get_product_or_404 E product_id)))"

definition release_stock :: "('r, 'd) product_env \<Rightarrow> int \<Rightarrow> int \<Rightarrow> ('d, product) prog" where
  "release_stock E product_id quantity =
     bind_prog (sql_execute_update (pe_db E)
       (\<lambda>p. p_id p = product_id)
       (\<lambda>p. p\<lparr>p_stock := p_stock p + quantity, p_version := p_version p + 1\<rparr>)) (\<lambda>rowcount.
       (if rowcount \<noteq> 1
        then bind_prog (sql_rollback (pe_db E)) (\<lambda>_.
               raise_prog (http_error 404 ''Product not found''))
        else bind_prog (sql_commit (pe_db E)) (\<lambda>_.
               get_product_or_404 E product_id)))"

section \<open>The operations on a session and on its table\<close>

definition products_on_table ::
  "('r, 'd) product_env \<Rightarrow> ('r, product table) product_env" where
  "products_on_table E =
     \<lparr>pe_settings = pe_settings E, pe_redis = pe_redis E,
      pe_db = table_sql (product_check (pe_text_eq E)) product_coerce,
      pe_text_eq = pe_text_eq E, pe_ilike = pe_ilike E, pe_jwt = pe_jwt E, pe_pydantic = pe_pydantic E,
      pe_now = pe_now E,
      pe_random = pe_random E\<rparr>"

lemma products_on_table_simps [simp]:
  "pe_db (products_on_table E) = table_sql (product_check (pe_text_eq E)) product_coerce"
  "pe_text_eq (products_on_table E) = pe_text_eq E" "pe_ilike (products_on_table E) = pe_ilike E"
  by (simp_all add: products_on_table_def)

locale product_session =
  sql_session "pe_db E" view up steady "product_check (pe_text_eq E)" product_coerce
  for E :: "('r, 'd) product_env" and view up steady
begin

abbreviation T where
  "T \<equiv> products_on_table E"

lemma sim_get_product: "simulates steady view (get_product_or_404 E i) (get_product_or_404 T i)"
  unfolding get_product_or_404_def products_on_table_simps
  by (rule simulates_bind [OF simulates_one_or_none]) (auto split: option.split intro!: simulates_intros)

lemma sim_create: "simulates steady view (create_product E p) (create_product T p)"
  unfolding create_product_def products_on_table_simps
  by (rule simulates_bind [OF simulates_one_or_none]) (auto split: option.split intro!: simulates_intros)

lemma sim_save: "simulates steady view (save_product E p f) (save_product T p f)"
  unfolding save_product_def products_on_table_simps by (intro simulates_intros)

lemma sim_updates:
  "simulates steady view (update_product E p q) (update_product T p q)"
  "simulates steady view (update_product_status E p st) (update_product_status T p st)"
  "simulates steady view (update_product_stock E p n) (update_product_stock T p n)"
  unfolding update_product_def update_product_status_def update_product_stock_def by (rule sim_save)+

lemma sim_reserve: "simulates steady view (reserve_stock E i q) (reserve_stock T i q)"
  unfolding reserve_stock_def products_on_table_simps
  by (rule simulates_bind [OF simulates_calls(3)]) (auto intro!: simulates_intros sim_get_product)

lemma sim_release: "simulates steady view (release_stock E i q) (release_stock T i q)"
  unfolding release_stock_def products_on_table_simps
  by (rule simulates_bind [OF simulates_calls(3)]) (auto intro!: simulates_intros sim_get_product)

end

section \<open>Stock\<close>

text \<open>What the database guarantees of the rows it holds.\<close>

definition product_table_ok :: "(string \<Rightarrow> string \<Rightarrow> bool) \<Rightarrow> product list \<Rightarrow> bool" where
  "product_table_ok eq rows \<longleftrightarrow> product_check eq rows = None \<and> list_all (\<lambda>p. product_coerce p = p) rows"

definition replace_product :: "product \<Rightarrow> product \<Rightarrow> product list \<Rightarrow> product list" where
  "replace_product p p' rows = map (\<lambda>r. if r = p then p' else r) rows"

lemma product_ids: "product_check eq rows = None \<Longrightarrow> distinct (map p_id rows)"
  by (auto simp: product_check_def split: if_splits)

lemma filter_product_id:
  assumes "product_check eq rows = None" and "p \<in> set rows"
  shows "filter (\<lambda>r. p_id r = p_id p) rows = [p]"
proof -
  have "length (filter (\<lambda>r. p_id r = p_id p) rows) \<le> 1"
    by (rule distinct_filter_key [OF product_ids [OF assms(1)]])
  moreover have "p \<in> set (filter (\<lambda>r. p_id r = p_id p) rows)" using assms(2) by simp
  ultimately show ?thesis
    using at_most_one [of "filter (\<lambda>r. p_id r = p_id p) rows"] by (auto simp del: set_filter)
qed

lemma same_product_id:
  "product_check eq rows = None \<Longrightarrow> p \<in> set rows \<Longrightarrow> r \<in> set rows \<Longrightarrow> p_id r = p_id p \<Longrightarrow> r = p"
  by (metis (no_types, lifting) distinct_map inj_onD product_ids)

lemma update_one_product:
  assumes "product_check eq rows = None" and "p \<in> set rows" and "P p" and "\<And>r. P r \<Longrightarrow> p_id r = p_id p"
  shows "update_rows coerce P f rows = replace_product p (coerce (f p)) rows"
    and "filter P rows = [p]"
proof -
  have P: "P r \<longleftrightarrow> r = p" if "r \<in> set rows" for r
    using assms same_product_id that by metis
  then show "update_rows coerce P f rows = replace_product p (coerce (f p)) rows"
    by (simp add: update_rows_def replace_product_def)
  have "filter P rows = filter (\<lambda>r. p_id r = p_id p) rows"
    using P assms(1,2) same_product_id by (metis (mono_tags, lifting) filter_cong)
  then show "filter P rows = [p]" by (simp add: filter_product_id [OF assms(1,2)])
qed

lemma get_product_table:
  assumes "product_check eq rows = None"
  shows "p \<in> set rows \<Longrightarrow> get_product_or_404 (products_on_table E) (p_id p) (table_of rows n) = (Inr p, table_of rows n)"
    and "p_id ` set rows \<inter> {i} = {} \<Longrightarrow>
      get_product_or_404 (products_on_table E) i (table_of rows n) = (Inl (http_error 404 ''Product not found''), table_of rows n)"
proof -
  show "p \<in> set rows \<Longrightarrow> get_product_or_404 (products_on_table E) (p_id p) (table_of rows n) = (Inr p, table_of rows n)"
    using filter_product_id [OF assms] by (simp add: get_product_or_404_def bind_prog_def table_one_or_none)
  assume "p_id ` set rows \<inter> {i} = {}"
  then have "filter (\<lambda>p. p_id p = i) rows = []" by (auto simp: filter_empty_conv)
  then show "get_product_or_404 (products_on_table E) i (table_of rows n) =
      (Inl (http_error 404 ''Product not found''), table_of rows n)"
    by (simp add: get_product_or_404_def bind_prog_def table_one_or_none)
qed

text \<open>The common shape of reservation and release.\<close>

definition stock_update ::
  "('r, 'd) product_env \<Rightarrow> int \<Rightarrow> (product \<Rightarrow> bool) \<Rightarrow> (product \<Rightarrow> product) \<Rightarrow> py_exc \<Rightarrow> ('d, product) prog" where
  "stock_update E i P f e =
     bind_prog (sql_execute_update (pe_db E) P f) (\<lambda>rowcount.
       (if rowcount \<noteq> 1 then bind_prog (sql_rollback (pe_db E)) (\<lambda>_. raise_prog e)
        else bind_prog (sql_commit (pe_db E)) (\<lambda>_. get_product_or_404 E i)))"

definition can_reserve :: "int \<Rightarrow> int \<Rightarrow> product \<Rightarrow> bool" where
  "can_reserve i q p \<longleftrightarrow> p_id p = i \<and> p_status p = 1 \<and> q \<le> p_stock p"

definition moved_stock :: "int \<Rightarrow> product \<Rightarrow> product" where
  "moved_stock q p = p\<lparr>p_stock := p_stock p + q, p_version := p_version p + 1\<rparr>"

lemma reserve_as_update:
  "reserve_stock E i q = stock_update E i (can_reserve i q) (moved_stock (- q))
     (http_error 409 ''Insufficient stock or product unavailable'')"
  by (simp add: reserve_stock_def stock_update_def can_reserve_def [abs_def] moved_stock_def [abs_def])

lemma release_as_update:
  "release_stock E i q = stock_update E i (\<lambda>p. p_id p = i) (moved_stock q) (http_error 404 ''Product not found'')"
  by (simp add: release_stock_def stock_update_def moved_stock_def [abs_def])

lemma product_coerce_iff: "product_coerce p = p \<longleftrightarrow> round_cents (p_price p) = p_price p"
  by (cases p) (simp add: product_coerce_def)

lemma moved_stock_simps [simp]:
  "p_id (moved_stock q p) = p_id p" "p_stock (moved_stock q p) = p_stock p + q"
  "p_product_code (moved_stock q p) = p_product_code p" "p_price (moved_stock q p) = p_price p"
  by (simp_all add: moved_stock_def)

lemma replace_product_id: "p \<in> set rows \<Longrightarrow> replace_product p p rows = rows"
  by (simp add: replace_product_def map_idI)

lemma stock_update_table:
  assumes ok: "product_table_ok (pe_text_eq E) rows" and P: "\<And>r. P r \<Longrightarrow> p_id r = i"
  shows "filter P rows = [] \<Longrightarrow> stock_update (products_on_table E) i P (moved_stock q) e (table_of rows n) = (Inl e, table_of rows n)"
    and "p \<in> set rows \<Longrightarrow> P p \<Longrightarrow>
      stock_update (products_on_table E) i P (moved_stock q) e (table_of rows n) =
        (case product_check (pe_text_eq E) (replace_product p (moved_stock q p) rows) of
           None \<Rightarrow> (Inr (moved_stock q p), table_of (replace_product p (moved_stock q p) rows) n)
         | Some e' \<Rightarrow> (Inl e', table_of rows n))"
proof -
  let ?eq = "pe_text_eq E"
  have chk: "product_check ?eq rows = None" using ok by (simp add: product_table_ok_def)
  show "stock_update (products_on_table E) i P (moved_stock q) e (table_of rows n) = (Inl e, table_of rows n)"
    if none: "filter P rows = []"
  proof -
    have "update_rows product_coerce P (moved_stock q) rows = rows"
      using none by (auto simp: update_rows_def filter_empty_conv intro: map_idI)
    then show ?thesis
      using chk none by (simp add: stock_update_def bind_prog_def tb_update_def checked_def table_of_def)
  qed
  assume p: "p \<in> set rows" "P p"
  let ?p' = "moved_stock q p"
  let ?rows' = "replace_product p ?p' rows"
  have "product_coerce ?p' = ?p'" using ok p(1) by (simp add: product_table_ok_def list_all_iff product_coerce_iff)
  then have upd': "update_rows product_coerce P (moved_stock q) rows = ?rows'" "filter P rows = [p]"
    using update_one_product [OF chk p(1), of P, OF p(2)] P p(2) by (metis, metis)
  show "stock_update (products_on_table E) i P (moved_stock q) e (table_of rows n) =
      (case product_check ?eq ?rows' of None \<Rightarrow> (Inr ?p', table_of ?rows' n) | Some e' \<Rightarrow> (Inl e', table_of rows n))"
  proof (cases "product_check ?eq ?rows'")
    case None
    have "?p' \<in> set ?rows'" using p(1) by (force simp: replace_product_def)
    from get_product_table(1) [OF None this, of E n] P [OF p(2)] None
    show ?thesis
      by (simp add: stock_update_def bind_prog_def tb_update_def checked_def upd' tb_commit_def)
        (simp add: table_of_def)
  next
    case (Some e')
    then show ?thesis
      by (simp add: stock_update_def bind_prog_def tb_update_def checked_def upd')
  qed
qed

lemma check_replaced:
  assumes "product_check eq rows = None" and "p \<in> set rows"
    and "p_id p' = p_id p" and "p_product_code p' = p_product_code p"
    and "product_columns_ok p'" and "0 \<le> p_stock p'" and "0 \<le> coeff (p_price p')"
  shows "product_check eq (replace_product p p' rows) = None"
proof -
  let ?g = "\<lambda>r. if r = p then p' else r"
  have "p_id \<circ> ?g = p_id" using assms(3) by auto
  then have "distinct (map p_id (map ?g rows))"
    using product_ids [OF assms(1)] by simp
  moreover have "unique_by (\<lambda>a b. eq (p_product_code a) (p_product_code b)) (map ?g rows)"
    using assms(1,4) by (subst unique_by_map) (auto simp: product_check_def split: if_splits)
  moreover have "list_all product_columns_ok (map ?g rows)"
    "list_all (\<lambda>p. 0 \<le> coeff (p_price p) \<and> 0 \<le> p_stock p) (map ?g rows)"
    using assms(1,5-7) by (auto simp: product_check_def list_all_iff split: if_splits)
  ultimately show ?thesis by (simp add: product_check_def replace_product_def)
qed

lemma table_ok_replaced:
  "product_table_ok eq rows \<Longrightarrow> product_check eq (replace_product p p' rows) = None \<Longrightarrow> product_coerce p' = p' \<Longrightarrow>
     product_table_ok eq (replace_product p p' rows)"
  by (auto simp: product_table_ok_def replace_product_def list_all_iff)

text \<open>
  C21: reserve_stock succeeds exactly for a product on sale with enough stock, lowers only that
  row's stock and raises its version by one; otherwise it answers 409 and changes nothing.
\<close>

theorem reserve_stock_outcome:
  assumes "product_session E view up steady" and "steady d" and "view d = table_of rows n"
    and "product_table_ok (pe_text_eq E) rows" and "list_all (\<lambda>p. p_version p < 2147483647) rows" and "0 < q"
    and "reserve_stock E i q d = (r, d')"
  shows "(\<exists>p. p \<in> set rows \<and> can_reserve i q p \<and> r = Inr (moved_stock (- q) p) \<and>
              view d' = table_of (replace_product p (moved_stock (- q) p) rows) n) \<or>
         filter (can_reserve i q) rows = [] \<and>
         r = Inl (http_error 409 ''Insufficient stock or product unavailable'') \<and> view d' = table_of rows n"
proof -
  let ?T = "products_on_table E"
  have chk: "product_check (pe_text_eq E) rows = None" using assms(4) by (simp add: product_table_ok_def)
  have P: "\<And>r. can_reserve i q r \<Longrightarrow> p_id r = i" by (simp add: can_reserve_def)
  note sim = simulates_run [OF product_session.sim_reserve [OF assms(1)] assms(2,3) _ assms(7)]
  show ?thesis
  proof (cases "filter (can_reserve i q) rows = []")
    case True
    from sim [unfolded reserve_as_update, OF stock_update_table(1) [OF assms(4) P True]] True
    show ?thesis by simp
  next
    case False
    then obtain p where p: "p \<in> set rows" "can_reserve i q p" by (auto simp: filter_empty_conv)
    have "product_columns_ok p" "0 \<le> coeff (p_price p)"
      using chk p(1) by (auto simp: product_check_def list_all_iff split: if_splits)
    then have "product_check (pe_text_eq E) (replace_product p (moved_stock (- q) p) rows) = None"
      using p assms(5,6)
      by (intro check_replaced [OF chk p(1)])
        (auto simp: can_reserve_def list_all_iff product_columns_ok_def moved_stock_def)
    with stock_update_table(2) [where P = "can_reserve i q", OF assms(4) P p] sim [unfolded reserve_as_update] p
    show ?thesis by auto
  qed
qed

text \<open>Any sequence of reservations and releases, of any products.\<close>

datatype stock_op = Reserve int int | Release int int

fun stock_step :: "('r, 'd) product_env \<Rightarrow> stock_op \<Rightarrow> ('d, product) prog" where
  "stock_step E (Reserve i q) = reserve_stock E i q"
| "stock_step E (Release i q) = release_stock E i q"

fun stock_run :: "('r, 'd) product_env \<Rightarrow> stock_op list \<Rightarrow> 'd \<Rightarrow> product res list \<times> 'd" where
  "stock_run E [] d = ([], d)"
| "stock_run E (op # ops) d =
     (case stock_step E op d of (r, d1) \<Rightarrow> (case stock_run E ops d1 of (rs, d2) \<Rightarrow> (r # rs, d2)))"

fun op_effect :: "int \<Rightarrow> stock_op \<Rightarrow> product res \<Rightarrow> int" where
  "op_effect i (Reserve j q) (Inr p) = (if i = j then - q else 0)"
| "op_effect i (Release j q) (Inr p) = (if i = j then q else 0)"
| "op_effect i op (Inl e) = 0"

definition stock_level :: "int \<Rightarrow> product list \<Rightarrow> int" where
  "stock_level i rows = sum_list (map p_stock (filter (\<lambda>p. p_id p = i) rows))"

lemma stock_level_replaced:
  assumes "product_check eq rows = None" and "product_check eq (replace_product p (moved_stock q p) rows) = None" and "p \<in> set rows"
  shows "stock_level j (replace_product p (moved_stock q p) rows) = stock_level j rows + (if j = p_id p then q else 0)"
proof (cases "j = p_id p")
  case True
  have "moved_stock q p \<in> set (replace_product p (moved_stock q p) rows)"
    using assms(3) by (force simp: replace_product_def)
  from filter_product_id [OF assms(2) this] filter_product_id [OF assms(1,3)] True
  show ?thesis by (simp add: stock_level_def)
next
  case False
  then have "filter (\<lambda>r. p_id r = j) (replace_product p (moved_stock q p) rows) = filter (\<lambda>r. p_id r = j) rows"
    by (induction rows) (auto simp: replace_product_def)
  with False show ?thesis by (simp add: stock_level_def)
qed

lemma stock_update_effect:
  assumes ok: "product_table_ok (pe_text_eq E) rows" and P: "\<And>r. P r \<Longrightarrow> p_id r = i"
    and run: "stock_update (products_on_table E) i P (moved_stock q) e (table_of rows n) = (r, t')"
  shows "\<exists>rows'. t' = table_of rows' n \<and> product_table_ok (pe_text_eq E) rows' \<and>
     stock_level j rows' = stock_level j rows + (case r of Inl _ \<Rightarrow> 0 | Inr _ \<Rightarrow> if j = i then q else 0)"
proof (cases "filter P rows = []")
  case True
  then show ?thesis using stock_update_table(1) [OF ok P] run ok by auto
next
  case False
  then obtain p where p: "p \<in> set rows" "P p" by (auto simp: filter_empty_conv)
  have chk: "product_check (pe_text_eq E) rows = None" and c: "product_coerce (moved_stock q p) = moved_stock q p"
    using ok p(1) by (auto simp: product_table_ok_def list_all_iff product_coerce_iff)
  let ?rows' = "replace_product p (moved_stock q p) rows"
  show ?thesis
  proof (cases "product_check (pe_text_eq E) ?rows'")
    case None
    from stock_level_replaced [OF chk None p(1), of j] table_ok_replaced [OF ok None c] P [OF p(2)]
      stock_update_table(2) [where P = P, OF ok P p] run None
    show ?thesis by (auto intro!: exI [of _ ?rows'])
  next
    case (Some e')
    with stock_update_table(2) [where P = P, OF ok P p] run ok show ?thesis by (auto intro!: exI [of _ rows])
  qed
qed

lemma stock_step_effect:
  assumes "product_session E view up steady" and "steady d" and "view d = table_of rows n"
    and "product_table_ok (pe_text_eq E) rows" and "stock_step E op d = (r, d')"
  shows "steady d' \<and> (\<exists>rows'. view d' = table_of rows' n \<and> product_table_ok (pe_text_eq E) rows' \<and>
     stock_level i rows' = stock_level i rows + op_effect i op r)"
proof (cases op)
  case (Reserve j q)
  obtain r1 t' where t: "reserve_stock (products_on_table E) j q (table_of rows n) = (r1, t')" by fastforce
  note sim = simulates_run [OF product_session.sim_reserve [OF assms(1)] assms(2,3) t, of r d']
  have "\<And>r. can_reserve j q r \<Longrightarrow> p_id r = j" by (simp add: can_reserve_def)
  from stock_update_effect [OF assms(4) this t [unfolded reserve_as_update], of i] sim assms(5) Reserve
  show ?thesis by (cases r) auto
next
  case (Release j q)
  obtain r1 t' where t: "release_stock (products_on_table E) j q (table_of rows n) = (r1, t')" by fastforce
  note sim = simulates_run [OF product_session.sim_release [OF assms(1)] assms(2,3) t, of r d']
  from stock_update_effect [OF assms(4) _ t [unfolded release_as_update], of i] sim assms(5) Release
  show ?thesis by (cases r) auto
qed

text \<open>
  C5: Over any sequence of reservations and releases the stock of a product changes by exactly
  the quantities of the operations that succeeded, never falls below zero, and the table keeps
  its schema.
\<close>

theorem stock_is_conserved:
  assumes "product_session E view up steady" and "steady d" and "view d = table_of rows n"
    and "product_table_ok (pe_text_eq E) rows" and "stock_run E ops d = (rs, d')"
  shows "\<exists>rows'. view d' = table_of rows' n \<and> product_table_ok (pe_text_eq E) rows' \<and>
           stock_level i rows' = stock_level i rows + sum_list (map2 (op_effect i) ops rs) \<and>
           0 \<le> stock_level i rows'"
  using assms(2-5)
proof (induction ops arbitrary: d rows rs)
  case Nil
  have "0 \<le> p_stock p" if "p \<in> set rows" for p
    using Nil.prems(3) that by (auto simp: product_table_ok_def product_check_def list_all_iff split: if_splits)
  then have "0 \<le> stock_level i rows" unfolding stock_level_def by (intro sum_list_nonneg) auto
  with Nil show ?case by auto
next
  case (Cons op ops)
  obtain r d1 where r: "stock_step E op d = (r, d1)" by fastforce
  obtain rs1 where rs: "stock_run E ops d1 = (rs1, d')" "rs = r # rs1"
    using Cons.prems(4) r by (auto split: prod.splits)
  obtain rows1 where 1: "steady d1" "view d1 = table_of rows1 n" "product_table_ok (pe_text_eq E) rows1"
      "stock_level i rows1 = stock_level i rows + op_effect i op r"
    using stock_step_effect [OF assms(1) Cons.prems(1-3) r, of i] by blast
  from Cons.IH [OF 1(1-3) rs(1)] 1(4) rs(2) show ?case by auto
qed

section \<open>Creating and updating products\<close>

lemma round_cents_idem: "round_cents (round_cents d) = round_cents d"
  by (simp add: round_cents_def)

lemma product_coerce_idem [simp]: "product_coerce (product_coerce p) = product_coerce p"
  by (simp add: product_coerce_def round_cents_idem)

lemma product_coerce_simps [simp]:
  "p_id (product_coerce p) = p_id p" "p_product_code (product_coerce p) = p_product_code p"
  "p_stock (product_coerce p) = p_stock p" "p_price (product_coerce p) = round_cents (p_price p)"
  "p_product_name (product_coerce p) = p_product_name p" "p_category (product_coerce p) = p_category p"
  "p_status (product_coerce p) = p_status p" "p_version (product_coerce p) = p_version p"
  by (simp_all add: product_coerce_def)

lemma round_cents_nonneg: "0 \<le> coeff d \<Longrightarrow> 0 \<le> coeff (round_cents d)"
  using round_half_up_bounds(3) [of "coeff d" "10 ^ nat (- 2 - expo d)"] by (simp add: round_cents_def)

definition price_fits :: "decimal \<Rightarrow> bool" where
  "price_fits d \<longleftrightarrow> coeff (round_cents d) < 10 ^ 10"

text \<open>
  C32: create_product answers 409 for a product code that exists and changes nothing, otherwise
  it appends the requested product, with the price rounded to cents, under the next key.
\<close>

theorem create_product_outcome:
  assumes "product_session E view up steady" and "equivp (pe_text_eq E)"
    and "steady d" and "view d = table_of rows n" and "product_table_ok (pe_text_eq E) rows"
    and "n \<notin> p_id ` set rows" and "0 < n" and "n \<le> int64_max" and "product_create_request_ok payload"
    and "price_fits (cr_price payload)" and "cr_stock payload \<le> 2147483647"
    and "create_product E payload d = (r, d')"
  shows "(\<exists>p. p \<in> set rows \<and> pe_text_eq E (p_product_code p) (cr_product_code payload)) \<and>
           r = Inl (http_error 409 ''Product code already exists'') \<and> view d' = table_of rows n \<or>
         filter (\<lambda>p. pe_text_eq E (p_product_code p) (cr_product_code payload)) rows = [] \<and>
           r = Inr (product_coerce (new_product payload n)) \<and>
           view d' = table_of (rows @ [product_coerce (new_product payload n)]) (n + 1) \<and>
           product_table_ok (pe_text_eq E) (rows @ [product_coerce (new_product payload n)])"
proof -
  let ?eq = "pe_text_eq E" and ?p = "product_coerce (new_product payload n)"
  let ?same = "filter (\<lambda>p. ?eq (p_product_code p) (cr_product_code payload)) rows"
  have chk: "product_check ?eq rows = None" using assms(5) by (simp add: product_table_ok_def)
  have s: "symp ?eq" and t: "transp ?eq" using assms(2) by (simp_all add: equivp_reflp_symp_transp)
  have "unique_by (\<lambda>a b. ?eq (p_product_code a) (p_product_code b)) rows"
    using chk by (auto simp: product_check_def split: if_splits)
  from unique_by_filter [OF this s t] have le: "length ?same \<le> 1" .
  note sim = simulates_run [OF product_session.sim_create [OF assms(1)] assms(3,4) _ assms(12)]
  show ?thesis
    using at_most_one [OF le]
  proof (elim disjE exE)
    fix p
    assume one: "?same = [p]"
    then have "create_product (products_on_table E) payload (table_of rows n) =
        (Inl (http_error 409 ''Product code already exists''), table_of rows n)"
      by (simp add: create_product_def bind_prog_def table_one_or_none)
    moreover have "p \<in> set ?same" using one by simp
    then have "p \<in> set rows \<and> ?eq (p_product_code p) (cr_product_code payload)" by simp
    ultimately show ?thesis using sim by blast
  next
    assume none: "?same = []"
    have cols: "product_columns_ok ?p \<and> 0 \<le> coeff (p_price ?p) \<and> 0 \<le> p_stock ?p"
      using assms(7-11) round_cents_nonneg [of "cr_price payload"]
      by (auto simp: product_columns_ok_def new_product_def product_create_request_ok_def length_between_def
          price_fits_def price_positive_def)
    have "distinct (map p_id (rows @ [?p]))"
      using product_ids [OF chk] assms(6) by (auto simp: new_product_def)
    moreover have "unique_by (\<lambda>a b. ?eq (p_product_code a) (p_product_code b)) (rows @ [?p])"
      using chk none s by (auto simp: unique_by_snoc list_all_iff filter_empty_conv new_product_def
          product_check_def symp_def split: if_splits)
    ultimately have ok': "product_check ?eq (rows @ [?p]) = None"
      using chk cols by (auto simp: product_check_def list_all_iff split: if_splits)
    have "p_id ?p = n" by (simp add: new_product_def)
    with filter_product_id [OF ok', of ?p] have f: "filter (\<lambda>p. p_id p = n) (rows @ [?p]) = [?p]" by simp
    have "create_product (products_on_table E) payload (table_of rows n) = (Inr ?p, table_of (rows @ [?p]) (n + 1))"
      using none f by (simp add: create_product_def bind_prog_def table_one_or_none commit_insert ok' table_refresh
          del: filter_append)
    moreover have "product_table_ok ?eq (rows @ [?p])"
      using assms(5) ok' by (simp add: product_table_ok_def)
    ultimately show ?thesis using sim none by blast
  qed
qed

lemma save_product_table:
  assumes "product_table_ok (pe_text_eq E) rows" and "p \<in> set rows"
    and "product_check (pe_text_eq E) (replace_product p (product_coerce (f p)) rows) = None" and "p_id (f p) = p_id p"
  shows "save_product (products_on_table E) p f (table_of rows n) =
     (Inr (product_coerce (f p)), table_of (replace_product p (product_coerce (f p)) rows) n)"
proof -
  let ?P = "\<lambda>r. p_id r = p_id p" and ?p' = "product_coerce (f p)"
  have chk: "product_check (pe_text_eq E) rows = None" using assms(1) by (simp add: product_table_ok_def)
  have u: "update_rows product_coerce ?P f rows = replace_product p ?p' rows"
    by (rule update_one_product(1) [OF chk assms(2)]) simp_all
  have "?p' \<in> set (replace_product p ?p' rows)" using assms(2) by (force simp: replace_product_def)
  from filter_product_id [OF assms(3) this] assms(4)
  have "filter ?P (replace_product p ?p' rows) = [?p']" by simp
  moreover have "\<exists>r \<in> set rows. ?P r" using assms(2) by blast
  ultimately show ?thesis
    by (simp add: save_product_def bind_prog_def commit_modify u assms(3) table_refresh)
qed

definition updated_product :: "product_update_request \<Rightarrow> product \<Rightarrow> product" where
  "updated_product payload p =
     p\<lparr>p_product_name := pu_product_name payload, p_price := round_cents (pu_price payload),
       p_stock := pu_stock payload, p_category := pu_category payload, p_status := pu_status payload,
       p_version := p_version p + 1\<rparr>"

lemma round_half_up_exact: "0 < k \<Longrightarrow> round_half_up (c * k) k = c"
proof -
  assume k: "0 < k"
  have "(2 * (\<bar>c\<bar> * k) + k) div (2 * k) = \<bar>c\<bar>"
  proof (rule int_div_pos_eq [of _ _ _ k])
    show "2 * (\<bar>c\<bar> * k) + k = 2 * k * \<bar>c\<bar> + k" by (simp add: algebra_simps)
  qed (use k in simp_all)
  moreover have "c * k < 0 \<longleftrightarrow> c < 0" using k by (simp add: mult_less_0_iff)
  ultimately show ?thesis using k by (simp add: round_half_up_def abs_mult Let_def)
qed

lemma dec_eq_round: "dec_eq a b \<Longrightarrow> round_cents b = b \<Longrightarrow> round_cents a = b"
proof -
  assume eq: "dec_eq a b" and b: "round_cents b = b"
  obtain c where c: "b = Dec c (- 2)" using b by (metis round_cents_def)
  show ?thesis
  proof (cases "- 2 \<le> expo a")
    case True
    then show ?thesis using eq by (simp add: c dec_eq_def dec_le_def coeff_at_def round_cents_def)
  next
    case False
    then have "coeff a = c * 10 ^ nat (- 2 - expo a)"
      using eq by (simp add: c dec_eq_def dec_le_def coeff_at_def)
    with False show ?thesis by (simp add: c round_cents_def round_half_up_exact)
  qed
qed

theorem update_product_outcome:
  assumes "product_session E view up steady"
    and "steady d" and "view d = table_of rows n" and "product_table_ok (pe_text_eq E) rows" and "p \<in> set rows"
    and "product_update_request_ok payload" and "price_fits (pu_price payload)" and "pu_stock payload \<le> 2147483647"
    and "p_version p < 2147483647" and "update_product E p payload d = (r, d')"
  shows "r = Inr (updated_product payload p) \<and>
         view d' = table_of (replace_product p (updated_product payload p) rows) n \<and>
         product_table_ok (pe_text_eq E) (replace_product p (updated_product payload p) rows)"
proof -
  let ?u = "updated_product payload p"
  define f where "f q = q\<lparr>p_product_name := set_col (p_product_name p) (pu_product_name payload) (p_product_name q),
         p_price := (if dec_eq (pu_price payload) (p_price p) then p_price q else pu_price payload),
         p_stock := set_col (p_stock p) (pu_stock payload) (p_stock q),
         p_category := set_col (p_category p) (pu_category payload) (p_category q),
         p_status := set_col (p_status p) (pu_status payload) (p_status q),
         p_version := set_col (p_version p) (p_version p + 1) (p_version q)\<rparr>" for q :: product
  have chk: "product_check (pe_text_eq E) rows = None" and cp: "round_cents (p_price p) = p_price p"
    and pc: "product_columns_ok p"
    using assms(4,5) by (auto simp: product_table_ok_def list_all_iff product_coerce_iff product_check_def split: if_splits)
  have u: "product_coerce (f p) = ?u"
    using dec_eq_round [OF _ cp] cp by (simp add: f_def updated_product_def product_coerce_def)
  have ok': "product_check (pe_text_eq E) (replace_product p ?u rows) = None"
    using assms(6-9) pc round_cents_nonneg [of "pu_price payload"]
    by (intro check_replaced [OF chk assms(5)])
      (auto simp: updated_product_def product_columns_ok_def product_update_request_ok_def length_between_def
        price_fits_def price_positive_def)
  have "p_id (f p) = p_id p" by (simp add: f_def)
  from save_product_table [OF assms(4,5), of f n, unfolded u, OF ok' this]
  have "update_product (products_on_table E) p payload (table_of rows n) = (Inr ?u, table_of (replace_product p ?u rows) n)"
    by (simp add: update_product_def f_def [abs_def])
  moreover have "product_table_ok (pe_text_eq E) (replace_product p ?u rows)"
    by (rule table_ok_replaced [OF assms(4) ok']) (metis u product_coerce_idem)
  ultimately show ?thesis
    using simulates_run [OF product_session.sim_updates(1) [OF assms(1)] assms(2,3) _ assms(10)] by simp
qed

section \<open>Pages\<close>

context product_session
begin

lemma paginate_run:
  assumes "steady d" and "distinct (map p_id (tb_rows (view d)))" and "page_bound ((page - 1) * sz)" and "page_bound sz"
  shows "\<exists>d'. paginate_products E page sz keyword off d =
     (Inr (int (length (filter (product_where E keyword off) (tb_rows (view d)))),
           page_slice ((page - 1) * sz) sz (rev (sort_key p_id (filter (product_where E keyword off) (tb_rows (view d)))))), d') \<and>
     view d' = view d \<and> steady d'"
proof -
  let ?P = "product_where E keyword off"
  obtain c d1 where c: "sql_count (pe_db E) ?P d = (c, d1)" by fastforce
  have c1: "c = Inr (int (length (filter ?P (tb_rows (view d)))))" "view d1 = view d" "steady d1"
    using sql_implements_up [OF count_law steady_up [OF assms(1)], of ?P]
      sql_implements_steady [OF count_law assms(1), of ?P] c by (simp_all add: tb_count_def)
  obtain p d2 where p: "sql_page (pe_db E) ?P p_id True ((page - 1) * sz) sz d1 = (p, d2)" by fastforce
  have "distinct (map p_id (filter ?P (tb_rows (view d1))))"
    using assms(2) c1(2) by (simp add: distinct_map_filter)
  then have "p = fst (tb_page ?P p_id True ((page - 1) * sz) sz (view d1))"
    using page_law [OF steady_up [OF c1(3)]] p by (metis fst_conv)
  then have p1: "p = Inr (page_slice ((page - 1) * sz) sz (rev (sort_key p_id (filter ?P (tb_rows (view d))))))"
    using c1(2) assms(3,4) by (simp add: tb_page_def ordered_def)
  have "view d2 = view d" "steady d2"
    using page_view [OF steady_up [OF c1(3)], of ?P p_id True "(page - 1) * sz" sz]
      page_steady [OF c1(3), of ?P p_id True "(page - 1) * sz" sz] p c1(2) by simp_all
  with c p c1 p1 show ?thesis by (auto simp: paginate_products_def bind_prog_def)
qed

end

definition page_rows :: "(int \<times> product list) res \<Rightarrow> product list" where
  "page_rows r = (case r of Inl _ \<Rightarrow> [] | Inr page \<Rightarrow> snd page)"

text \<open>
  C33: The pages of a product query, put together, are all matching products by descending id,
  none missing and none twice.
\<close>

theorem product_pages_partition:
  assumes "product_session E view up steady" and "steady d"
    and "product_check (pe_text_eq E) (tb_rows (view d)) = None" and "1 \<le> sz"
    and "length (filter (product_where E keyword off) (tb_rows (view d))) \<le> n * sz"
    and "n * sz < 2 ^ 64"
  shows "concat (map (\<lambda>p. page_rows (fst (paginate_products E (int p + 1) (int sz) keyword off d))) [0..<n]) =
           rev (sort_key p_id (filter (product_where E keyword off) (tb_rows (view d))))"
proof -
  let ?xs = "rev (sort_key p_id (filter (product_where E keyword off) (tb_rows (view d))))"
  note run = product_session.paginate_run [OF assms(1,2) product_ids [OF assms(3)]]
  have "page_rows (fst (paginate_products E (int p + 1) (int sz) keyword off d)) = page_slice (int p * int sz) (int sz) ?xs"
    if "p < n" for p
    using run [of "int p + 1" "int sz" keyword off] page_bounds [OF that assms(6)] by (auto simp: page_rows_def)
  then have "concat (map (\<lambda>p. page_rows (fst (paginate_products E (int p + 1) (int sz) keyword off d))) [0..<n]) =
      concat (map (\<lambda>p. page_slice (int p * int sz) (int sz) ?xs) [0..<n])"
    by (rule concat_upt_cong)
  then show ?thesis using assms(5) by (simp add: pages_partition)
qed

section \<open>A concrete service\<close>

definition keyboard :: product where
  "keyboard = \<lparr>p_id = 1, p_product_name = ''Keyboard'', p_product_code = ''P1001'', p_price = Dec 29900 (- 2), p_stock = 5,
               p_category = None, p_status = 1, p_version = 0\<rparr>"

definition ref_product_env :: "(ref_redis, product ref_db) product_env" where
  "ref_product_env =
     \<lparr>pe_settings = product_default_settings, pe_redis = ref_client, pe_db = ref_sql (product_check (=)) product_coerce,
      pe_text_eq = (=), pe_ilike = (\<lambda>pat s. True), pe_jwt = ref_jwt, pe_pydantic = ref_pydantic, pe_now = 0, pe_random = (0, 0)\<rparr>"

definition ref_product_db :: "product ref_db" where
  "ref_product_db = ref_database [keyboard] 2"

interpretation ref_ps: product_session ref_product_env rd_table rd_up rd_steady
  by (rule product_session.intro) (simp add: ref_product_env_def ref_db.sql_session_axioms)

lemma ref_product_facts:
  "pe_text_eq ref_product_env = (=)" "equivp (pe_text_eq ref_product_env)" "rd_steady ref_product_db"
  "rd_table ref_product_db = table_of [keyboard] 2" "product_check (=) [keyboard] = None" "product_table_ok (=) [keyboard]"
proof -
  show c: "product_check (=) [keyboard] = None"
    by (simp add: product_check_def product_columns_ok_def keyboard_def)
  then show "product_table_ok (=) [keyboard]"
    by (simp add: product_table_ok_def product_coerce_iff round_cents_def keyboard_def)
qed (simp_all add: ref_product_env_def ref_product_db_def ref_database_def table_of_def rd_steady_def identity_equivp)

theorem reserve_stock_witness:
  "\<exists>r d'. reserve_stock ref_product_env 1 3 ref_product_db = (r, d') \<and> r = Inr (moved_stock (- 3) keyboard)"
proof -
  obtain r d' where run: "reserve_stock ref_product_env 1 3 ref_product_db = (r, d')" by fastforce
  have "list_all (\<lambda>p. p_version p < 2147483647) [keyboard]" "can_reserve 1 3 keyboard"
    by (simp_all add: keyboard_def can_reserve_def)
  then show ?thesis
    using reserve_stock_outcome [OF ref_ps.product_session_axioms ref_product_facts(3,4) _ _ _ run] ref_product_facts run
    by auto
qed

theorem stock_is_conserved_witness:
  "\<exists>rs d' rows'. stock_run ref_product_env [Reserve 1 3, Reserve 1 3, Release 1 1] ref_product_db = (rs, d') \<and>
     stock_level 1 rows' = 5 + sum_list (map2 (op_effect 1) [Reserve 1 3, Reserve 1 3, Release 1 1] rs) \<and> 0 \<le> stock_level 1 rows'"
proof -
  obtain rs d' where run: "stock_run ref_product_env [Reserve 1 3, Reserve 1 3, Release 1 1] ref_product_db = (rs, d')" by fastforce
  have "stock_level 1 [keyboard] = 5" by (simp add: stock_level_def keyboard_def)
  then show ?thesis
    using stock_is_conserved [OF ref_ps.product_session_axioms ref_product_facts(3,4) _ run, of 1] ref_product_facts run
    by auto
qed

definition mouse_request :: product_create_request where
  "mouse_request = \<lparr>cr_product_name = ''Mouse'', cr_product_code = ''P1002'', cr_price = Dec 129 0, cr_stock = 7,
                    cr_category = None, cr_status = 1\<rparr>"

theorem create_product_witness:
  "\<exists>r d'. create_product ref_product_env mouse_request ref_product_db = (r, d') \<and>
     r = Inr (product_coerce (new_product mouse_request 2))"
proof -
  obtain r d' where run: "create_product ref_product_env mouse_request ref_product_db = (r, d')" by fastforce
  have "product_create_request_ok mouse_request" "price_fits (cr_price mouse_request)" "cr_stock mouse_request \<le> 2147483647"
    "2 \<notin> p_id ` set [keyboard]" "p_product_code keyboard \<noteq> cr_product_code mouse_request"
    by (simp_all add: product_create_request_ok_def mouse_request_def length_between_def price_positive_def price_fits_def
        round_cents_def keyboard_def)
  then show ?thesis
    using create_product_outcome [OF ref_ps.product_session_axioms ref_product_facts(2,3,4) _ _ _ _ _ _ _ run] ref_product_facts run
    by auto
qed

definition keyboard_update :: product_update_request where
  "keyboard_update = \<lparr>pu_product_name = ''Keyboard K87'', pu_price = Dec 2499 (- 1), pu_stock = 9, pu_category = None, pu_status = 0\<rparr>"

theorem update_product_witness:
  "\<exists>r d'. update_product ref_product_env keyboard keyboard_update ref_product_db = (r, d') \<and>
     r = Inr (updated_product keyboard_update keyboard)"
proof -
  obtain r d' where run: "update_product ref_product_env keyboard keyboard_update ref_product_db = (r, d')" by fastforce
  have "product_update_request_ok keyboard_update" "price_fits (pu_price keyboard_update)" "pu_stock keyboard_update \<le> 2147483647"
    "p_version keyboard < 2147483647"
    by (simp_all add: product_update_request_ok_def keyboard_update_def length_between_def price_positive_def price_fits_def
        round_cents_def keyboard_def)
  then show ?thesis
    using update_product_outcome [OF ref_ps.product_session_axioms ref_product_facts(3,4) _ _ _ _ _ _ run] ref_product_facts run
    by auto
qed

theorem product_pages_witness:
  "concat (map (\<lambda>p. page_rows (fst (paginate_products ref_product_env (int p + 1) (int 2) None False ref_product_db))) [0..<1]) =
     [keyboard]"
proof -
  have "filter (product_where ref_product_env None False) [keyboard] = [keyboard]"
    by (simp add: product_where_def keyboard_def)
  then show ?thesis
    using product_pages_partition [of ref_product_env rd_table rd_up rd_steady ref_product_db 2 None False 1]
      ref_ps.product_session_axioms ref_product_facts by simp
qed

end
