(* ===== verification/Coupons.thy ===== *)
theory Coupons
  imports Product_Cache Product_Catalog
begin

text \<open>
  The product service, fourth part: the coupon engine of \<^verbatim>\<open>services/product_service.py\<close>.
  Amounts are decimals in cents, balances are the fields of a Redis hash per user, and the
  outcome of an order is kept as a JSON record.
\<close>

section \<open>Operations\<close>

definition COUPON_RATE_MAP :: "(int \<times> decimal) list" where
  "COUPON_RATE_MAP = [(10, Dec 10 (- 2)), (20, Dec 20 (- 2)), (30, Dec 30 (- 2))]"

definition round_money :: "decimal \<Rightarrow> decimal res" where
  "round_money value = quantize_cents value"

definition select_issue_coupon_type :: "decimal \<Rightarrow> int option" where
  "select_issue_coupon_type order_amount =
     (if dec_le (Dec 800 0) order_amount then Some 30
      else if dec_le (Dec 500 0) order_amount then Some 20
      else if dec_le (Dec 200 0) order_amount then Some 10
      else None)"

definition claim_allowed_coupon_types :: "decimal \<Rightarrow> int list" where
  "claim_allowed_coupon_types order_amount =
     (if dec_le (Dec 900 0) order_amount then [30, 20, 10]
      else if dec_le (Dec 600 0) order_amount then [20, 10]
      else if dec_le (Dec 300 0) order_amount then [10]
      else [])"

text \<open>\<^verbatim>\<open>response.model_dump(mode="json")\<close>: a \<^verbatim>\<open>Decimal\<close> becomes its string.\<close>

definition json_opt :: "('a \<Rightarrow> pyval) \<Rightarrow> 'a option \<Rightarrow> pyval" where
  "json_opt f v = (case v of None \<Rightarrow> PNone | Some x \<Rightarrow> f x)"

definition issue_dump :: "coupon_issue_response \<Rightarrow> pyval" where
  "issue_dump r =
     PDict [(''user_id'', PInt (ci_user_id r)),
            (''order_amount'', PStr (dec_str (ci_order_amount r))),
            (''issued'', PBool (ci_issued r)),
            (''coupon_type'', json_opt PInt (ci_coupon_type r)),
            (''discount_rate'', json_opt (\<lambda>d. PStr (dec_str d)) (ci_discount_rate r)),
            (''balance_after_issue'', json_opt PInt (ci_balance_after_issue r)),
            (''message'', PStr (ci_message r))]"

definition claim_dump :: "coupon_claim_best_response \<Rightarrow> pyval" where
  "claim_dump r =
     PDict [(''user_id'', PInt (cb_user_id r)),
            (''order_amount'', PStr (dec_str (cb_order_amount r))),
            (''claimed'', PBool (cb_claimed r)),
            (''coupon_type'', json_opt PInt (cb_coupon_type r)),
            (''discount_rate'', PStr (dec_str (cb_discount_rate r))),
            (''discount_amount'', PStr (dec_str (cb_discount_amount r))),
            (''final_amount'', PStr (dec_str (cb_final_amount r))),
            (''message'', PStr (cb_message r))]"

text \<open>\<^verbatim>\<open>if order_no: set_..._record(...)\<close>, then \<^verbatim>\<open>return response\<close>.\<close>

definition keep_record :: "(string \<Rightarrow> ('r, bool) prog) \<Rightarrow> string option \<Rightarrow> 'a \<Rightarrow> ('r, 'a) prog" where
  "keep_record save order_no response =
     (case order_no of
        None \<Rightarrow> return_prog response
      | Some no \<Rightarrow>
          (if no = [] then return_prog response
           else bind_prog (save no) (\<lambda>_. return_prog response)))"

definition record_issue ::
  "('r, 'd) product_env \<Rightarrow> int \<Rightarrow> string option \<Rightarrow> coupon_issue_response \<Rightarrow> ('r, coupon_issue_response) prog" where
  "record_issue E user_id order_no response =
     keep_record (\<lambda>no. set_coupon_issue_record E user_id no (issue_dump response)
                    (ps_coupon_order_record_ttl_seconds (pe_settings E))) order_no response"

definition record_claim ::
  "('r, 'd) product_env \<Rightarrow> int \<Rightarrow> string option \<Rightarrow> coupon_claim_best_response \<Rightarrow> ('r, coupon_claim_best_response) prog" where
  "record_claim E user_id order_no response =
     keep_record (\<lambda>no. set_coupon_claim_record E user_id no (claim_dump response)
                    (ps_coupon_order_record_ttl_seconds (pe_settings E))) order_no response"

definition issue_rate_key :: "int \<Rightarrow> string" where
  "issue_rate_key user_id = ''product-service:coupon:ratelimit:issue:user:'' @ int_str user_id"

definition claim_rate_key :: "int \<Rightarrow> string" where
  "claim_rate_key user_id = ''product-service:coupon:ratelimit:claim:user:'' @ int_str user_id"

definition coupon_rate_limit ::
  "('r, 'd) product_env \<Rightarrow> string \<Rightarrow> int \<Rightarrow> string \<Rightarrow> ('r, unit) prog" where
  "coupon_rate_limit E key max_requests detail s =
     (case ps_increment_rate_limit E key (ps_coupon_rate_limit_window_seconds (pe_settings E)) s of
        (current, s') \<Rightarrow>
          (if over_limit max_requests current then Inl (http_error 429 detail) else Inr (), s'))"

definition issue_coupon_for_order ::
  "('r, 'd) product_env \<Rightarrow> int \<Rightarrow> decimal \<Rightarrow> string option \<Rightarrow> ('r, coupon_issue_response) prog" where
  "issue_coupon_for_order E user_id order_amount order_no =
     bind_prog (lift_res (round_money order_amount)) (\<lambda>amount.
     bind_prog (coupon_rate_limit E (issue_rate_key user_id)
       (ps_coupon_issue_rate_limit_max_requests (pe_settings E)) ''Issue coupon rate limit exceeded'') (\<lambda>_.
       (case select_issue_coupon_type amount of
          None \<Rightarrow>
            record_issue E user_id order_no
              \<lparr>ci_user_id = user_id, ci_order_amount = amount, ci_issued = False, ci_coupon_type = None,
               ci_discount_rate = None, ci_balance_after_issue = None,
               ci_message = ''Order amount does not meet issue threshold''\<rparr>
        | Some coupon_type \<Rightarrow>
            (\<lambda>s. case issue_coupon_balance E user_id coupon_type s of
               (None, s') \<Rightarrow> (Inl (http_error 503 ''Coupon engine unavailable''), s')
             | (Some balance_after_issue, s') \<Rightarrow>
                 record_issue E user_id order_no
                   \<lparr>ci_user_id = user_id, ci_order_amount = amount, ci_issued = True,
                    ci_coupon_type = Some coupon_type,
                    ci_discount_rate = map_of COUPON_RATE_MAP coupon_type,
                    ci_balance_after_issue = Some balance_after_issue,
                    ci_message = ''Coupon issued''\<rparr> s'))))"

definition claim_best_coupon_for_order ::
  "('r, 'd) product_env \<Rightarrow> int \<Rightarrow> decimal \<Rightarrow> string option \<Rightarrow> ('r, coupon_claim_best_response) prog" where
  "claim_best_coupon_for_order E user_id order_amount order_no =
     bind_prog (lift_res (round_money order_amount)) (\<lambda>amount.
     bind_prog (coupon_rate_limit E (claim_rate_key user_id)
       (ps_coupon_claim_rate_limit_max_requests (pe_settings E)) ''Claim coupon rate limit exceeded'') (\<lambda>_.
       (let allowed_types = claim_allowed_coupon_types amount;
            unclaimed = (\<lambda>msg.
              \<lparr>cb_user_id = user_id, cb_order_amount = amount, cb_claimed = False, cb_coupon_type = None,
               cb_discount_rate = Dec 0 0, cb_discount_amount = Dec 0 0, cb_final_amount = amount,
               cb_message = msg\<rparr>)
        in if allowed_types = []
           then record_claim E user_id order_no (unclaimed ''Order amount does not meet claim threshold'')
           else
             bind_prog (claim_best_coupon_balance E user_id allowed_types) (\<lambda>claimed.
               (case claimed of
                  None \<Rightarrow> raise_prog (http_error 503 ''Coupon engine unavailable'')
                | Some claimed_coupon_type \<Rightarrow>
                    (if claimed_coupon_type = 0
                     then record_claim E user_id order_no (unclaimed ''No eligible coupon available'')
                     else
                       (case map_of COUPON_RATE_MAP claimed_coupon_type of
                          None \<Rightarrow> raise_prog (http_error 500 ''Invalid coupon type claimed'')
                        | Some discount_rate \<Rightarrow>
                            bind_prog (lift_res (round_money (dec_mul amount discount_rate))) (\<lambda>discount_amount.
                            bind_prog (lift_res (round_money (dec_sub amount discount_amount))) (\<lambda>final_amount.
                              record_claim E user_id order_no
                                \<lparr>cb_user_id = user_id, cb_order_amount = amount, cb_claimed = True,
                                 cb_coupon_type = Some claimed_coupon_type, cb_discount_rate = discount_rate,
                                 cb_discount_amount = discount_amount, cb_final_amount = final_amount,
                                 cb_message = ''Coupon claimed''\<rparr>)))))))))"

definition balance_items :: "(int \<times> int) list \<Rightarrow> coupon_balance_item list" where
  "balance_items snapshot =
     map (\<lambda>(coupon_type, rate).
            \<lparr>bi_coupon_type = coupon_type, bi_discount_rate = rate,
             bi_quantity = max (case map_of snapshot coupon_type of None \<Rightarrow> 0 | Some n \<Rightarrow> n) 0\<rparr>)
       (sort_key fst COUPON_RATE_MAP)"

definition get_user_coupon_balances ::
  "('r, 'd) product_env \<Rightarrow> int \<Rightarrow> ('r, user_coupon_balance_response) prog" where
  "get_user_coupon_balances E user_id s =
     (case get_coupon_balance_snapshot E user_id s of
        (None, s') \<Rightarrow> (Inl (http_error 503 ''Coupon engine unavailable''), s')
      | (Some snapshot, s') \<Rightarrow> (Inr \<lparr>ub_user_id = user_id, ub_items = balance_items snapshot\<rparr>, s'))"

text \<open>
  The response models of the two order queries, built from a record: a field is required, has
  a default, or may be \<^verbatim>\<open>None\<close>; a \<^verbatim>\<open>ValidationError\<close> is a \<^verbatim>\<open>ValueError\<close>, and a record that is no
  dictionary or repeats \<^verbatim>\<open>order_no\<close> is a \<^verbatim>\<open>TypeError\<close>.
\<close>

definition field :: "(pyval \<Rightarrow> 'a option) \<Rightarrow> (string \<times> pyval) list \<Rightarrow> string \<Rightarrow> 'a res" where
  "field conv d k =
     (case dict_get d k of
        None \<Rightarrow> Inl ValueError
      | Some v \<Rightarrow> (case conv v of None \<Rightarrow> Inl ValueError | Some x \<Rightarrow> Inr x))"

definition field_default :: "(pyval \<Rightarrow> 'a option) \<Rightarrow> 'a \<Rightarrow> (string \<times> pyval) list \<Rightarrow> string \<Rightarrow> 'a res" where
  "field_default conv dflt d k = (if dict_get d k = None then Inr dflt else field conv d k)"

definition field_optional :: "(pyval \<Rightarrow> 'a option) \<Rightarrow> (string \<times> pyval) list \<Rightarrow> string \<Rightarrow> 'a option res" where
  "field_optional conv d k =
     (if dict_get d k = None \<or> dict_get d k = Some PNone then Inr None
      else bind_res (field conv d k) (\<lambda>x. Inr (Some x)))"

record user_order_coupon_issue_response = coupon_issue_response +
  oi_order_no :: string

record user_order_coupon_selection_response = coupon_claim_best_response +
  os_order_no :: string

definition record_fields :: "pyval \<Rightarrow> (string \<times> pyval) list res" where
  "record_fields v =
     (case v of
        PDict d \<Rightarrow> (if dict_get d ''order_no'' = None then Inr d else Inl TypeError)
      | _ \<Rightarrow> Inl TypeError)"

definition issue_response_of ::
  "pydantic \<Rightarrow> string \<Rightarrow> pyval \<Rightarrow> user_order_coupon_issue_response res" where
  "issue_response_of Y order_no v =
     bind_res (record_fields v) (\<lambda>d.
     bind_res (field (pd_int Y) d ''user_id'') (\<lambda>user_id.
     bind_res (field (pd_decimal Y) d ''order_amount'') (\<lambda>order_amount.
     bind_res (field (pd_bool Y) d ''issued'') (\<lambda>issued.
     bind_res (field_optional (pd_int Y) d ''coupon_type'') (\<lambda>coupon_type.
     bind_res (field_optional (pd_decimal Y) d ''discount_rate'') (\<lambda>discount_rate.
     bind_res (field_optional (pd_int Y) d ''balance_after_issue'') (\<lambda>balance.
     bind_res (field (pd_str Y) d ''message'') (\<lambda>message.
       Inr \<lparr>ci_user_id = user_id, ci_order_amount = order_amount, ci_issued = issued,
            ci_coupon_type = coupon_type, ci_discount_rate = discount_rate,
            ci_balance_after_issue = balance, ci_message = message, oi_order_no = order_no\<rparr>))))))))"

definition claim_response_of ::
  "pydantic \<Rightarrow> string \<Rightarrow> pyval \<Rightarrow> user_order_coupon_selection_response res" where
  "claim_response_of Y order_no v =
     bind_res (record_fields v) (\<lambda>d.
     bind_res (field (pd_int Y) d ''user_id'') (\<lambda>user_id.
     bind_res (field (pd_decimal Y) d ''order_amount'') (\<lambda>order_amount.
     bind_res (field (pd_bool Y) d ''claimed'') (\<lambda>claimed.
     bind_res (field_optional (pd_int Y) d ''coupon_type'') (\<lambda>coupon_type.
     bind_res (field_default (pd_decimal Y) (Dec 0 0) d ''discount_rate'') (\<lambda>discount_rate.
     bind_res (field_default (pd_decimal Y) (Dec 0 0) d ''discount_amount'') (\<lambda>discount_amount.
     bind_res (field (pd_decimal Y) d ''final_amount'') (\<lambda>final_amount.
     bind_res (field (pd_str Y) d ''message'') (\<lambda>message.
       Inr \<lparr>cb_user_id = user_id, cb_order_amount = order_amount, cb_claimed = claimed,
            cb_coupon_type = coupon_type, cb_discount_rate = discount_rate,
            cb_discount_amount = discount_amount, cb_final_amount = final_amount,
            cb_message = message, os_order_no = order_no\<rparr>)))))))))"

definition get_user_coupon_issue_by_order ::
  "('r, 'd) product_env \<Rightarrow> int \<Rightarrow> string \<Rightarrow> ('r, user_order_coupon_issue_response) prog" where
  "get_user_coupon_issue_by_order E user_id order_no =
     bind_prog (get_coupon_issue_record E user_id order_no) (\<lambda>found.
       (case found of
          None \<Rightarrow> raise_prog (http_error 404 ''Coupon issue record not found'')
        | Some v \<Rightarrow>
            (if v = PNone then raise_prog (http_error 404 ''Coupon issue record not found'')
             else lift_res (issue_response_of (pe_pydantic E) order_no v))))"

definition get_user_coupon_selection_by_order ::
  "('r, 'd) product_env \<Rightarrow> int \<Rightarrow> string \<Rightarrow> ('r, user_order_coupon_selection_response) prog" where
  "get_user_coupon_selection_by_order E user_id order_no =
     bind_prog (get_coupon_claim_record E user_id order_no) (\<lambda>found.
       (case found of
          None \<Rightarrow> raise_prog (http_error 404 ''Coupon selection record not found'')
        | Some v \<Rightarrow>
            (if v = PNone then raise_prog (http_error 404 ''Coupon selection record not found'')
             else lift_res (claim_response_of (pe_pydantic E) order_no v))))"

section \<open>Balances\<close>

text \<open>The balance a hash field stands for, and the hashes that hold balances only.\<close>

definition hash_level :: "keyspace \<Rightarrow> string \<Rightarrow> string \<Rightarrow> int" where
  "hash_level ks k f =
     (case ks k of
        Some (RHash h, _) \<Rightarrow> (case map_of h f of None \<Rightarrow> 0 | Some v \<Rightarrow> (case redis_int v of None \<Rightarrow> 0 | Some n \<Rightarrow> n))
      | _ \<Rightarrow> 0)"

definition balances_ok :: "keyspace \<Rightarrow> string \<Rightarrow> bool" where
  "balances_ok ks k \<longleftrightarrow>
     (case ks k of
        None \<Rightarrow> True
      | Some (RStr _, _) \<Rightarrow> False
      | Some (RHash h, _) \<Rightarrow> (\<forall>f v. map_of h f = Some v \<longrightarrow> (\<exists>n. redis_int v = Some n \<and> 0 \<le> n)))"

lemma redis_int_range: "redis_int v = Some n \<Longrightarrow> n \<le> int64_max"
  by (auto simp: redis_int_def split: option.splits if_splits)

lemma hash_level_bounds: "balances_ok ks k \<Longrightarrow> 0 \<le> hash_level ks k f \<and> hash_level ks k f \<le> int64_max"
  by (fastforce simp: balances_ok_def hash_level_def split: option.splits rvalue.splits dest: redis_int_range)

definition hash_fields :: "keyspace \<Rightarrow> string \<Rightarrow> (string \<times> string) list" where
  "hash_fields ks k = (case ks k of Some (RHash h, _) \<Rightarrow> h | _ \<Rightarrow> [])"

lemma hash_level_fields:
  "balances_ok ks k \<Longrightarrow>
     (case map_of (hash_fields ks k) f of None \<Rightarrow> Some 0 | Some v \<Rightarrow> redis_int v) = Some (hash_level ks k f)"
  by (auto simp: hash_fields_def hash_level_def balances_ok_def split: option.splits rvalue.splits)
    (metis option.distinct(1))

lemma ks_hincrby_run:
  assumes "balances_ok ks k" and "0 \<le> hash_level ks k f + n" and "hash_level ks k f + n \<le> int64_max"
  obtains ex where "ks_hincrby k f n t ks =
    (Inr (hash_level ks k f + n),
     ks(k \<mapsto> (RHash (AList.update f (int_str (hash_level ks k f + n)) (hash_fields ks k)), ex)))"
proof (cases "ks k")
  case None
  then show ?thesis using that [of None] by (simp add: ks_hincrby_def hash_fields_def hash_level_def)
next
  case (Some e)
  then obtain h ex where h: "ks k = Some (RHash h, ex)"
    using assms(1) by (cases e) (auto simp: balances_ok_def split: rvalue.splits)
  then show ?thesis
    using that [of ex] hash_level_fields [OF assms(1), of f] assms(2,3) by (simp add: ks_hincrby_def hash_fields_def)
qed

lemma ks_hincrby_level:
  assumes "balances_ok ks k" and "0 \<le> hash_level ks k f + n" and "hash_level ks k f + n \<le> int64_max"
  shows "fst (ks_hincrby k f n t ks) = Inr (hash_level ks k f + n)"
    and "balances_ok (snd (ks_hincrby k f n t ks)) k"
    and "hash_level (snd (ks_hincrby k f n t ks)) k f' = hash_level ks k f' + (if f' = f then n else 0)"
    and "k' \<noteq> k \<Longrightarrow> snd (ks_hincrby k f n t ks) k' = ks k'"
proof -
  let ?m = "hash_level ks k f + n"
  let ?h = "AList.update f (int_str ?m) (hash_fields ks k)"
  obtain ex where run: "ks_hincrby k f n t ks = (Inr ?m, ks(k \<mapsto> (RHash ?h, ex)))"
    using ks_hincrby_run [OF assms] .
  have ri: "redis_int (int_str ?m) = Some ?m" using assms(2,3) by (intro redis_int_int_str) simp_all
  have lvl: "map_of (hash_fields ks k) g = Some v \<Longrightarrow> redis_int v = Some (hash_level ks k g)" for g v
    using hash_level_fields [OF assms(1), of g] by simp
  show "fst (ks_hincrby k f n t ks) = Inr ?m" and "k' \<noteq> k \<Longrightarrow> snd (ks_hincrby k f n t ks) k' = ks k'"
    by (simp_all add: run)
  show "balances_ok (snd (ks_hincrby k f n t ks)) k"
    using ri assms(2) lvl hash_level_bounds [OF assms(1)]
    by (auto simp: run balances_ok_def AList.update_conv')
  show "hash_level (snd (ks_hincrby k f n t ks)) k f' = hash_level ks k f' + (if f' = f then n else 0)"
    using ri lvl [of f'] hash_level_fields [OF assms(1), of f']
    by (auto simp: run AList.update_conv') (auto simp: hash_level_def AList.update_conv' split: option.splits)
qed

lemma ks_hget_fields: "balances_ok ks k \<Longrightarrow> ks_hget k f t ks = (Inr (map_of (hash_fields ks k) f), ks)"
  by (auto simp: ks_hget_def balances_ok_def hash_fields_def split: option.splits rvalue.splits)

lemma claim_loop_level:
  assumes "balances_ok ks k"
  shows "claim_loop k cts t ks =
     (case find (\<lambda>ct. 0 < hash_level ks k ct) cts of
        None \<Rightarrow> (Inr ''0'', ks)
      | Some ct \<Rightarrow> (Inr ct, snd (ks_hincrby k ct (- 1) t ks)))"
proof (induction cts)
  case (Cons ct cts)
  show ?case
  proof (cases "0 < hash_level ks k ct")
    case True
    then have "fst (ks_hincrby k ct (- 1) t ks) = Inr (hash_level ks k ct - 1)"
      using ks_hincrby_level(1) [OF assms, of ct "- 1"] hash_level_bounds [OF assms, of ct] by simp
    then obtain ks'' where "ks_hincrby k ct (- 1) t ks = (Inr (hash_level ks k ct - 1), ks'')"
      by (cases "ks_hincrby k ct (- 1) t ks") simp
    with True show ?thesis by (simp add: ks_hget_fields [OF assms] hash_level_fields [OF assms])
  next
    case False
    with Cons show ?thesis by (simp add: ks_hget_fields [OF assms] hash_level_fields [OF assms])
  qed
qed simp

text \<open>The keys the coupon engine uses are pairwise different.\<close>

lemmas coupon_key_defs =
  make_coupon_balance_key_def COUPON_BALANCE_KEY_PREFIX_def make_coupon_issue_record_key_def
  COUPON_ISSUE_RECORD_KEY_PREFIX_def make_coupon_claim_record_key_def COUPON_CLAIM_RECORD_KEY_PREFIX_def
  issue_rate_key_def claim_rate_key_def

lemma coupon_keys_differ [simp]:
  "make_coupon_balance_key u \<noteq> issue_rate_key v" "make_coupon_balance_key u \<noteq> claim_rate_key v"
  "make_coupon_balance_key u \<noteq> make_coupon_issue_record_key v no" "make_coupon_balance_key u \<noteq> make_coupon_claim_record_key v no"
  "issue_rate_key u \<noteq> claim_rate_key v" "issue_rate_key u \<noteq> make_coupon_balance_key v"
  "claim_rate_key u \<noteq> make_coupon_balance_key v"
  "make_coupon_balance_key u = make_coupon_balance_key v \<longleftrightarrow> u = v"
  by (simp_all add: coupon_key_defs)

definition balance :: "keyspace \<Rightarrow> int \<Rightarrow> int \<Rightarrow> int" where
  "balance ks user_id coupon_type = hash_level ks (make_coupon_balance_key user_id) (int_str coupon_type)"

locale coupon_redis =
  redis_server "pe_redis E" view clock up steady elapse
  for E :: "('r, 'd) product_env" and view clock up steady elapse +
  assumes enabled: "ps_redis_enabled (pe_settings E)"
begin

lemma ps_client: "ps_get_redis_client E = Some (pe_redis E)"
  by (simp add: ps_get_redis_client_def enabled)

lemma execute_run:
  assumes "implements up steady view clock (cmd (pe_redis E)) spec" and "steady s"
  shows "fst (ps_safe_execute E (\<lambda>c. some_reply (cmd c)) s) =
           (case fst (spec (clock s) (view s)) of Inl _ \<Rightarrow> None | Inr v \<Rightarrow> Some v)"
    and "view (snd (ps_safe_execute E (\<lambda>c. some_reply (cmd c)) s)) = snd (spec (clock s) (view s))"
    and "clock (snd (ps_safe_execute E (\<lambda>c. some_reply (cmd c)) s)) = clock s"
    and "steady (snd (ps_safe_execute E (\<lambda>c. some_reply (cmd c)) s))"
  using implements_up [OF assms(1) steady_up [OF assms(2)]] implements_steady [OF assms]
  by (auto simp: ps_safe_execute_def ps_client safe_execute_Some split: sum.splits)

end

lemma find_map_eq: "find P (map f xs) = map_option f (find (\<lambda>x. P (f x)) xs)"
  by (induction xs) simp_all

lemma ks_frames:
  "k' \<noteq> k \<Longrightarrow> snd (ks_incr k t ks) k' = ks k'"
  "k' \<noteq> k \<Longrightarrow> snd (ks_expire k n t ks) k' = ks k'"
  "k' \<noteq> k \<Longrightarrow> snd (ks_setex k n v t ks) k' = ks k'"
  by (auto simp: ks_incr_def ks_expire_def ks_setex_def split: option.splits rvalue.splits)

lemma py_int_str: "\<bar>i\<bar> \<le> int64_max \<Longrightarrow> py_int (PStr (int_str i)) = Inr i"
  using int_str_length [of i 19] by (simp add: int_of_str_int_str)

lemma py_int_zero: "py_int (PStr ''0'') = Inr 0"
proof -
  have "int_str 0 = ''0''" by code_simp
  with py_int_str [of 0] show ?thesis by simp
qed

section \<open>Money\<close>

lemma discount_in_cents:
  assumes "0 \<le> c" and "c < 10 ^ 26" and "0 \<le> ct" and "ct \<le> 100"
  shows "round_money (dec_mul (Dec c (- 2)) (Dec ct (- 2))) = Inr (Dec (round_half_up (c * ct) 100) (- 2))"
    and "0 \<le> round_half_up (c * ct) 100" and "round_half_up (c * ct) 100 \<le> c"
    and "round_money (dec_sub (Dec c (- 2)) (Dec (round_half_up (c * ct) 100) (- 2))) =
           Inr (Dec (c - round_half_up (c * ct) 100) (- 2))"
proof -
  let ?d = "round_half_up (c * ct) 100"
  have p: "0 \<le> c * ct" "c * ct \<le> c * 100"
    using assms by (simp_all add: mult_left_mono)
  note b = round_half_up_bounds [OF p(1), of 100]
  show d0: "0 \<le> ?d" using b(3) by simp
  show dc: "?d \<le> c" using b(2) p(2) by linarith
  have "c * ct < dec_limit" using p(2) assms(2) by simp
  then have "dec_mul (Dec c (- 2)) (Dec ct (- 2)) = Dec (c * ct) (- 4)"
    using p(1) by (simp add: dec_mul_def dec_fix_small)
  moreover have "\<bar>?d\<bar> < dec_limit" using d0 dc assms(2) by simp
  ultimately show "round_money (dec_mul (Dec c (- 2)) (Dec ct (- 2))) = Inr (Dec ?d (- 2))"
    by (simp add: round_money_def quantize_cents_def)
  have "\<bar>c - ?d\<bar> < dec_limit" using d0 dc assms(1,2) by simp
  then show "round_money (dec_sub (Dec c (- 2)) (Dec ?d (- 2))) = Inr (Dec (c - ?d) (- 2))"
    by (simp add: dec_sub_def coeff_at_def dec_fix_small round_money_def quantize_cents_cents)
qed

section \<open>Runs of the cache functions\<close>

definition all_balances_ok :: "keyspace \<Rightarrow> bool" where
  "all_balances_ok ks \<longleftrightarrow> (\<forall>u. balances_ok ks (make_coupon_balance_key u))"

definition same_balances :: "keyspace \<Rightarrow> keyspace \<Rightarrow> bool" where
  "same_balances ks ks' \<longleftrightarrow> (\<forall>u. ks' (make_coupon_balance_key u) = ks (make_coupon_balance_key u))"

lemma same_balances_level: "same_balances ks ks' \<Longrightarrow> balance ks' u ct = balance ks u ct"
  by (simp add: same_balances_def balance_def hash_level_def)

lemma same_balances_ok: "same_balances ks ks' \<Longrightarrow> all_balances_ok ks' = all_balances_ok ks"
  by (simp add: same_balances_def all_balances_ok_def balances_ok_def)

lemma same_balances_trans: "same_balances a b \<Longrightarrow> same_balances b c \<Longrightarrow> same_balances a c"
  by (simp add: same_balances_def)

context coupon_redis
begin

lemma rate_limit_run:
  assumes "steady s" and "ps_increment_rate_limit E k w s = (c, s')"
  shows "steady s'" and "clock s' = clock s" and "k' \<noteq> k \<Longrightarrow> view s' k' = view s k'"
proof -
  let ?inc = "ps_safe_execute E (\<lambda>client. some_reply (redis_incr client k))"
  let ?exp = "ps_safe_execute E (\<lambda>client. some_reply (redis_expire client k w))"
  note i = execute_run [of "\<lambda>c. redis_incr c k", OF incr_law assms(1)]
  note x = execute_run [of "\<lambda>c. redis_expire c k w", OF expire_law i(4)]
  have "s' = snd (?inc s) \<or> s' = snd (?exp (snd (?inc s)))"
    using assms(2) by (auto simp: ps_increment_rate_limit_def split: prod.splits option.splits if_splits)
  then show "steady s'" and "clock s' = clock s" and "k' \<noteq> k \<Longrightarrow> view s' k' = view s k'"
    using i x by (auto simp: ks_frames)
qed

lemma setex_json_run:
  assumes "steady s" and "json_ok payload"
  obtains b s' where "setex_json E key ttl payload s = (Inr b, s')" "steady s'" "clock s' = clock s"
    "\<And>k'. k' \<noteq> key \<Longrightarrow> view s' k' = view s k'"
    "0 < ttl \<Longrightarrow> view s' key = Some (RStr (json_text payload), Some (clock s + ttl * second))"
proof -
  note x = execute_run [of "\<lambda>c. redis_setex c key ttl (json_text payload)", OF setex_law assms(1)]
  show ?thesis
    using that [of "fst (ps_safe_execute E (\<lambda>c. some_reply (redis_setex c key ttl (json_text payload))) s) = Some True"
        "snd (ps_safe_execute E (\<lambda>c. some_reply (redis_setex c key ttl (json_text payload))) s)"] x assms(2)
    by (simp add: setex_json_def ps_client json_dumps_def case_prod_unfold ks_frames)
      (simp add: ks_setex_def)
qed

lemma issue_balance_run:
  assumes "steady s" and "all_balances_ok (view s)" and "balance (view s) u ct < int64_max"
  obtains s' where "issue_coupon_balance E u ct s = (Some (balance (view s) u ct + 1), s')" "steady s'" "clock s' = clock s"
    "all_balances_ok (view s')" "\<And>u' ct'. balance (view s') u' ct' = balance (view s) u' ct' + (if u' = u \<and> ct' = ct then 1 else 0)"
proof -
  let ?k = "make_coupon_balance_key u"
  have ok: "balances_ok (view s) ?k" using assms(2) by (simp add: all_balances_ok_def)
  note x = execute_run [of "\<lambda>c. redis_hincrby c ?k (int_str ct) 1", OF hincrby_law assms(1)]
  have b: "0 \<le> hash_level (view s) ?k (int_str ct) + 1" "hash_level (view s) ?k (int_str ct) + 1 \<le> int64_max"
    using hash_level_bounds [OF ok, of "int_str ct"] assms(3) by (simp_all add: balance_def)
  note h = ks_hincrby_level [OF ok b]
  let ?s' = "snd (issue_coupon_balance E u ct s)"
  have s': "view ?s' = snd (ks_hincrby ?k (int_str ct) 1 (clock s) (view s))" "clock ?s' = clock s" "steady ?s'"
    using x(2-4) by (simp_all add: issue_coupon_balance_def)
  show ?thesis
  proof (rule that [of ?s'])
    show "issue_coupon_balance E u ct s = (Some (balance (view s) u ct + 1), ?s')"
      using x(1) h(1) [of "clock s"] by (simp add: issue_coupon_balance_def balance_def prod_eq_iff)
    show "all_balances_ok (view ?s')"
      using h(2,4) [where t = "clock s"] assms(2) s'(1) unfolding all_balances_ok_def
      by (metis (no_types, lifting) balances_ok_def)
    show "balance (view ?s') u' ct' = balance (view s) u' ct' + (if u' = u \<and> ct' = ct then 1 else 0)" for u' ct'
      using h(3) [where t = "clock s" and f' = "int_str ct'"] h(4) [where t = "clock s" and k' = "make_coupon_balance_key u'"]
      by (cases "u' = u") (simp_all add: s'(1) balance_def, simp add: hash_level_def)
  qed (use s' in simp_all)
qed

end

text \<open>The type a claim takes: the first of the list with a positive balance.\<close>

definition best_type :: "keyspace \<Rightarrow> int \<Rightarrow> int list \<Rightarrow> int option" where
  "best_type ks u cts = find (\<lambda>ct. 0 < balance ks u ct) cts"

context coupon_redis
begin

lemma claim_balance_run:
  assumes "steady s" and "all_balances_ok (view s)" and "cts \<noteq> []" and "\<forall>ct \<in> set cts. \<bar>ct\<bar> \<le> int64_max"
  obtains s' where
    "claim_best_coupon_balance E u cts s =
       (Inr (Some (case best_type (view s) u cts of None \<Rightarrow> 0 | Some ct \<Rightarrow> ct)), s')" "steady s'" "clock s' = clock s"
    "all_balances_ok (view s')"
    "\<And>u' ct'. balance (view s') u' ct' =
       balance (view s) u' ct' - (if u' = u \<and> best_type (view s) u cts = Some ct' then 1 else 0)"
proof -
  let ?k = "make_coupon_balance_key u"
  have ok: "balances_ok (view s) ?k" using assms(2) by (simp add: all_balances_ok_def)
  let ?cmd = "\<lambda>c. redis_eval c CLAIM_BEST_COUPON_LUA [?k] (map int_str cts)"
  note x = execute_run [of ?cmd, OF eval_law assms(1)]
  let ?s' = "snd (ps_safe_execute E (\<lambda>c. some_reply (?cmd c)) s)"
  have find: "find (\<lambda>ct. 0 < hash_level (view s) ?k ct) (map int_str cts) = map_option int_str (best_type (view s) u cts)"
    by (simp add: find_map_eq best_type_def balance_def)
  have ev: "ks_eval CLAIM_BEST_COUPON_LUA [?k] (map int_str cts) (clock s) (view s) =
      (case best_type (view s) u cts of
         None \<Rightarrow> (Inr ''0'', view s)
       | Some ct \<Rightarrow> (Inr (int_str ct), snd (ks_hincrby ?k (int_str ct) (- 1) (clock s) (view s))))"
    by (simp add: ks_eval_def CLAIM_BEST_COUPON_LUA_def claim_loop_level [OF ok] find split: option.split)
  have run: "claim_best_coupon_balance E u cts s =
      (Inr (Some (case best_type (view s) u cts of None \<Rightarrow> 0 | Some ct \<Rightarrow> ct)), ?s')"
  proof (cases "best_type (view s) u cts")
    case None
    with x(1) ev show ?thesis using assms(3) py_int_zero
      by (simp add: claim_best_coupon_balance_def case_prod_unfold)
  next
    case (Some ct)
    then have "ct \<in> set cts" by (auto simp: best_type_def find_Some_iff)
    with Some x(1) ev assms(3,4) py_int_str [of ct] show ?thesis
      by (simp add: claim_best_coupon_balance_def case_prod_unfold del: py_int.simps)
  qed
  show ?thesis
  proof (cases "best_type (view s) u cts")
    case None
    then have "view ?s' = view s" using x(2) ev by simp
    with None run x(3,4) assms(2) show ?thesis by (intro that [of ?s']) simp_all
  next
    case (Some ct)
    then have "0 < balance (view s) u ct" by (auto simp: best_type_def find_Some_iff)
    then have b: "0 \<le> hash_level (view s) ?k (int_str ct) + - 1" "hash_level (view s) ?k (int_str ct) + - 1 \<le> int64_max"
      using hash_level_bounds [OF ok, of "int_str ct"] by (simp_all add: balance_def)
    note h = ks_hincrby_level [OF ok b]
    have v: "view ?s' = snd (ks_hincrby ?k (int_str ct) (- 1) (clock s) (view s))" using x(2) ev Some by simp
    have "all_balances_ok (view ?s')"
      using h(2,4) [where t = "clock s"] assms(2) v unfolding all_balances_ok_def
      by (metis (no_types, lifting) balances_ok_def)
    moreover have "balance (view ?s') u' ct' = balance (view s) u' ct' - (if u' = u \<and> best_type (view s) u cts = Some ct' then 1 else 0)" for u' ct'
      using h(3) [where t = "clock s" and f' = "int_str ct'"] h(4) [where t = "clock s" and k' = "make_coupon_balance_key u'"] Some
      by (cases "u' = u") (simp_all add: v balance_def, simp add: hash_level_def)
    ultimately show ?thesis using run x(3,4) by (intro that [of ?s']) simp_all
  qed
qed

lemma coupon_limit_run:
  assumes "steady s" and "coupon_rate_limit E k mx e s = (r, s')" and "\<And>u. make_coupon_balance_key u \<noteq> k"
  shows "steady s'" and "clock s' = clock s" and "same_balances (view s) (view s')" and "r = Inr () \<or> r = Inl (http_error 429 e)"
    and "k' \<noteq> k \<Longrightarrow> view s' k' = view s k'"
proof -
  obtain c where c: "ps_increment_rate_limit E k (ps_coupon_rate_limit_window_seconds (pe_settings E)) s = (c, s')"
    and r: "r = (if over_limit mx c then Inl (http_error 429 e) else Inr ())"
    using assms(2) by (auto simp: coupon_rate_limit_def split: prod.splits)
  note f = rate_limit_run [OF assms(1) c]
  then show "steady s'" "clock s' = clock s" "k' \<noteq> k \<Longrightarrow> view s' k' = view s k'" by auto
  show "same_balances (view s) (view s')" using f(3) assms(3) by (simp add: same_balances_def)
  show "r = Inr () \<or> r = Inl (http_error 429 e)" using r by simp
qed

lemma keep_record_run:
  assumes "steady s" and "json_ok payload" and "keep_record (\<lambda>x. setex_json E (key x) ttl payload) no resp s = (r, s')"
    and "\<And>u x. make_coupon_balance_key u \<noteq> key x"
  shows "r = Inr resp" and "steady s'" and "same_balances (view s) (view s')" and "clock s' = clock s"
    and "no = Some x \<Longrightarrow> x \<noteq> [] \<Longrightarrow> 0 < ttl \<Longrightarrow> view s' (key x) = Some (RStr (json_text payload), Some (clock s + ttl * second))"
proof -
  obtain b s1 where w: "setex_json E (key (the no)) ttl payload s = (Inr b, s1)" "steady s1" "clock s1 = clock s"
      "\<And>k'. k' \<noteq> key (the no) \<Longrightarrow> view s1 k' = view s k'"
      "0 < ttl \<Longrightarrow> view s1 (key (the no)) = Some (RStr (json_text payload), Some (clock s + ttl * second))"
    by (rule setex_json_run [OF assms(1,2)]) blast
  have "r = Inr resp \<and> steady s' \<and> same_balances (view s) (view s') \<and> clock s' = clock s \<and> (\<forall>x. no = Some x \<longrightarrow> x \<noteq> [] \<longrightarrow> s' = s1)"
    using assms(1,3,4) w
    by (auto simp: keep_record_def bind_prog_def same_balances_def split: option.splits if_splits)
  with w(5) show "r = Inr resp" "steady s'" "same_balances (view s) (view s')" "clock s' = clock s"
    "no = Some x \<Longrightarrow> x \<noteq> [] \<Longrightarrow> 0 < ttl \<Longrightarrow> view s' (key x) = Some (RStr (json_text payload), Some (clock s + ttl * second))"
    by auto
qed

end

section \<open>Issuing and claiming\<close>

definition issued_type :: "coupon_issue_response res \<Rightarrow> int option" where
  "issued_type r = (case r of Inl _ \<Rightarrow> None | Inr resp \<Rightarrow> ci_coupon_type resp)"

definition claimed_type :: "coupon_claim_best_response res \<Rightarrow> int option" where
  "claimed_type r = (case r of Inl _ \<Rightarrow> None | Inr resp \<Rightarrow> cb_coupon_type resp)"

lemma json_int_ok: "\<bar>i\<bar> \<le> int64_max \<Longrightarrow> length (int_str i) \<le> 4300"
  using int_str_length [of i 19] by simp

lemma issue_dump_ok:
  assumes "\<bar>ci_user_id r\<bar> \<le> int64_max" and "pred_option (\<lambda>i. \<bar>i\<bar> \<le> int64_max) (ci_coupon_type r)"
    and "pred_option (\<lambda>i. \<bar>i\<bar> \<le> int64_max) (ci_balance_after_issue r)"
  shows "json_ok (issue_dump r)"
  using assms by (auto simp: issue_dump_def json_opt_def json_int_ok split: option.splits)

lemma claim_dump_ok:
  assumes "\<bar>cb_user_id r\<bar> \<le> int64_max" and "pred_option (\<lambda>i. \<bar>i\<bar> \<le> int64_max) (cb_coupon_type r)"
  shows "json_ok (claim_dump r)"
  using assms by (auto simp: claim_dump_def json_opt_def json_int_ok split: option.splits)

lemma issue_types: "select_issue_coupon_type a = Some ct \<Longrightarrow> ct \<in> {10, 20, 30}"
  by (auto simp: select_issue_coupon_type_def split: if_splits)

lemma claim_types: "ct \<in> set (claim_allowed_coupon_types a) \<Longrightarrow> ct \<in> {10, 20, 30}"
  by (auto simp: claim_allowed_coupon_types_def split: if_splits)

context coupon_redis
begin

text \<open>What a call of \<open>issue_coupon_for_order\<close> that starts in \<open>s\<close> leaves behind.\<close>

definition issue_post ::
  "'r \<Rightarrow> int \<Rightarrow> decimal \<Rightarrow> string option \<Rightarrow> coupon_issue_response res \<Rightarrow> 'r \<Rightarrow> bool" where
  "issue_post s u amt no r s' \<longleftrightarrow>
     steady s' \<and> all_balances_ok (view s') \<and>
     (\<forall>u' ct'. balance (view s') u' ct' = balance (view s) u' ct' + (if u' = u \<and> issued_type r = Some ct' then 1 else 0)) \<and>
     (case r of
        Inl e \<Rightarrow> e = InvalidOperation \<or> e = http_error 429 ''Issue coupon rate limit exceeded''
      | Inr resp \<Rightarrow> round_money amt = Inr (ci_order_amount resp) \<and> ci_user_id resp = u \<and>
          ci_coupon_type resp = select_issue_coupon_type (ci_order_amount resp) \<and>
          ci_issued resp = (ci_coupon_type resp \<noteq> None) \<and>
          ci_discount_rate resp = Option.bind (ci_coupon_type resp) (map_of COUPON_RATE_MAP) \<and>
          ci_balance_after_issue resp = map_option (balance (view s') u) (ci_coupon_type resp) \<and>
          (\<exists>s1. steady s1 \<and> clock s1 = clock s \<and> record_issue E u no resp s1 = (r, s') \<and> json_ok (issue_dump resp)))"

lemma issue_below_threshold:
  assumes "steady s1" and "clock s1 = clock s" and "all_balances_ok (view s1)" and "balance (view s1) = balance (view s)"
    and "\<bar>u\<bar> \<le> int64_max" and "round_money amt = Inr a" and "select_issue_coupon_type a = None"
    and rec: "record_issue E u no
      \<lparr>ci_user_id = u, ci_order_amount = a, ci_issued = False, ci_coupon_type = None, ci_discount_rate = None,
       ci_balance_after_issue = None, ci_message = ''Order amount does not meet issue threshold''\<rparr> s1 = (r, s')"
  shows "issue_post s u amt no r s'"
proof -
  let ?resp = "\<lparr>ci_user_id = u, ci_order_amount = a, ci_issued = False, ci_coupon_type = None, ci_discount_rate = None,
      ci_balance_after_issue = None, ci_message = ''Order amount does not meet issue threshold''\<rparr>"
  have js: "json_ok (issue_dump ?resp)" by (rule issue_dump_ok) (simp_all add: assms(5))
  note k = keep_record_run [OF assms(1) js rec [unfolded record_issue_def set_coupon_issue_record_def]]
  have "r = Inr ?resp" "steady s'" "same_balances (view s1) (view s')" using k by simp_all
  with assms rec js show ?thesis
    by (auto simp: issue_post_def issued_type_def same_balances_ok same_balances_level intro!: exI [of _ s1])
qed

lemma issue_above_threshold:
  assumes "steady s1" and "clock s1 = clock s" and "all_balances_ok (view s1)" and "balance (view s1) = balance (view s)"
    and "\<bar>u\<bar> \<le> int64_max" and "balance (view s) u ct < int64_max"
    and "round_money amt = Inr a" and "select_issue_coupon_type a = Some ct"
    and run: "issue_coupon_balance E u ct s1 = (b, s2)"
    and rec: "record_issue E u no
      \<lparr>ci_user_id = u, ci_order_amount = a, ci_issued = True, ci_coupon_type = Some ct,
       ci_discount_rate = map_of COUPON_RATE_MAP ct, ci_balance_after_issue = b, ci_message = ''Coupon issued''\<rparr> s2 = (r, s')"
  shows "b \<noteq> None" and "issue_post s u amt no r s'"
proof -
  have "balance (view s1) u ct < int64_max" using assms(4,6) by simp
  then obtain s2' where i: "issue_coupon_balance E u ct s1 = (Some (balance (view s1) u ct + 1), s2')" "steady s2'" "clock s2' = clock s1"
      "all_balances_ok (view s2')"
      "\<And>u' ct'. balance (view s2') u' ct' = balance (view s1) u' ct' + (if u' = u \<and> ct' = ct then 1 else 0)"
    using issue_balance_run [OF assms(1,3)] by blast
  then have b: "b = Some (balance (view s1) u ct + 1)" and s2: "s2' = s2" using run by simp_all
  show "b \<noteq> None" using b by simp
  let ?resp = "\<lparr>ci_user_id = u, ci_order_amount = a, ci_issued = True, ci_coupon_type = Some ct,
      ci_discount_rate = map_of COUPON_RATE_MAP ct, ci_balance_after_issue = b, ci_message = ''Coupon issued''\<rparr>"
  have "0 \<le> balance (view s1) u ct" using assms(3) hash_level_bounds by (simp add: balance_def all_balances_ok_def)
  then have js: "json_ok (issue_dump ?resp)"
    using issue_types [OF assms(8)] assms(4,5,6) by (intro issue_dump_ok) (auto simp: b)
  note k = keep_record_run [OF i(2) js, unfolded s2, OF rec [unfolded record_issue_def set_coupon_issue_record_def]]
  have "r = Inr ?resp" "steady s'" "same_balances (view s2) (view s')" using k by simp_all
  with assms(2,4,7,8) i rec js b show "issue_post s u amt no r s'"
    by (auto simp: issue_post_def issued_type_def same_balances_ok same_balances_level s2 intro!: exI [of _ s2])
qed

lemma issue_run:
  assumes "steady s" and "all_balances_ok (view s)" and "\<And>ct. balance (view s) u ct < int64_max" and "\<bar>u\<bar> \<le> int64_max"
    and run: "issue_coupon_for_order E u amt no s = (r, s')"
  shows "issue_post s u amt no r s'"
proof (cases "round_money amt")
  case (Inl e)
  then have "e = InvalidOperation" by (auto simp: round_money_def quantize_cents_def Let_def split: if_splits)
  with Inl assms(1,2) run show ?thesis
    by (auto simp: issue_coupon_for_order_def bind_prog_def issued_type_def issue_post_def)
next
  case a: (Inr a)
  obtain l s1 where l: "coupon_rate_limit E (issue_rate_key u) (ps_coupon_issue_rate_limit_max_requests (pe_settings E))
      ''Issue coupon rate limit exceeded'' s = (l, s1)" by fastforce
  note lim = coupon_limit_run [OF assms(1) l coupon_keys_differ(1)]
  have ok1: "all_balances_ok (view s1)" and b1: "balance (view s1) = balance (view s)"
    using lim(3) assms(2) same_balances_ok same_balances_level by (auto simp: fun_eq_iff)
  consider (limited) "l = Inl (http_error 429 ''Issue coupon rate limit exceeded'')" | (below) "l = Inr ()" "select_issue_coupon_type a = None"
    | (above) ct where "l = Inr ()" "select_issue_coupon_type a = Some ct"
    using lim(4) by (cases "select_issue_coupon_type a") auto
  then show ?thesis
  proof cases
    case limited
    then show ?thesis using l a run ok1 b1 lim(1)
      by (auto simp: issue_coupon_for_order_def bind_prog_def issued_type_def issue_post_def)
  next
    case below
    with run l a show ?thesis
      by (intro issue_below_threshold [OF lim(1,2) ok1 b1 assms(4) a]) (simp_all add: issue_coupon_for_order_def bind_prog_def)
  next
    case (above ct)
    obtain b s2 where b: "issue_coupon_balance E u ct s1 = (b, s2)" by fastforce
    note fin = issue_above_threshold [OF lim(1,2) ok1 b1 assms(4,3) a above(2) b]
    from run l a above b fin(1) [OF surjective_pairing] show ?thesis
      by (intro fin(2)) (auto simp: issue_coupon_for_order_def bind_prog_def split: option.splits)
  qed
qed

end

definition amount_ok :: "decimal \<Rightarrow> bool" where
  "amount_ok amt = (case round_money amt of Inl _ \<Rightarrow> True | Inr a \<Rightarrow> 0 \<le> coeff a \<and> coeff a < 10 ^ 26)"

lemma rate_of_type: "ct \<in> {10, 20, 30} \<Longrightarrow> map_of COUPON_RATE_MAP ct = Some (Dec ct (- 2))"
  by (auto simp: COUPON_RATE_MAP_def)

lemma best_type_member: "best_type ks u cts = Some ct \<Longrightarrow> ct \<in> set cts \<and> 0 < balance ks u ct"
  by (auto simp: best_type_def find_Some_iff)

context coupon_redis
begin

definition claim_post ::
  "'r \<Rightarrow> int \<Rightarrow> decimal \<Rightarrow> string option \<Rightarrow> coupon_claim_best_response res \<Rightarrow> 'r \<Rightarrow> bool" where
  "claim_post s u amt no r s' \<longleftrightarrow>
     steady s' \<and> all_balances_ok (view s') \<and>
     (\<forall>u' ct'. balance (view s') u' ct' = balance (view s) u' ct' - (if u' = u \<and> claimed_type r = Some ct' then 1 else 0)) \<and>
     (case r of
        Inl e \<Rightarrow> e = InvalidOperation \<or> e = http_error 429 ''Claim coupon rate limit exceeded''
      | Inr resp \<Rightarrow>
          (\<exists>c. round_money amt = Inr (Dec c (- 2)) \<and> cb_order_amount resp = Dec c (- 2) \<and> cb_user_id resp = u \<and>
             cb_coupon_type resp = best_type (view s) u (claim_allowed_coupon_types (Dec c (- 2))) \<and>
             cb_claimed resp = (cb_coupon_type resp \<noteq> None) \<and>
             (case cb_coupon_type resp of
                None \<Rightarrow> cb_discount_rate resp = Dec 0 0 \<and> cb_discount_amount resp = Dec 0 0 \<and> cb_final_amount resp = Dec c (- 2)
              | Some ct \<Rightarrow> cb_discount_rate resp = Dec ct (- 2) \<and>
                  cb_discount_amount resp = Dec (round_half_up (c * ct) 100) (- 2) \<and>
                  cb_final_amount resp = Dec (c - round_half_up (c * ct) 100) (- 2))) \<and>
          (\<exists>s1. steady s1 \<and> clock s1 = clock s \<and> record_claim E u no resp s1 = (r, s') \<and> json_ok (claim_dump resp)))"

text \<open>The end of a claim that left \<open>s1\<close> and answers \<open>resp\<close>.\<close>

lemma claim_finish:
  assumes "steady s1" and "clock s1 = clock s" and "all_balances_ok (view s1)"
    and "\<And>u' ct'. balance (view s1) u' ct' = balance (view s) u' ct' - (if u' = u \<and> cb_coupon_type resp = Some ct' then 1 else 0)"
    and "\<bar>u\<bar> \<le> int64_max" and "cb_user_id resp = u" and "round_money amt = Inr (Dec c (- 2))" and "cb_order_amount resp = Dec c (- 2)"
    and "cb_coupon_type resp = best_type (view s) u (claim_allowed_coupon_types (Dec c (- 2)))"
    and "cb_claimed resp = (cb_coupon_type resp \<noteq> None)"
    and "case cb_coupon_type resp of
           None \<Rightarrow> cb_discount_rate resp = Dec 0 0 \<and> cb_discount_amount resp = Dec 0 0 \<and> cb_final_amount resp = Dec c (- 2)
         | Some ct \<Rightarrow> cb_discount_rate resp = Dec ct (- 2) \<and>
             cb_discount_amount resp = Dec (round_half_up (c * ct) 100) (- 2) \<and>
             cb_final_amount resp = Dec (c - round_half_up (c * ct) 100) (- 2)"
    and rec: "record_claim E u no resp s1 = (r, s')"
  shows "claim_post s u amt no r s'"
proof -
  have "pred_option (\<lambda>i. \<bar>i\<bar> \<le> int64_max) (cb_coupon_type resp)"
  proof (cases "cb_coupon_type resp")
    case (Some ct)
    then have "ct \<in> set (claim_allowed_coupon_types (Dec c (- 2)))" using assms(9) best_type_member by metis
    from claim_types [OF this] Some show ?thesis by auto
  qed simp
  then have js: "json_ok (claim_dump resp)" using assms(5,6) by (intro claim_dump_ok) simp_all
  note k = keep_record_run [OF assms(1) js rec [unfolded record_claim_def set_coupon_claim_record_def]]
  have r: "r = Inr resp" and st: "steady s'" and sb: "same_balances (view s1) (view s')" using k by simp_all
  have bal: "\<forall>u' ct'. balance (view s') u' ct' = balance (view s) u' ct' - (if u' = u \<and> cb_coupon_type resp = Some ct' then 1 else 0)"
    by (simp only: same_balances_level [OF sb] assms(4) simp_thms)
  have ok: "all_balances_ok (view s')" using same_balances_ok [OF sb] assms(3) by simp
  show ?thesis
    unfolding claim_post_def claimed_type_def r sum.case
    by (intro conjI exI [of _ c] exI [of _ s1]) (rule st ok bal assms rec [unfolded r] js)+
qed

lemma claim_allowed_run:
  assumes "steady s1" and "clock s1 = clock s" and "all_balances_ok (view s1)" and "balance (view s1) = balance (view s)"
    and "\<bar>u\<bar> \<le> int64_max" and a: "round_money amt = Inr (Dec c (- 2))" and "0 \<le> c" and "c < 10 ^ 26"
    and ne: "claim_allowed_coupon_types (Dec c (- 2)) \<noteq> []"
    and lim: "coupon_rate_limit E (claim_rate_key u) (ps_coupon_claim_rate_limit_max_requests (pe_settings E))
      ''Claim coupon rate limit exceeded'' s = (Inr (), s1)"
    and run: "claim_best_coupon_for_order E u amt no s = (r, s')"
  shows "claim_post s u amt no r s'"
proof -
  let ?cts = "claim_allowed_coupon_types (Dec c (- 2))"
  have small: "\<forall>ct \<in> set ?cts. \<bar>ct\<bar> \<le> int64_max" using claim_types by fastforce
  have bt: "best_type (view s1) u ?cts = best_type (view s) u ?cts" by (simp add: best_type_def assms(4))
  obtain s2 where cl: "claim_best_coupon_balance E u ?cts s1 = (Inr (Some (case best_type (view s) u ?cts of None \<Rightarrow> 0 | Some ct \<Rightarrow> ct)), s2)"
      "steady s2" "clock s2 = clock s1" "all_balances_ok (view s2)"
      "\<And>u' ct'. balance (view s2) u' ct' = balance (view s) u' ct' - (if u' = u \<and> best_type (view s) u ?cts = Some ct' then 1 else 0)"
    using claim_balance_run [OF assms(1,3) ne small, of u] unfolding bt assms(4) by metis
  show ?thesis
  proof (cases "best_type (view s) u ?cts")
    case None
    with cl a ne lim run show ?thesis
      by (intro claim_finish [OF cl(2) _ cl(4) _ assms(5) _ a, where resp =
            "\<lparr>cb_user_id = u, cb_order_amount = Dec c (- 2), cb_claimed = False, cb_coupon_type = None,
              cb_discount_rate = Dec 0 0, cb_discount_amount = Dec 0 0, cb_final_amount = Dec c (- 2),
              cb_message = ''No eligible coupon available''\<rparr>"])
        (simp_all add: assms(2) claim_best_coupon_for_order_def bind_prog_def Let_def)
  next
    case (Some ct)
    then have ct: "ct \<in> {10, 20, 30}" using best_type_member claim_types by blast
    then have "0 \<le> ct" "ct \<le> 100" "ct \<noteq> 0" by auto
    note money = discount_in_cents [OF assms(7,8) this(1,2)]
    from Some cl a ne lim run money rate_of_type [OF ct] \<open>ct \<noteq> 0\<close> show ?thesis
      by (intro claim_finish [OF cl(2) _ cl(4) _ assms(5) _ a, where resp =
            "\<lparr>cb_user_id = u, cb_order_amount = Dec c (- 2), cb_claimed = True, cb_coupon_type = Some ct,
              cb_discount_rate = Dec ct (- 2), cb_discount_amount = Dec (round_half_up (c * ct) 100) (- 2),
              cb_final_amount = Dec (c - round_half_up (c * ct) 100) (- 2), cb_message = ''Coupon claimed''\<rparr>"])
        (simp_all add: assms(2) claim_best_coupon_for_order_def bind_prog_def Let_def)
  qed
qed

lemma claim_run:
  assumes "steady s" and "all_balances_ok (view s)" and "\<bar>u\<bar> \<le> int64_max" and "amount_ok amt"
    and run: "claim_best_coupon_for_order E u amt no s = (r, s')"
  shows "claim_post s u amt no r s'"
proof (cases "round_money amt")
  case (Inl e)
  then have "e = InvalidOperation" by (auto simp: round_money_def quantize_cents_def Let_def split: if_splits)
  with Inl assms(1,2) run show ?thesis
    by (auto simp: claim_best_coupon_for_order_def bind_prog_def claimed_type_def claim_post_def)
next
  case (Inr a)
  then obtain c where a: "round_money amt = Inr (Dec c (- 2))" and c: "0 \<le> c" "c < 10 ^ 26"
    using quantize_cents_Inr [of amt a] assms(4) by (auto simp: round_money_def amount_ok_def)
  obtain l s1 where l: "coupon_rate_limit E (claim_rate_key u) (ps_coupon_claim_rate_limit_max_requests (pe_settings E))
      ''Claim coupon rate limit exceeded'' s = (l, s1)" by fastforce
  note lim = coupon_limit_run [OF assms(1) l coupon_keys_differ(2)]
  have ok1: "all_balances_ok (view s1)" and b1: "balance (view s1) = balance (view s)"
    using lim(3) assms(2) same_balances_ok same_balances_level by (auto simp: fun_eq_iff)
  consider (limited) "l = Inl (http_error 429 ''Claim coupon rate limit exceeded'')"
    | (below) "l = Inr ()" "claim_allowed_coupon_types (Dec c (- 2)) = []"
    | (above) "l = Inr ()" "claim_allowed_coupon_types (Dec c (- 2)) \<noteq> []"
    using lim(4) by auto
  then show ?thesis
  proof cases
    case limited
    then show ?thesis using l a run ok1 b1 lim(1)
      by (auto simp: claim_best_coupon_for_order_def bind_prog_def claimed_type_def claim_post_def)
  next
    case below
    with run l a b1 show ?thesis
      by (intro claim_finish [OF lim(1,2) ok1 _ assms(3) _ a, where resp =
            "\<lparr>cb_user_id = u, cb_order_amount = Dec c (- 2), cb_claimed = False, cb_coupon_type = None,
              cb_discount_rate = Dec 0 0, cb_discount_amount = Dec 0 0, cb_final_amount = Dec c (- 2),
              cb_message = ''Order amount does not meet claim threshold''\<rparr>"])
        (simp_all add: claim_best_coupon_for_order_def bind_prog_def Let_def best_type_def)
  next
    case above
    with l show ?thesis by (intro claim_allowed_run [OF lim(1,2) ok1 b1 assms(3) a c]) (simp_all add: run)
  qed
qed

end

text \<open>
  C19: issue_coupon_for_order adds exactly one coupon of the type its amount earns and reports
  the new balance, or changes no balance at all.
\<close>

theorem issue_adds_one_coupon:
  assumes "coupon_redis E view clock up steady elapse"
    and "steady s" and "all_balances_ok (view s)" and "\<And>ct. balance (view s) u ct < int64_max" and "\<bar>u\<bar> \<le> int64_max"
    and "issue_coupon_for_order E u amt no s = (r, s')"
  shows "(\<forall>u' ct'. balance (view s') u' ct' =
            balance (view s) u' ct' + (if u' = u \<and> issued_type r = Some ct' then 1 else 0)) \<and>
         (case r of
            Inl e \<Rightarrow> e = InvalidOperation \<or> e = http_error 429 ''Issue coupon rate limit exceeded''
          | Inr resp \<Rightarrow> round_money amt = Inr (ci_order_amount resp) \<and>
              ci_coupon_type resp = select_issue_coupon_type (ci_order_amount resp) \<and>
              ci_balance_after_issue resp = map_option (balance (view s') u) (ci_coupon_type resp))"
  using coupon_redis.issue_run [OF assms(1-3) assms(4,5,6)]
  by (auto simp: coupon_redis.issue_post_def [OF assms(1)] split: sum.splits)

text \<open>
  The types a user can claim for an amount in cents, written out: 10 from 300.00, 20 from 600.00
  and 30 from 900.00, each if the user holds one.
\<close>

definition claimable :: "keyspace \<Rightarrow> int \<Rightarrow> int \<Rightarrow> int \<Rightarrow> bool" where
  "claimable ks u c ct \<longleftrightarrow>
     (ct = 10 \<and> 30000 \<le> c \<or> ct = 20 \<and> 60000 \<le> c \<or> ct = 30 \<and> 90000 \<le> c) \<and> 0 < balance ks u ct"

lemma best_type_claimable:
  "case best_type ks u (claim_allowed_coupon_types (Dec c (- 2))) of
     None \<Rightarrow> \<forall>ct. \<not> claimable ks u c ct
   | Some ct \<Rightarrow> claimable ks u c ct \<and> (\<forall>ct'. claimable ks u c ct' \<longrightarrow> ct' \<le> ct)"
  by (auto simp: best_type_def claim_allowed_coupon_types_def claimable_def dec_le_cents)

text \<open>
  C18: claim_best_coupon_for_order takes one coupon of the highest type the amount allows and
  the user holds, answers discount and final amount in cents that add up to the amount, and
  changes no other balance.
\<close>

theorem claim_takes_best_coupon:
  assumes "coupon_redis E view clock up steady elapse"
    and "steady s" and "all_balances_ok (view s)" and "\<bar>u\<bar> \<le> int64_max" and "amount_ok amt"
    and "claim_best_coupon_for_order E u amt no s = (r, s')"
  shows "(\<forall>u' ct'. balance (view s') u' ct' =
            balance (view s) u' ct' - (if u' = u \<and> claimed_type r = Some ct' then 1 else 0)) \<and>
         (case r of
            Inl e \<Rightarrow> e = InvalidOperation \<or> e = http_error 429 ''Claim coupon rate limit exceeded''
          | Inr resp \<Rightarrow>
              round_money amt = Inr (cb_order_amount resp) \<and>
              (\<exists>c d. cb_order_amount resp = Dec c (- 2) \<and>
                 (case cb_coupon_type resp of
                    None \<Rightarrow> \<forall>ct. \<not> claimable (view s) u c ct
                  | Some ct \<Rightarrow> claimable (view s) u c ct \<and> (\<forall>ct'. claimable (view s) u c ct' \<longrightarrow> ct' \<le> ct)) \<and>
                 cb_final_amount resp = Dec (c - d) (- 2) \<and> 0 \<le> d \<and> d \<le> c \<and>
                 (case cb_coupon_type resp of
                    None \<Rightarrow> d = 0 \<and> cb_discount_amount resp = Dec 0 0
                  | Some ct \<Rightarrow> cb_discount_amount resp = Dec d (- 2) \<and>
                      - 50 < 100 * d - c * ct \<and> 100 * d - c * ct \<le> 50)))"
proof -
  have post: "coupon_redis.claim_post E view clock steady s u amt no r s'"
    by (rule coupon_redis.claim_run [OF assms])
  show ?thesis
  proof (cases r)
    case (Inl e)
    with post show ?thesis by (simp add: coupon_redis.claim_post_def [OF assms(1)])
  next
    case (Inr resp)
    with post obtain c where c: "round_money amt = Inr (Dec c (- 2))" "cb_order_amount resp = Dec c (- 2)"
        "cb_coupon_type resp = best_type (view s) u (claim_allowed_coupon_types (Dec c (- 2)))"
        "case cb_coupon_type resp of
           None \<Rightarrow> cb_discount_rate resp = Dec 0 0 \<and> cb_discount_amount resp = Dec 0 0 \<and> cb_final_amount resp = Dec c (- 2)
         | Some ct \<Rightarrow> cb_discount_rate resp = Dec ct (- 2) \<and>
             cb_discount_amount resp = Dec (round_half_up (c * ct) 100) (- 2) \<and>
             cb_final_amount resp = Dec (c - round_half_up (c * ct) 100) (- 2)"
      by (auto simp: coupon_redis.claim_post_def [OF assms(1)])
    have c0: "0 \<le> c" "c < 10 ^ 26" using assms(5) c(1) by (simp_all add: amount_ok_def)
    have "\<exists>d. cb_final_amount resp = Dec (c - d) (- 2) \<and> 0 \<le> d \<and> d \<le> c \<and>
        (case cb_coupon_type resp of
           None \<Rightarrow> d = 0 \<and> cb_discount_amount resp = Dec 0 0
         | Some ct \<Rightarrow> cb_discount_amount resp = Dec d (- 2) \<and> - 50 < 100 * d - c * ct \<and> 100 * d - c * ct \<le> 50)"
    proof (cases "cb_coupon_type resp")
      case None
      with c(4) c0 show ?thesis by (intro exI [of _ 0]) simp
    next
      case (Some ct)
      then have "ct \<in> {10, 20, 30}" using c(3) best_type_member claim_types by metis
      then have ct: "0 \<le> ct" "ct \<le> 100" by auto
      let ?d = "round_half_up (c * ct) 100"
      have "0 \<le> c * ct" using c0(1) ct(1) by simp
      from round_half_up_bounds(1,2) [OF this, of 100] have "- 50 < 100 * ?d - c * ct" "100 * ?d - c * ct \<le> 50" by simp_all
      with Some c(4) discount_in_cents(2,3) [OF c0 ct] show ?thesis by (intro exI [of _ ?d]) simp
    qed
    then obtain d where d: "cb_final_amount resp = Dec (c - d) (- 2)" "0 \<le> d" "d \<le> c"
        "case cb_coupon_type resp of
           None \<Rightarrow> d = 0 \<and> cb_discount_amount resp = Dec 0 0
         | Some ct \<Rightarrow> cb_discount_amount resp = Dec d (- 2) \<and> - 50 < 100 * d - c * ct \<and> 100 * d - c * ct \<le> 50" by blast
    have bal: "\<forall>u' ct'. balance (view s') u' ct' =
        balance (view s) u' ct' - (if u' = u \<and> claimed_type (Inr resp) = Some ct' then 1 else 0)"
      using post Inr by (simp add: coupon_redis.claim_post_def [OF assms(1)])
    show ?thesis
      unfolding Inr sum.case
      by (intro conjI exI [of _ c] exI [of _ d])
        (rule bal c(2) d best_type_claimable [of "view s" u c, folded c(3)] | simp add: c(1,2))+
  qed
qed

text \<open>Any sequence of issues and claims, of any users.\<close>

datatype coupon_op = Issue int decimal "string option" | Claim int decimal "string option"

fun op_ok :: "coupon_op \<Rightarrow> bool" where
  "op_ok (Issue u amt no) = (\<bar>u\<bar> \<le> int64_max)"
| "op_ok (Claim u amt no) = (\<bar>u\<bar> \<le> int64_max \<and> amount_ok amt)"

fun coupon_step :: "('r, 'd) product_env \<Rightarrow> coupon_op \<Rightarrow> 'r \<Rightarrow> (int \<times> int option \<times> int) \<times> 'r" where
  "coupon_step E (Issue u amt no) s =
     (case issue_coupon_for_order E u amt no s of (r, s') \<Rightarrow> ((u, issued_type r, 1), s'))"
| "coupon_step E (Claim u amt no) s =
     (case claim_best_coupon_for_order E u amt no s of (r, s') \<Rightarrow> ((u, claimed_type r, - 1), s'))"

fun coupon_ops :: "('r, 'd) product_env \<Rightarrow> coupon_op list \<Rightarrow> 'r \<Rightarrow> (int \<times> int option \<times> int) list \<times> 'r" where
  "coupon_ops E [] s = ([], s)"
| "coupon_ops E (op # ops) s =
     (case coupon_step E op s of (x, s1) \<Rightarrow> (case coupon_ops E ops s1 of (xs, s2) \<Rightarrow> (x # xs, s2)))"

definition coupon_effect :: "int \<Rightarrow> int \<Rightarrow> int \<times> int option \<times> int \<Rightarrow> int" where
  "coupon_effect u ct x = (case x of (v, t, n) \<Rightarrow> if v = u \<and> t = Some ct then n else 0)"

context coupon_redis
begin

lemma coupon_step_run:
  assumes "steady s" and "all_balances_ok (view s)" and "\<And>u ct. balance (view s) u ct < int64_max" and "op_ok op"
    and "coupon_step E op s = (x, s')"
  shows "steady s' \<and> all_balances_ok (view s') \<and>
    (\<forall>u ct. balance (view s') u ct = balance (view s) u ct + coupon_effect u ct x)"
proof (cases op)
  case (Issue u amt no)
  then obtain r where r: "issue_coupon_for_order E u amt no s = (r, s')" "x = (u, issued_type r, 1)"
    using assms(5) by (auto split: prod.splits)
  have "issue_post s u amt no r s'" using Issue assms(4) by (intro issue_run [OF assms(1-3) _ r(1)]) simp
  then show ?thesis by (auto simp: issue_post_def coupon_effect_def r(2))
next
  case (Claim u amt no)
  then obtain r where r: "claim_best_coupon_for_order E u amt no s = (r, s')" "x = (u, claimed_type r, - 1)"
    using assms(5) by (auto split: prod.splits)
  have "claim_post s u amt no r s'" using Claim assms(4) by (intro claim_run [OF assms(1,2) _ _ r(1)]) simp_all
  then show ?thesis by (auto simp: claim_post_def coupon_effect_def r(2))
qed

lemma coupon_effect_le: "coupon_step E op s = (x, s') \<Longrightarrow> coupon_effect u ct x \<le> 1"
  by (cases op) (auto simp: coupon_effect_def split: prod.splits)

end

text \<open>
  C7: Over any sequence of issues and claims of any users the balance of a coupon type is the
  number of coupons issued less the number claimed, and never negative.
\<close>

theorem coupons_are_conserved:
  assumes "coupon_redis E view clock up steady elapse"
    and "steady s" and "all_balances_ok (view s)" and "list_all op_ok ops"
    and "\<And>u ct. balance (view s) u ct + int (length ops) \<le> int64_max"
    and "coupon_ops E ops s = (xs, s')"
  shows "balance (view s') u ct = balance (view s) u ct + sum_list (map (coupon_effect u ct) xs) \<and>
         0 \<le> balance (view s') u ct"
  using assms(2-6)
proof (induction ops arbitrary: s xs)
  case Nil
  then show ?case using hash_level_bounds by (auto simp: balance_def all_balances_ok_def)
next
  case (Cons op ops)
  obtain x s1 where x: "coupon_step E op s = (x, s1)" by fastforce
  obtain xs1 where xs: "coupon_ops E ops s1 = (xs1, s')" "xs = x # xs1" using Cons.prems(5) x by (auto split: prod.splits)
  have lt: "balance (view s) v t < int64_max" for v t using Cons.prems(4) [of v t] by simp
  have st: "steady s1" "all_balances_ok (view s1)" "\<And>u ct. balance (view s1) u ct = balance (view s) u ct + coupon_effect u ct x"
    using coupon_redis.coupon_step_run [OF assms(1) Cons.prems(1,2) lt _ x] Cons.prems(3) by auto
  have "balance (view s1) v t + int (length ops) \<le> int64_max" for v t
    using Cons.prems(4) [of v t] st(3) [of v t] coupon_redis.coupon_effect_le [OF assms(1) x, of v t] by simp
  from Cons.IH [OF st(1,2) _ this xs(1)] Cons.prems(3) st(3) [of u ct] xs(2) show ?case by simp
qed

section \<open>Records of an order\<close>

lemma issue_record_parses:
  assumes "pydantic_json Y" and "ci_order_amount r = Dec c (- 2)" and "0 \<le> c"
    and "ci_discount_rate r = Option.bind (ci_coupon_type r) (map_of COUPON_RATE_MAP)"
    and "ci_coupon_type r = select_issue_coupon_type (ci_order_amount r)"
  shows "issue_response_of Y no (issue_dump r) =
    Inr \<lparr>ci_user_id = ci_user_id r, ci_order_amount = ci_order_amount r, ci_issued = ci_issued r,
         ci_coupon_type = ci_coupon_type r, ci_discount_rate = ci_discount_rate r,
         ci_balance_after_issue = ci_balance_after_issue r, ci_message = ci_message r, oi_order_no = no\<rparr>"
proof -
  note Y = pydantic_json.json_int [OF assms(1)] pydantic_json.json_bool [OF assms(1)]
    pydantic_json.json_str [OF assms(1)] pydantic_json.json_decimal [OF assms(1)]
  have am: "pd_decimal Y (PStr (dec_str (Dec c (- 2)))) = Some (Dec c (- 2))" by (rule Y(4) [OF dec_of_str_cents [OF assms(3)]])
  have rate: "ci_discount_rate r = None \<or> (\<exists>x. ci_discount_rate r = Some x \<and> pd_decimal Y (PStr (dec_str x)) = Some x)"
  proof (cases "ci_coupon_type r")
    case (Some ct)
    then have "ct \<in> {10, 20, 30}" using assms(5) issue_types by metis
    with Some assms(4) Y(4) [OF dec_of_str_cents] rate_of_type [of ct] show ?thesis by auto
  qed (simp add: assms(4))
  from rate show ?thesis
    by (cases "ci_coupon_type r"; cases "ci_balance_after_issue r")
      (auto simp: issue_response_of_def issue_dump_def record_fields_def field_def field_optional_def dict_get_def
        json_opt_def assms(2) am Y(1-3))
qed

context coupon_redis
begin

lemma get_cached_run:
  assumes "steady s" and "json_ok v" and "json_text v \<noteq> []" and "view s k = Some (RStr (json_text v), e)"
  shows "fst (get_cached_json E k s) = Inr (Some v)"
proof -
  have "fst (redis_get (pe_redis E) k s) = Inr (Some (json_text v))"
    using implements_up(1) [OF get_law steady_up [OF assms(1)], of k] assms(4) by (simp add: ks_get_def)
  moreover have "json_loads (json_text v) = Some v"
    by (rule json_loads_dumps) (simp add: json_dumps_def assms(2))
  ultimately show ?thesis using assms(3)
    by (simp add: get_cached_json_def ps_safe_execute_def ps_client safe_execute_Some case_prod_unfold loads_value_def)
qed

end

text \<open>
  C34: The record of an issue can be read back by its user and order number, with all fields as
  answered, until its time to live has passed.
\<close>

theorem issue_record_round_trip:
  assumes "coupon_redis E view clock up steady elapse" and "pydantic_json (pe_pydantic E)"
    and "steady s" and "all_balances_ok (view s)" and "\<And>ct. balance (view s) u ct < int64_max" and "\<bar>u\<bar> \<le> int64_max"
    and "0 \<le> coeff amt" and "no \<noteq> []"
    and "issue_coupon_for_order E u amt (Some no) s = (Inr resp, s')"
    and "0 \<le> t" and "t < ps_coupon_order_record_ttl_seconds (pe_settings E) * second"
  shows "fst (get_user_coupon_issue_by_order E u no (elapse t s')) =
    Inr \<lparr>ci_user_id = u, ci_order_amount = ci_order_amount resp, ci_issued = ci_issued resp,
         ci_coupon_type = ci_coupon_type resp, ci_discount_rate = ci_discount_rate resp,
         ci_balance_after_issue = ci_balance_after_issue resp, ci_message = ci_message resp, oi_order_no = no\<rparr>"
proof -
  let ?ttl = "ps_coupon_order_record_ttl_seconds (pe_settings E)" and ?k = "make_coupon_issue_record_key u no"
  have post: "coupon_redis.issue_post E view clock steady s u amt (Some no) (Inr resp) s'"
    by (rule coupon_redis.issue_run [OF assms(1,3,4,5,6,9)])
  then obtain s1 where s1: "steady s1" "record_issue E u (Some no) resp s1 = (Inr resp, s')" "json_ok (issue_dump resp)"
    by (auto simp: coupon_redis.issue_post_def [OF assms(1)])
  note k = coupon_redis.keep_record_run [OF assms(1) s1(1,3) s1(2) [unfolded record_issue_def set_coupon_issue_record_def] coupon_keys_differ(3)]
  have "0 < ?ttl" using assms(10,11) by (simp add: zero_less_mult_iff)
  then have v: "view s' ?k = Some (RStr (json_text (issue_dump resp)), Some (clock s1 + ?ttl * second))" using k(5) assms(8) by simp
  note srv = coupon_redis.axioms(1) [OF assms(1)]
  have v': "view (elapse t s') ?k = Some (RStr (json_text (issue_dump resp)), Some (clock s1 + ?ttl * second))"
    using redis_server.elapse_view [OF srv assms(10), of s'] v k(4) assms(11) by (simp add: purge_def)
  have "json_text (issue_dump resp) \<noteq> []" by (simp add: issue_dump_def)
  note got = coupon_redis.get_cached_run [OF assms(1) redis_server.elapse_steady [OF srv k(2)] s1(3) this v']
  obtain c where c: "round_money amt = Inr (ci_order_amount resp)" "ci_order_amount resp = Dec c (- 2)"
    using post quantize_cents_Inr [of amt] by (auto simp: coupon_redis.issue_post_def [OF assms(1)] round_money_def)
  have "0 \<le> c" using quantize_cents_nonneg [of amt c] c assms(7) by (simp add: round_money_def)
  from issue_record_parses [OF assms(2) c(2) this, of no] post
  have p: "issue_response_of (pe_pydantic E) no (issue_dump resp) =
    Inr \<lparr>ci_user_id = u, ci_order_amount = ci_order_amount resp, ci_issued = ci_issued resp,
         ci_coupon_type = ci_coupon_type resp, ci_discount_rate = ci_discount_rate resp,
         ci_balance_after_issue = ci_balance_after_issue resp, ci_message = ci_message resp, oi_order_no = no\<rparr>"
    by (simp add: coupon_redis.issue_post_def [OF assms(1)])
  have "issue_dump resp \<noteq> PNone" by (simp add: issue_dump_def)
  with p got show ?thesis
    by (cases "get_cached_json E ?k (elapse t s')")
      (simp add: get_user_coupon_issue_by_order_def get_coupon_issue_record_def bind_prog_def)
qed

section \<open>The coupon rate counter\<close>

context coupon_redis
begin

lemma ps_increment_steady:
  assumes "steady s" and "counter_ok (view s) k" and "counter_level (view s) k < int64_max" and "0 < w"
  shows "fst (ps_increment_rate_limit E k w s) = Some (counter_level (view s) k + 1)"
    and "counter_level (view (snd (ps_increment_rate_limit E k w s))) k = counter_level (view s) k + 1"
    and "steady (snd (ps_increment_rate_limit E k w s)) \<and> counter_ok (view (snd (ps_increment_rate_limit E k w s))) k"
    and "k' \<noteq> k \<Longrightarrow> view (snd (ps_increment_rate_limit E k w s)) k' = view s k'"
    and "1 \<le> counter_level (view s) k \<Longrightarrow>
      view (snd (ps_increment_rate_limit E k w s)) = snd (ks_incr k (clock s) (view s))"
proof -
  note i = execute_run [of "\<lambda>c. redis_incr c k", OF incr_law assms(1)]
  note x = execute_run [of "\<lambda>c. redis_expire c k w", OF expire_law i(4)]
  note ic = ks_incr_counter [OF assms(2,3), where t = "clock s"]
  note ec = ks_expire_counter [OF assms(4), where k = k]
  obtain s1 where s1: "ps_safe_execute E (\<lambda>client. some_reply (redis_incr client k)) s = (Some (counter_level (view s) k + 1), s1)"
    using i(1) ic(1) by (cases "ps_safe_execute E (\<lambda>client. some_reply (redis_incr client k)) s") simp
  show "fst (ps_increment_rate_limit E k w s) = Some (counter_level (view s) k + 1)"
    using s1 by (simp add: ps_increment_rate_limit_def)
  show "counter_level (view (snd (ps_increment_rate_limit E k w s))) k = counter_level (view s) k + 1"
    and "steady (snd (ps_increment_rate_limit E k w s)) \<and> counter_ok (view (snd (ps_increment_rate_limit E k w s))) k"
    and "k' \<noteq> k \<Longrightarrow> view (snd (ps_increment_rate_limit E k w s)) k' = view s k'"
    and "1 \<le> counter_level (view s) k \<Longrightarrow>
      view (snd (ps_increment_rate_limit E k w s)) = snd (ks_incr k (clock s) (view s))"
    using s1 i(2-4) x(2-4) ic ec by (auto simp: ps_increment_rate_limit_def ks_frames)
qed

sublocale counter: window_counter "ps_increment_rate_limit E" "\<lambda>s. counter_level (view s)"
  "\<lambda>s k. steady s \<and> counter_ok (view s) k"
  using ps_increment_steady by unfold_locales (auto simp: counter_level_def)

lemma limits_in_window:
  assumes "steady s" and "view s k = None" and "0 < w" and "0 \<le> mx" and "int n \<le> int64_max"
  shows "map (over_limit mx) (fst (bump_times (ps_increment_rate_limit E) k w n s)) = map (\<lambda>i. mx \<le> int i) [0..<n]"
  using assms by (intro counter.over_limit_in_window) (simp_all add: counter_ok_def counter_level_def)

end

theorem coupon_counter_limits:
  assumes "coupon_redis E view clock up steady elapse"
    and "steady s" and "view s k = None" and "0 < w" and "0 \<le> mx" and "int n \<le> int64_max"
  shows "map (over_limit mx) (fst (bump_times (ps_increment_rate_limit E) k w n s)) = map (\<lambda>i. mx \<le> int i) [0..<n]"
  by (rule coupon_redis.limits_in_window [OF assms])

theorem coupon_counter_without_expiry_stays:
  assumes "coupon_redis E view clock up steady elapse"
    and "steady s" and "counter_ok (view s) k" and "1 \<le> counter_level (view s) k" and "counter_level (view s) k < int64_max"
    and "0 < w" and "\<exists>v. view s k = Some (v, None)" and "0 \<le> t"
  shows "view (elapse t (snd (ps_increment_rate_limit E k w s))) k = Some (RStr (int_str (counter_level (view s) k + 1)), None)"
proof -
  note srv = coupon_redis.axioms(1) [OF assms(1)]
  have "view (snd (ps_increment_rate_limit E k w s)) k = Some (RStr (int_str (counter_level (view s) k + 1)), None)"
    using coupon_redis.ps_increment_steady(5) [OF assms(1,2,3,5,6,4)] assms(3,5,7)
    by (auto simp: ks_incr_def counter_ok_def counter_level_def split: option.splits rvalue.splits)
  then show ?thesis using redis_server.elapse_view [OF srv assms(8)] by (simp add: purge_def)
qed

section \<open>Witnesses\<close>

interpretation ref_cr: coupon_redis ref_product_env rr_keys rr_clock rr_up rr_steady rr_elapse
  by (intro coupon_redis.intro coupon_redis_axioms.intro)
    (simp_all add: ref_product_env_def product_default_settings_def ref.redis_server_axioms)

lemma fresh_coupons:
  "rr_steady fresh_redis" "all_balances_ok (rr_keys fresh_redis)" "balance (rr_keys fresh_redis) u ct = 0"
  by (simp_all add: fresh_redis_def rr_steady_def all_balances_ok_def balances_ok_def balance_def hash_level_def)

lemma small_amount: "amount_ok (Dec 950 0)" "round_money (Dec 950 0) = Inr (Dec 95000 (- 2))"
  by (simp_all add: amount_ok_def round_money_def quantize_cents_def)

theorem issue_adds_one_coupon_witness:
  "\<exists>r s'. issue_coupon_for_order ref_product_env 7 (Dec 950 0) None fresh_redis = (r, s') \<and>
     (\<exists>n. \<forall>ct. balance (rr_keys s') 7 ct = (if issued_type r = Some ct then n else 0) \<and> n = 1)"
proof -
  obtain r s' where run: "issue_coupon_for_order ref_product_env 7 (Dec 950 0) None fresh_redis = (r, s')" by fastforce
  have "\<forall>u' ct'. balance (rr_keys s') u' ct' = balance (rr_keys fresh_redis) u' ct' + (if u' = 7 \<and> issued_type r = Some ct' then 1 else 0)"
    using issue_adds_one_coupon [OF ref_cr.coupon_redis_axioms fresh_coupons(1,2) _ _ run] by (simp add: fresh_coupons(3))
  then show ?thesis using run by (auto simp: fresh_coupons(3))
qed

text \<open>The user holds one coupon of type 10 and two of type 30.\<close>

definition coupon_holder :: ref_redis where
  "coupon_holder = fresh_redis
     \<lparr>rr_keys := [make_coupon_balance_key 7 \<mapsto> (RHash [(int_str 10, int_str 1), (int_str 30, int_str 2)], None)]\<rparr>"

lemma holder_facts:
  "rr_steady coupon_holder" "all_balances_ok (rr_keys coupon_holder)"
  "balance (rr_keys coupon_holder) 7 ct = (if ct = 10 then 1 else if ct = 30 then 2 else 0)"
  by (simp_all add: coupon_holder_def fresh_redis_def rr_steady_def all_balances_ok_def balances_ok_def balance_def hash_level_def
      redis_int_int_str)

lemma holder_claims:
  "fst (claim_best_coupon_for_order ref_product_env 7 (Dec 950 0) None coupon_holder) =
     Inr \<lparr>cb_user_id = 7, cb_order_amount = Dec 95000 (- 2), cb_claimed = True, cb_coupon_type = Some 30,
          cb_discount_rate = Dec 30 (- 2), cb_discount_amount = Dec 28500 (- 2), cb_final_amount = Dec 66500 (- 2),
          cb_message = ''Coupon claimed''\<rparr>"
  by code_simp

theorem claim_takes_best_coupon_witness:
  "\<exists>resp s'. claim_best_coupon_for_order ref_product_env 7 (Dec 950 0) None coupon_holder = (Inr resp, s') \<and>
     cb_coupon_type resp = Some 30 \<and> cb_final_amount resp = Dec 66500 (- 2) \<and>
     balance (rr_keys s') 7 30 = 1 \<and> balance (rr_keys s') 7 10 = 1"
proof -
  obtain s' where run: "claim_best_coupon_for_order ref_product_env 7 (Dec 950 0) None coupon_holder =
      (Inr \<lparr>cb_user_id = 7, cb_order_amount = Dec 95000 (- 2), cb_claimed = True, cb_coupon_type = Some 30,
            cb_discount_rate = Dec 30 (- 2), cb_discount_amount = Dec 28500 (- 2), cb_final_amount = Dec 66500 (- 2),
            cb_message = ''Coupon claimed''\<rparr>, s')"
    using holder_claims by (metis prod.collapse)
  have "balance (rr_keys s') 7 ct = balance (rr_keys coupon_holder) 7 ct - (if ct = 30 then 1 else 0)" for ct
    using claim_takes_best_coupon [OF ref_cr.coupon_redis_axioms holder_facts(1,2) _ small_amount(1) run]
    by (simp add: claimed_type_def)
  then show ?thesis using run by (simp add: holder_facts(3))
qed

theorem coupons_are_conserved_witness:
  "\<exists>xs s'. coupon_ops ref_product_env [Issue 7 (Dec 950 0) None, Claim 7 (Dec 950 0) None, Claim 7 (Dec 950 0) None] fresh_redis = (xs, s') \<and>
     balance (rr_keys s') 7 30 = sum_list (map (coupon_effect 7 30) xs) \<and> 0 \<le> balance (rr_keys s') 7 30"
proof -
  let ?ops = "[Issue 7 (Dec 950 0) None, Claim 7 (Dec 950 0) None, Claim 7 (Dec 950 0) None]"
  obtain xs s' where run: "coupon_ops ref_product_env ?ops fresh_redis = (xs, s')" by fastforce
  have "list_all op_ok ?ops" by (simp add: small_amount)
  from coupons_are_conserved [OF ref_cr.coupon_redis_axioms fresh_coupons(1,2) this _ run, of 7 30] run
  show ?thesis by (simp add: fresh_coupons(3))
qed

theorem coupon_counter_limits_witness:
  "map (over_limit 2) (fst (bump_times (ps_increment_rate_limit ref_product_env) ''k'' 60 4 fresh_redis)) = [False, False, True, True]"
proof -
  have "rr_keys fresh_redis ''k'' = None" by (simp add: fresh_redis_def)
  from coupon_counter_limits [OF ref_cr.coupon_redis_axioms fresh_coupons(1) this, of 60 2 4]
  show ?thesis by (simp add: upt_rec)
qed

theorem coupon_counter_stays_witness:
  "rr_keys (rr_elapse (3600 * second) (snd (ps_increment_rate_limit ref_product_env ''k'' 60
      (fresh_redis\<lparr>rr_keys := [''k'' \<mapsto> (RStr ''1'', None)]\<rparr>)))) ''k'' = Some (RStr (int_str 2), None)"
proof -
  let ?s = "fresh_redis\<lparr>rr_keys := [''k'' \<mapsto> (RStr ''1'', None)]\<rparr>"
  have "rr_steady ?s" "counter_ok (rr_keys ?s) ''k''" "counter_level (rr_keys ?s) ''k'' = 1"
    by (simp_all add: fresh_redis_def rr_steady_def counter_ok_def counter_level_def)
  with coupon_counter_without_expiry_stays [OF ref_cr.coupon_redis_axioms, of ?s "''k''" 60 "3600 * second"]
  show ?thesis by simp
qed

theorem issue_record_round_trip_witness:
  "\<exists>resp s'. issue_coupon_for_order ref_product_env 7 (Dec 5 0) (Some ''o'') fresh_redis = (Inr resp, s') \<and>
     fst (get_user_coupon_issue_by_order ref_product_env 7 ''o'' (rr_elapse (60 * second) s')) =
       Inr \<lparr>ci_user_id = 7, ci_order_amount = ci_order_amount resp, ci_issued = ci_issued resp,
         ci_coupon_type = ci_coupon_type resp, ci_discount_rate = ci_discount_rate resp,
         ci_balance_after_issue = ci_balance_after_issue resp, ci_message = ci_message resp, oi_order_no = ''o''\<rparr>"
proof -
  let ?E = ref_product_env
  obtain r s' where run: "issue_coupon_for_order ?E 7 (Dec 5 0) (Some ''o'') fresh_redis = (r, s')" by fastforce
  have "counter_ok (rr_keys fresh_redis) k \<and> counter_level (rr_keys fresh_redis) k = 0" for k
    by (simp add: fresh_redis_def counter_ok_def counter_level_def)
  then have "fst (ps_increment_rate_limit ?E (issue_rate_key 7) 60 fresh_redis) = Some 1"
    using ref_cr.ps_increment_steady(1) [OF fresh_coupons(1), of "issue_rate_key 7" 60] by simp
  then obtain s1 where l: "coupon_rate_limit ?E (issue_rate_key 7) 30 ''Issue coupon rate limit exceeded'' fresh_redis = (Inr (), s1)"
    by (cases "ps_increment_rate_limit ?E (issue_rate_key 7) 60 fresh_redis")
      (simp add: coupon_rate_limit_def over_limit_def, simp add: ref_product_env_def product_default_settings_def)
  have mx: "ps_coupon_issue_rate_limit_max_requests (pe_settings ?E) = 30" "ps_coupon_order_record_ttl_seconds (pe_settings ?E) = 2592000"
    "pe_pydantic ?E = ref_pydantic"
    by (simp_all add: ref_product_env_def product_default_settings_def)
  have a: "round_money (Dec 5 0) = Inr (Dec 500 (- 2))" "select_issue_coupon_type (Dec 500 (- 2)) = None"
    by (simp_all add: round_money_def quantize_cents_def select_issue_coupon_type_def dec_le_cents)
  let ?resp = "\<lparr>ci_user_id = 7, ci_order_amount = Dec 500 (- 2), ci_issued = False, ci_coupon_type = None, ci_discount_rate = None,
       ci_balance_after_issue = None, ci_message = ''Order amount does not meet issue threshold''\<rparr>"
  have rec: "record_issue ?E 7 (Some ''o'') ?resp s1 = (r, s')"
    using run l a by (simp add: issue_coupon_for_order_def bind_prog_def mx)
  have "rr_steady s1" using ref_cr.coupon_limit_run(1) [OF fresh_coupons(1) l] by simp
  moreover have "json_ok (issue_dump ?resp)" by (rule issue_dump_ok) simp_all
  ultimately have "r = Inr ?resp"
    using ref_cr.keep_record_run(1) [OF _ _ rec [unfolded record_issue_def set_coupon_issue_record_def]] by simp
  with run have run': "issue_coupon_for_order ?E 7 (Dec 5 0) (Some ''o'') fresh_redis = (Inr ?resp, s')" by simp
  from issue_record_round_trip [OF ref_cr.coupon_redis_axioms _ fresh_coupons(1,2) _ _ _ _ run', of "60 * second"]
  show ?thesis using run' by (auto simp: mx ref_pd.pydantic_json_axioms fresh_coupons(3))
qed

end
