(* ===== verification/Product_Routes.thy ===== *)
theory Product_Routes
  imports Coupons
begin

text \<open>
  The product service, fifth part: the endpoints of \<^verbatim>\<open>api/routes.py\<close>, with the read-through
  cache of the catalogue queries. An endpoint runs its dependencies, then the constraints on
  its parameters, then its body, as in the user service; \<^verbatim>\<open>ProductResponse\<close> has the columns of
  the model and is represented by it.
\<close>

section \<open>Cached documents\<close>

record product_page_response =
  pg_items :: "product list"
  pg_page :: int
  pg_size :: int
  pg_total :: int

definition product_dump :: "product \<Rightarrow> pyval" where
  "product_dump p =
     PDict [(''id'', PInt (p_id p)),
            (''product_name'', PStr (p_product_name p)),
            (''product_code'', PStr (p_product_code p)),
            (''price'', PStr (dec_str (p_price p))),
            (''stock'', PInt (p_stock p)),
            (''category'', json_opt PStr (p_category p)),
            (''status'', PInt (p_status p)),
            (''version'', PInt (p_version p))]"

definition internal_dump :: "product_internal_response \<Rightarrow> pyval" where
  "internal_dump p =
     PDict [(''id'', PInt (ir_id p)),
            (''product_name'', PStr (ir_product_name p)),
            (''product_code'', PStr (ir_product_code p)),
            (''price'', PStr (dec_str (ir_price p))),
            (''stock'', PInt (ir_stock p)),
            (''status'', PInt (ir_status p))]"

definition page_dump :: "product_page_response \<Rightarrow> pyval" where
  "page_dump p =
     PDict [(''items'', PList (map product_dump (pg_items p))),
            (''page'', PInt (pg_page p)),
            (''size'', PInt (pg_size p)),
            (''total'', PInt (pg_total p))]"

text \<open>\<^verbatim>\<open>Model.model_validate(value)\<close>; \<^verbatim>\<open>category\<close> has no default, but may be \<^verbatim>\<open>None\<close>.\<close>

definition dict_fields :: "pyval \<Rightarrow> (string \<times> pyval) list res" where
  "dict_fields v = (case v of PDict d \<Rightarrow> Inr d | _ \<Rightarrow> Inl ValueError)"

definition field_nullable :: "(pyval \<Rightarrow> 'a option) \<Rightarrow> (string \<times> pyval) list \<Rightarrow> string \<Rightarrow> 'a option res" where
  "field_nullable conv d k =
     (if dict_get d k = None then Inl ValueError else field_optional conv d k)"

definition product_of_json :: "pydantic \<Rightarrow> pyval \<Rightarrow> product res" where
  "product_of_json Y v =
     bind_res (dict_fields v) (\<lambda>d.
     bind_res (field (pd_int Y) d ''id'') (\<lambda>i.
     bind_res (field (pd_str Y) d ''product_name'') (\<lambda>product_name.
     bind_res (field (pd_str Y) d ''product_code'') (\<lambda>product_code.
     bind_res (field (pd_decimal Y) d ''price'') (\<lambda>price.
     bind_res (field (pd_int Y) d ''stock'') (\<lambda>stock.
     bind_res (field_nullable (pd_str Y) d ''category'') (\<lambda>category.
     bind_res (field (pd_int Y) d ''status'') (\<lambda>status.
     bind_res (field (pd_int Y) d ''version'') (\<lambda>version.
       Inr \<lparr>p_id = i, p_product_name = product_name, p_product_code = product_code, p_price = price,
            p_stock = stock, p_category = category, p_status = status, p_version = version\<rparr>)))))))))"

definition internal_of_json :: "pydantic \<Rightarrow> pyval \<Rightarrow> product_internal_response res" where
  "internal_of_json Y v =
     bind_res (dict_fields v) (\<lambda>d.
     bind_res (field (pd_int Y) d ''id'') (\<lambda>i.
     bind_res (field (pd_str Y) d ''product_name'') (\<lambda>product_name.
     bind_res (field (pd_str Y) d ''product_code'') (\<lambda>product_code.
     bind_res (field (pd_decimal Y) d ''price'') (\<lambda>price.
     bind_res (field (pd_int Y) d ''stock'') (\<lambda>stock.
     bind_res (field (pd_int Y) d ''status'') (\<lambda>status.
       Inr \<lparr>ir_id = i, ir_product_name = product_name, ir_product_code = product_code, ir_price = price,
            ir_stock = stock, ir_status = status\<rparr>)))))))"

fun all_res :: "'a res list \<Rightarrow> 'a list res" where
  "all_res [] = Inr []"
| "all_res (r # rs) = bind_res r (\<lambda>x. bind_res (all_res rs) (\<lambda>xs. Inr (x # xs)))"

definition list_items_of :: "pyval \<Rightarrow> pyval list option" where
  "list_items_of v = (case v of PList vs \<Rightarrow> Some vs | _ \<Rightarrow> None)"

definition page_of_json :: "pydantic \<Rightarrow> pyval \<Rightarrow> product_page_response res" where
  "page_of_json Y v =
     bind_res (dict_fields v) (\<lambda>d.
     bind_res (field list_items_of d ''items'') (\<lambda>vs.
     bind_res (all_res (map (product_of_json Y) vs)) (\<lambda>items.
     bind_res (field (pd_int Y) d ''page'') (\<lambda>page.
     bind_res (field (pd_int Y) d ''size'') (\<lambda>sz.
     bind_res (field (pd_int Y) d ''total'') (\<lambda>tot.
       Inr \<lparr>pg_items = items, pg_page = page, pg_size = sz, pg_total = tot\<rparr>))))))"

section \<open>Endpoints\<close>

definition ps_health :: "(string \<times> string) list" where
  "ps_health = [(''status'', ''UP''), (''service'', ''product-service'')]"

definition ps_ready :: "(string \<times> string) list" where
  "ps_ready = [(''status'', ''READY''), (''service'', ''product-service'')]"

definition ps_live :: "(string \<times> string) list" where
  "ps_live = [(''status'', ''LIVE''), (''service'', ''product-service'')]"

definition should_simulate_coupon_issue_failure :: "('r, 'd) product_env \<Rightarrow> bool" where
  "should_simulate_coupon_issue_failure E =
     (if \<not> ps_coupon_issue_fail_sim_enabled (pe_settings E) then False
      else let ratio = ps_coupon_issue_fail_sim_ratio (pe_settings E)
           in if float_le ratio (0, 0) then False
              else if float_le (1, 0) ratio then True
              else \<not> float_le ratio (pe_random E))"

definition require_request_user_id :: "string option \<Rightarrow> int res" where
  "require_request_user_id x_user_id =
     (if x_user_id = None \<or> x_user_id = Some [] then Inl (http_error 401 ''Authentication required'')
      else (case int_of_str (the x_user_id) of
              None \<Rightarrow> Inl (http_error 400 ''Invalid x-user-id header'')
            | Some n \<Rightarrow> Inr n))"

definition answer :: "('r, 'd) product_env \<Rightarrow> ('s, 'a) prog \<Rightarrow> ('s, 'a api_response) prog" where
  "answer E m = bind_prog m (\<lambda>x. return_prog (api_data (pe_now E) x))"

text \<open>
  The shape of the three cached queries: a truthy document under the key is validated and
  returned, otherwise the answer is computed, stored and returned.
\<close>

definition read_through ::
  "('r, 'd) product_env \<Rightarrow> ('r, string) prog \<Rightarrow> (pyval \<Rightarrow> 'a res) \<Rightarrow> ('a \<Rightarrow> pyval) \<Rightarrow> ('d, 'a) prog \<Rightarrow>
     (('r, 'd) service_state, 'a) prog" where
  "read_through E make_key parse dump compute =
     bind_prog (with_redis make_key) (\<lambda>cache_key.
     bind_prog (with_redis (get_cached_json E cache_key)) (\<lambda>cached_payload.
       (case cached_payload of
          Some v \<Rightarrow>
            (if truthy v then lift_res (parse v)
             else bind_prog (with_db compute) (\<lambda>payload.
                  bind_prog (with_redis (set_cached_json E cache_key (dump payload) None)) (\<lambda>_.
                    return_prog payload)))
        | None \<Rightarrow>
            bind_prog (with_db compute) (\<lambda>payload.
            bind_prog (with_redis (set_cached_json E cache_key (dump payload) None)) (\<lambda>_.
              return_prog payload)))))"

definition list_products ::
  "('r, 'd) product_env \<Rightarrow> int \<Rightarrow> int \<Rightarrow> string option \<Rightarrow> bool \<Rightarrow> string option \<Rightarrow>
     ('r, 'd, product_page_response) endpoint" where
  "list_products E page sz keyword include_off_sale x_user_role =
     bind_prog (lift_res (ensure (1 \<le> page \<and> 1 \<le> sz \<and> sz \<le> 100) RequestValidationError)) (\<lambda>_.
     bind_prog (lift_res (ensure (\<not> (include_off_sale \<and> x_user_role \<noteq> Some ''ADMIN''))
       (http_error 403 ''Admin role required''))) (\<lambda>_.
       answer E (read_through E (make_product_list_cache_key E page sz keyword include_off_sale)
         (page_of_json (pe_pydantic E)) page_dump
         (get_db (pe_db E)
           (bind_prog (paginate_products E page sz keyword include_off_sale) (\<lambda>(tot, items).
              return_prog \<lparr>pg_items = items, pg_page = page, pg_size = sz, pg_total = tot\<rparr>))))))"

definition get_product :: "('r, 'd) product_env \<Rightarrow> int \<Rightarrow> ('r, 'd, product) endpoint" where
  "get_product E product_id =
     answer E (read_through E (make_product_detail_cache_key E product_id False)
       (product_of_json (pe_pydantic E)) product_dump
       (get_db (pe_db E) (get_product_or_404 E product_id)))"

definition get_internal_product :: "('r, 'd) product_env \<Rightarrow> int \<Rightarrow> ('r, 'd, product_internal_response) endpoint" where
  "get_internal_product E product_id =
     answer E (read_through E (make_product_detail_cache_key E product_id True)
       (internal_of_json (pe_pydantic E)) internal_dump
       (get_db (pe_db E)
         (bind_prog (get_product_or_404 E product_id) (\<lambda>p. return_prog (internal_response_of p)))))"

definition get_my_coupon_balances ::
  "('r, 'd) product_env \<Rightarrow> string option \<Rightarrow> ('r, 'd, user_coupon_balance_response) endpoint" where
  "get_my_coupon_balances E x_user_id =
     bind_prog (lift_res (require_request_user_id x_user_id)) (\<lambda>user_id.
       answer E (with_redis (get_user_coupon_balances E user_id)))"

definition get_my_coupon_issue_by_order ::
  "('r, 'd) product_env \<Rightarrow> string \<Rightarrow> string option \<Rightarrow> ('r, 'd, user_order_coupon_issue_response) endpoint" where
  "get_my_coupon_issue_by_order E order_no x_user_id =
     bind_prog (lift_res (require_request_user_id x_user_id)) (\<lambda>user_id.
       answer E (with_redis (get_user_coupon_issue_by_order E user_id order_no)))"

definition get_my_coupon_selection_by_order ::
  "('r, 'd) product_env \<Rightarrow> string \<Rightarrow> string option \<Rightarrow> ('r, 'd, user_order_coupon_selection_response) endpoint" where
  "get_my_coupon_selection_by_order E order_no x_user_id =
     bind_prog (lift_res (require_request_user_id x_user_id)) (\<lambda>user_id.
       answer E (with_redis (get_user_coupon_selection_by_order E user_id order_no)))"

text \<open>A write on the database followed by \<^verbatim>\<open>bump_catalog_version()\<close>.\<close>

definition write_and_bump :: "('r, 'd) product_env \<Rightarrow> ('d, 'a) prog \<Rightarrow> (('r, 'd) service_state, 'a) prog" where
  "write_and_bump E m =
     bind_prog (with_db (get_db (pe_db E) m)) (\<lambda>x.
     bind_prog (with_redis (bump_catalog_version E)) (\<lambda>_.
       return_prog x))"

definition create_product_endpoint ::
  "('r, 'd) product_env \<Rightarrow> product_create_request \<Rightarrow> string option \<Rightarrow> string option \<Rightarrow> ('r, 'd, product) endpoint" where
  "create_product_endpoint E payload x_user_role authorization =
     bind_prog (lift_res (require_admin E x_user_role authorization)) (\<lambda>_.
     bind_prog (lift_res (ensure (product_create_request_ok payload) RequestValidationError)) (\<lambda>_.
       answer E (write_and_bump E (create_product E payload))))"

definition update_product_endpoint ::
  "('r, 'd) product_env \<Rightarrow> int \<Rightarrow> product_update_request \<Rightarrow> string option \<Rightarrow> string option \<Rightarrow> ('r, 'd, product) endpoint" where
  "update_product_endpoint E product_id payload x_user_role authorization =
     bind_prog (lift_res (require_admin E x_user_role authorization)) (\<lambda>_.
     bind_prog (lift_res (ensure (product_update_request_ok payload) RequestValidationError)) (\<lambda>_.
       answer E (write_and_bump E
         (bind_prog (get_product_or_404 E product_id) (\<lambda>product. update_product E product payload)))))"

definition update_product_status_endpoint ::
  "('r, 'd) product_env \<Rightarrow> int \<Rightarrow> int \<Rightarrow> string option \<Rightarrow> string option \<Rightarrow> ('r, 'd, product) endpoint" where
  "update_product_status_endpoint E product_id status x_user_role authorization =
     bind_prog (lift_res (require_admin E x_user_role authorization)) (\<lambda>_.
     bind_prog (lift_res (ensure (status_request_ok status) RequestValidationError)) (\<lambda>_.
       answer E (write_and_bump E
         (bind_prog (get_product_or_404 E product_id) (\<lambda>product. update_product_status E product status)))))"

definition update_product_stock_endpoint ::
  "('r, 'd) product_env \<Rightarrow> int \<Rightarrow> int \<Rightarrow> string option \<Rightarrow> string option \<Rightarrow> ('r, 'd, product) endpoint" where
  "update_product_stock_endpoint E product_id stock x_user_role authorization =
     bind_prog (lift_res (require_admin E x_user_role authorization)) (\<lambda>_.
     bind_prog (lift_res (ensure (stock_request_ok stock) RequestValidationError)) (\<lambda>_.
       answer E (write_and_bump E
         (bind_prog (get_product_or_404 E product_id) (\<lambda>product. update_product_stock E product stock)))))"

definition reserve_stock_endpoint :: "('r, 'd) product_env \<Rightarrow> int \<Rightarrow> int \<Rightarrow> ('r, 'd, product_internal_response) endpoint" where
  "reserve_stock_endpoint E product_id quantity =
     bind_prog (lift_res (ensure (reserve_request_ok quantity) RequestValidationError)) (\<lambda>_.
       answer E (bind_prog (write_and_bump E (reserve_stock E product_id quantity)) (\<lambda>product.
         return_prog (internal_response_of product))))"

definition release_stock_endpoint :: "('r, 'd) product_env \<Rightarrow> int \<Rightarrow> int \<Rightarrow> ('r, 'd, product_internal_response) endpoint" where
  "release_stock_endpoint E product_id quantity =
     bind_prog (lift_res (ensure (reserve_request_ok quantity) RequestValidationError)) (\<lambda>_.
       answer E (bind_prog (write_and_bump E (release_stock E product_id quantity)) (\<lambda>product.
         return_prog (internal_response_of product))))"

definition issue_coupon_endpoint ::
  "('r, 'd) product_env \<Rightarrow> int \<Rightarrow> coupon_request \<Rightarrow> string option \<Rightarrow> ('r, 'd, coupon_issue_response) endpoint" where
  "issue_coupon_endpoint E user_id payload x_internal_token =
     bind_prog (lift_res (require_internal_caller E x_internal_token)) (\<lambda>_.
     bind_prog (lift_res (ensure (coupon_request_ok payload) RequestValidationError)) (\<lambda>_.
     bind_prog (lift_res (ensure (\<not> should_simulate_coupon_issue_failure E)
       (http_error 503 ''Simulated coupon issue failure''))) (\<lambda>_.
       answer E (with_redis (issue_coupon_for_order E user_id (cq_order_amount payload) (cq_order_no payload))))))"

definition claim_best_coupon_endpoint ::
  "('r, 'd) product_env \<Rightarrow> int \<Rightarrow> coupon_request \<Rightarrow> string option \<Rightarrow> ('r, 'd, coupon_claim_best_response) endpoint" where
  "claim_best_coupon_endpoint E user_id payload x_internal_token =
     bind_prog (lift_res (require_internal_caller E x_internal_token)) (\<lambda>_.
     bind_prog (lift_res (ensure (coupon_request_ok payload) RequestValidationError)) (\<lambda>_.
       answer E (with_redis (claim_best_coupon_for_order E user_id (cq_order_amount payload) (cq_order_no payload)))))"

end
