(* ===== verification/Cache_Keys.thy ===== *)
theory Cache_Keys
  imports Product_Cache
begin

text \<open>
  The keys of the catalogue cache: which requests share an entry. A cached query is the
  public or internal view of a product or a page of the list; the keyword enters a key in
  base64 of its UTF-8 bytes, so both encodings are shown to be injective.
\<close>

section \<open>Encodings\<close>

lemma of_char_b64:
  "0 \<le> n \<Longrightarrow> n < 64 \<Longrightarrow> of_char (b64_char n) =
     (if n < 26 then 65 + n else if n < 52 then 71 + n else if n < 62 then n - 4 else if n = 62 then 45 else 95 :: int)"
  by (auto simp: b64_char_def)

lemma b64_char_eq: "0 \<le> m \<Longrightarrow> m < 64 \<Longrightarrow> 0 \<le> n \<Longrightarrow> n < 64 \<Longrightarrow> b64_char m = b64_char n \<longleftrightarrow> m = n"
proof
  assume r: "0 \<le> m" "m < 64" "0 \<le> n" "n < 64" and "b64_char m = b64_char n"
  then have "(of_char (b64_char m) :: int) = of_char (b64_char n)" by simp
  then show "m = n" using r by (simp add: of_char_b64 split: if_splits)
qed simp

lemma b64_char_special:
  "0 \<le> n \<Longrightarrow> n < 64 \<Longrightarrow>
     b64_char n \<noteq> CHR ''='' \<and> CHR ''='' \<noteq> b64_char n \<and> b64_char n \<noteq> CHR '':'' \<and> CHR '':'' \<noteq> b64_char n"
proof -
  assume r: "0 \<le> n" "n < 64"
  have "(of_char (b64_char n) :: int) \<noteq> 61 \<and> (of_char (b64_char n) :: int) \<noteq> 58"
    using r by (simp add: of_char_b64)
  then have "b64_char n \<noteq> CHR ''=''" "b64_char n \<noteq> CHR '':''" by auto
  then show ?thesis by metis
qed

definition bytes :: "int list \<Rightarrow> bool" where
  "bytes xs \<longleftrightarrow> (\<forall>x \<in> set xs. 0 \<le> x \<and> x < 256)"

lemma byte_div:
  assumes "0 \<le> a" and "a < 256"
  shows "0 \<le> a div 4 \<and> a div 4 < (64 :: int)" "0 \<le> a div 16 \<and> a div 16 < 16" "0 \<le> a div 64 \<and> a div 64 < 4"
  using assms zdiv_mono1 [of a 255 4] zdiv_mono1 [of a 255 16] zdiv_mono1 [of a 255 64]
  by (simp_all add: pos_imp_zdiv_nonneg_iff)

lemma digits_bound:
  "0 \<le> m \<and> m < 4 \<Longrightarrow> 0 \<le> d \<and> d < 16 \<Longrightarrow> 0 \<le> m * 16 + d \<and> m * 16 + d < (64 :: int)"
  "0 \<le> m' \<and> m' < 16 \<Longrightarrow> 0 \<le> d' \<and> d' < 4 \<Longrightarrow> 0 \<le> m' * 4 + d' \<and> m' * 4 + d' < (64 :: int)"
  by linarith+

lemma digits_eq:
  assumes "0 \<le> d \<and> d < k" and "0 \<le> d' \<and> d' < k" and "m * k + d = m' * k + (d' :: int)"
  shows "m = m' \<and> d = d'"
proof -
  have "(m * k + d) div k = m" "(m' * k + d') div k = m'" using assms(1,2) by (simp_all add: div_add1_eq)
  with assms(3) have "m = m'" by simp
  with assms(3) show ?thesis by simp
qed

lemma b64_parts:
  "0 \<le> a \<Longrightarrow> a < 256 \<Longrightarrow> 0 \<le> a div 4 \<and> a div 4 < (64 :: int)"
  "0 \<le> a mod 4 * 16 \<and> a mod 4 * 16 < (64 :: int)"
  "0 \<le> b \<Longrightarrow> b < 256 \<Longrightarrow> 0 \<le> a mod 4 * 16 + b div 16 \<and> a mod 4 * 16 + b div 16 < (64 :: int)"
  "0 \<le> b mod 16 * 4 \<and> b mod 16 * 4 < (64 :: int)"
  "0 \<le> c \<Longrightarrow> c < 256 \<Longrightarrow> 0 \<le> b mod 16 * 4 + c div 64 \<and> b mod 16 * 4 + c div 64 < (64 :: int)"
  "0 \<le> c mod 64 \<and> c mod 64 < (64 :: int)"
  using digits_bound(1) [of "a mod 4" 0] digits_bound(1) [of "a mod 4" "b div 16"] digits_bound(2) [of "b mod 16" 0]
    digits_bound(2) [of "b mod 16" "c div 64"] byte_div [of a] byte_div [of b] byte_div [of c]
  by simp_all

lemma b64_join:
  "a div 4 = a' div 4 \<Longrightarrow> a mod 4 = a' mod 4 \<Longrightarrow> a = (a' :: int)"
  "0 \<le> b \<Longrightarrow> b < 256 \<Longrightarrow> 0 \<le> b' \<Longrightarrow> b' < 256 \<Longrightarrow> a mod 4 * 16 + b div 16 = a' mod 4 * 16 + b' div (16 :: int) \<Longrightarrow>
     a mod 4 = a' mod 4 \<and> b div 16 = b' div 16"
  "0 \<le> c \<Longrightarrow> c < 256 \<Longrightarrow> 0 \<le> c' \<Longrightarrow> c' < 256 \<Longrightarrow> b mod 16 * 4 + c div 64 = b' mod 16 * 4 + c' div (64 :: int) \<Longrightarrow>
     b mod 16 = b' mod 16 \<and> c div 64 = c' div 64"
  "b div 16 = b' div 16 \<Longrightarrow> b mod 16 = b' mod 16 \<Longrightarrow> b = (b' :: int)"
  "c div 64 = c' div 64 \<Longrightarrow> c mod 64 = c' mod 64 \<Longrightarrow> c = (c' :: int)"
  using digits_eq [of "b div 16" 16 "b' div 16" "a mod 4" "a' mod 4"] digits_eq [of "c div 64" 4 "c' div 64" "b mod 16" "b' mod 16"]
    byte_div [of b] byte_div [of b'] byte_div [of c] byte_div [of c']
  by (metis div_mult_mod_eq | simp)+

lemma b64_inj: "bytes xs \<Longrightarrow> bytes ys \<Longrightarrow> urlsafe_b64encode xs = urlsafe_b64encode ys \<Longrightarrow> xs = ys"
proof (induction xs arbitrary: ys rule: urlsafe_b64encode.induct)
  case 1
  then show ?case by (cases ys rule: urlsafe_b64encode.cases) auto
next
  case (2 a)
  show ?case
  proof (cases ys rule: urlsafe_b64encode.cases)
    case (2 a')
    have "a div 4 = a' div 4" "a mod 4 = a' mod 4"
      using "2.prems" 2 by (auto simp: bytes_def b64_char_eq b64_parts)
    from b64_join(1) [OF this] show ?thesis by (simp add: 2)
  qed (use "2.prems" in \<open>auto simp: bytes_def b64_char_special b64_parts\<close>)
next
  case (3 a b)
  show ?case
  proof (cases ys rule: urlsafe_b64encode.cases)
    case (3 a' b')
    have e: "a div 4 = a' div 4" "a mod 4 * 16 + b div 16 = a' mod 4 * 16 + b' div 16" "b mod 16 = b' mod 16"
      and r: "0 \<le> b" "b < 256" "0 \<le> b'" "b' < 256"
      using "3.prems" 3 by (auto simp: bytes_def b64_char_eq b64_parts)
    from b64_join(2) [OF r e(2)] e b64_join(1,4) show ?thesis by (metis 3)
  qed (use "3.prems" in \<open>auto simp: bytes_def b64_char_special b64_parts\<close>)
next
  case (4 a b c xs)
  show ?case
  proof (cases ys rule: urlsafe_b64encode.cases)
    case (4 a' b' c' zs)
    have e: "a div 4 = a' div 4" "a mod 4 * 16 + b div 16 = a' mod 4 * 16 + b' div 16"
        "b mod 16 * 4 + c div 64 = b' mod 16 * 4 + c' div 64" "c mod 64 = c' mod 64"
        "urlsafe_b64encode xs = urlsafe_b64encode zs" "bytes xs" "bytes zs"
      and r: "0 \<le> b" "b < 256" "0 \<le> b'" "b' < 256" and s: "0 \<le> c" "c < 256" "0 \<le> c'" "c' < 256"
      using "4.prems" 4 by (auto simp: bytes_def b64_char_eq b64_parts)
    have "a = a'" "b = b'" "c = c'"
      using b64_join(2) [OF r e(2)] b64_join(3) [OF s e(3)] e(1,4) b64_join(1,4,5) by metis+
    with "4.IH" [OF e(6,7,5)] 4 show ?thesis by simp
  qed (use "4.prems" in \<open>auto simp: bytes_def b64_char_special b64_parts\<close>)
qed

lemma b64_chars: "bytes xs \<Longrightarrow> CHR '':'' \<notin> set (urlsafe_b64encode xs)"
  by (induction xs rule: urlsafe_b64encode.induct) (auto simp: bytes_def b64_char_special b64_parts)

lemma b64_length: "length (urlsafe_b64encode xs) mod 4 = 0"
  by (induction xs rule: urlsafe_b64encode.induct) simp_all

lemma char_code: "0 \<le> (of_char c :: int) \<and> (of_char c :: int) < 256"
  using nat_of_char_less_256 [of c] by (metis of_nat_0_le_iff of_nat_less_iff of_nat_numeral of_nat_of_char)

abbreviation utf8_char :: "char \<Rightarrow> int list" where
  "utf8_char c \<equiv> (let n = of_char c in if n < 128 then [n] else [192 + n div 64, 128 + n mod 64])"

lemma utf8_bytes: "bytes (utf8_encode s)"
proof -
  have "0 \<le> x \<and> x < 256" if "x \<in> set (utf8_char c)" for x c
  proof -
    have "0 \<le> (of_char c :: int) mod 64" "(of_char c :: int) mod 64 < 64" by simp_all
    with that char_code [of c] byte_div(3) [of "of_char c"] show ?thesis by (auto simp: Let_def split: if_splits)
  qed
  then show ?thesis by (auto simp: bytes_def utf8_encode_def)
qed

lemma utf8_prefix_free: "utf8_char c @ r = utf8_char c' @ r' \<Longrightarrow> c = c' \<and> r = r'"
proof -
  assume e: "utf8_char c @ r = utf8_char c' @ r'"
  have "(of_char c :: int) = of_char c' \<and> r = r'"
  proof (cases "(of_char c :: int) < 128"; cases "(of_char c' :: int) < 128")
    assume "\<not> (of_char c :: int) < 128" "\<not> (of_char c' :: int) < 128"
    with e have "(of_char c :: int) div 64 = of_char c' div 64" "(of_char c :: int) mod 64 = of_char c' mod 64" "r = r'"
      by (simp_all add: Let_def)
    with b64_join(5) show ?thesis by blast
  qed (use e char_code [of c] char_code [of c'] byte_div(3) [of "of_char c"] byte_div(3) [of "of_char c'"] in \<open>auto simp: Let_def\<close>)
  then show ?thesis by simp
qed

lemma utf8_inj: "utf8_encode s = utf8_encode t \<Longrightarrow> s = t"
proof (induction s arbitrary: t)
  case Nil
  then show ?case by (cases t) (auto simp: utf8_encode_def Let_def split: if_splits)
next
  case (Cons c s)
  show ?case
  proof (cases t)
    case Nil
    with Cons.prems show ?thesis by (auto simp: utf8_encode_def Let_def split: if_splits)
  next
    case (Cons c' t')
    with Cons.prems have "utf8_char c @ utf8_encode s = utf8_char c' @ utf8_encode t'" by (simp add: utf8_encode_def)
    from utf8_prefix_free [OF this] Cons.IH [of t'] Cons show ?thesis by simp
  qed
qed

definition keyword_text :: "string option \<Rightarrow> string" where
  "keyword_text keyword = (case keyword of None \<Rightarrow> [] | Some k \<Rightarrow> k)"

lemma encode_fragment_eq: "encode_fragment k = encode_fragment k' \<longleftrightarrow> keyword_text k = keyword_text k'"
proof
  assume e: "encode_fragment k = encode_fragment k'"
  let ?b = "\<lambda>k. urlsafe_b64encode (utf8_encode (keyword_text k))"
  have "?b k \<noteq> ''empty''" for k :: "string option"
  proof
    assume "?b k = ''empty''"
    then have "length (?b k) = 5" by simp
    with b64_length [of "utf8_encode (keyword_text k)"] show False by simp
  qed
  then have "?b k = ?b k'" using e [symmetric]
    by (auto simp: encode_fragment_def keyword_text_def [symmetric] Let_def split: if_splits)
  then show "keyword_text k = keyword_text k'" by (metis b64_inj utf8_bytes utf8_inj)
qed (simp add: encode_fragment_def keyword_text_def)

lemma encode_fragment_chars: "CHR '':'' \<notin> set (encode_fragment k)"
  using b64_chars [OF utf8_bytes] by (simp add: encode_fragment_def Let_def)

lemma int_str_colon: "CHR '':'' \<notin> set (int_str i)"
  using int_str_chars is_digit_not_special(2) by blast

section \<open>Queries and their keys\<close>

datatype catalog_query =
    QProduct int
  | QInternal int
  | QList int int "string option" bool

fun query_key :: "int \<Rightarrow> catalog_query \<Rightarrow> string" where
  "query_key v (QProduct i) = detail_cache_key v i False"
| "query_key v (QInternal i) = detail_cache_key v i True"
| "query_key v (QList page sz keyword off) = list_cache_key v page sz keyword off"

fun same_query :: "catalog_query \<Rightarrow> catalog_query \<Rightarrow> bool" where
  "same_query (QList page sz keyword off) q =
     (case q of
        QList page' sz' keyword' off' \<Rightarrow>
          page = page' \<and> sz = sz' \<and> keyword_text keyword = keyword_text keyword' \<and> off = off'
      | _ \<Rightarrow> False)"
| "same_query q q' = (q = q')"

definition query_tail :: "catalog_query \<Rightarrow> string" where
  "query_tail q =
     (case q of
        QProduct i \<Rightarrow> ''public:product:'' @ int_str i
      | QInternal i \<Rightarrow> ''internal:product:'' @ int_str i
      | QList page sz keyword off \<Rightarrow>
          ''list:page='' @ int_str page @ CHR '':'' # ''size='' @ int_str sz @ CHR '':'' # ''keyword='' @ encode_fragment keyword @
          CHR '':'' # ''include_off_sale='' @ int_str (if off then 1 else 0))"

lemma query_key_split: "query_key v q = ''product-service:catalog:v'' @ int_str v @ CHR '':'' # query_tail q"
  by (cases q) (simp_all add: query_tail_def detail_cache_key_def list_cache_key_def)

lemma query_tail_eq: "query_tail q = query_tail q' \<Longrightarrow> same_query q q'"
proof (cases q; cases q')
  fix page sz kw off page' sz' kw' off'
  assume q: "q = QList page sz kw off" "q' = QList page' sz' kw' off'" and e: "query_tail q = query_tail q'"
  let ?r = "\<lambda>(sz :: int) kw off. ''size='' @ int_str sz @ CHR '':'' # ''keyword='' @ encode_fragment kw @
    CHR '':'' # ''include_off_sale='' @ int_str (if off then 1 else 0)"
  have "int_str page @ CHR '':'' # ?r sz kw off = int_str page' @ CHR '':'' # ?r sz' kw' off'"
    using e q by (simp add: query_tail_def)
  from split_at_char [OF this int_str_colon int_str_colon]
  have 1: "page = page'"
    and 2: "int_str sz @ CHR '':'' # ''keyword='' @ encode_fragment kw @ CHR '':'' # ''include_off_sale='' @ int_str (if off then 1 else 0) =
     int_str sz' @ CHR '':'' # ''keyword='' @ encode_fragment kw' @ CHR '':'' # ''include_off_sale='' @ int_str (if off' then 1 else 0)"
    by simp_all
  from split_at_char [OF 2 int_str_colon int_str_colon]
  have 3: "sz = sz'" and 4: "encode_fragment kw @ CHR '':'' # ''include_off_sale='' @ int_str (if off then 1 else 0) =
     encode_fragment kw' @ CHR '':'' # ''include_off_sale='' @ int_str (if off' then 1 else 0)"
    by simp_all
  from split_at_char [OF 4 encode_fragment_chars encode_fragment_chars]
  have "encode_fragment kw = encode_fragment kw'" and "int_str (if off then 1 else 0) = int_str (if off' then 1 else 0)"
    by simp_all
  then show "same_query q q'" using 1 3 q by (auto simp: encode_fragment_eq split: if_splits)
qed (simp_all add: query_tail_def)

lemma query_key_eq:
  "query_key v q = query_key w q' \<longleftrightarrow> v = w \<and> same_query q q'"
proof
  assume "query_key v q = query_key w q'"
  then have "int_str v @ CHR '':'' # query_tail q = int_str w @ CHR '':'' # query_tail q'"
    by (simp add: query_key_split)
  from split_at_char [OF this int_str_colon int_str_colon] show "v = w \<and> same_query q q'"
    using query_tail_eq by simp
next
  assume a: "v = w \<and> same_query q q'"
  have "same_query q q' \<Longrightarrow> query_tail q = query_tail q'"
    by (cases q; cases q') (auto simp: query_tail_def encode_fragment_eq [symmetric])
  with a show "query_key v q = query_key w q'" by (simp add: query_key_split)
qed

text \<open>
  C20: Two catalogue queries share a cache key exactly when they have the same catalogue version
  and ask for the same thing (a missing and an empty keyword ask for the same products), so no
  query is answered with the document of another.
\<close>

theorem cache_keys_identify_queries:
  "query_key v q = query_key w q' \<longleftrightarrow> v = w \<and> same_query q q'"
  by (rule query_key_eq)

lemma query_key_others:
  "query_key v q \<noteq> CATALOG_VERSION_KEY" "CATALOG_VERSION_KEY \<noteq> query_key v q"
proof -
  obtain c t where ct: "int_str v = c # t" by (cases "int_str v") (auto simp: int_str_def split: if_splits)
  have "c \<noteq> CHR ''e''" using int_str_chars [of c v] ct by (auto simp: is_digit_def)
  then show "query_key v q \<noteq> CATALOG_VERSION_KEY"
    by (simp add: query_key_split CATALOG_VERSION_KEY_def ct)
  then show "CATALOG_VERSION_KEY \<noteq> query_key v q" by simp
qed

end
