(* ===== verification/Catalog_Cache.thy ===== *)
theory Catalog_Cache
  imports Product_Routes Cache_Keys
begin

text \<open>
  The catalogue endpoints of the product service with and without Redis. \<open>coherent\<close> says that
  every cache entry under the current catalogue version is the document the database would
  give now and that later versions have no entries; every endpoint keeps it, so that the
  answers of the service are those of the service with Redis switched off.
\<close>

section \<open>Documents\<close>

definition stored :: "product \<Rightarrow> bool" where
  "stored p \<longleftrightarrow> product_columns_ok p \<and> product_coerce p = p \<and> 0 \<le> coeff (p_price p)"

lemma stored_rows: "product_table_ok eq rows \<Longrightarrow> p \<in> set rows \<Longrightarrow> stored p"
  by (auto simp: product_table_ok_def product_check_def stored_def list_all_iff split: if_splits)

lemma stored_price: "stored p \<Longrightarrow> dec_of_str (dec_str (p_price p)) = Some (p_price p)"
proof -
  assume s: "stored p"
  then have "round_cents (p_price p) = p_price p" by (simp add: stored_def product_coerce_iff)
  then obtain c where "p_price p = Dec c (- 2)" by (metis round_cents_def)
  with s dec_of_str_cents show ?thesis by (auto simp: stored_def)
qed

context pydantic_json
begin

lemma product_round_trip: "stored p \<Longrightarrow> product_of_json Y (product_dump p) = Inr p"
  by (cases "p_category p")
    (simp_all add: product_of_json_def product_dump_def dict_fields_def field_def dict_get_def field_nullable_def
      field_optional_def json_opt_def json_int json_str json_decimal [OF stored_price])

lemma internal_round_trip: "stored p \<Longrightarrow> internal_of_json Y (internal_dump (internal_response_of p)) = Inr (internal_response_of p)"
  by (simp add: internal_of_json_def internal_dump_def internal_response_of_def dict_fields_def field_def dict_get_def
      json_int json_str json_decimal [OF stored_price])

lemma all_res_round_trip: "\<forall>p \<in> set ps. stored p \<Longrightarrow> all_res (map (product_of_json Y) (map product_dump ps)) = Inr ps"
  by (induction ps) (simp_all add: product_round_trip)

lemma page_round_trip: "\<forall>p \<in> set (pg_items r). stored p \<Longrightarrow> page_of_json Y (page_dump r) = Inr r"
  using all_res_round_trip [of "pg_items r"]
  by (simp add: page_of_json_def page_dump_def dict_fields_def field_def dict_get_def list_items_of_def json_int)

end

lemma truthy_dumps [simp]: "truthy (product_dump p)" "truthy (internal_dump i)" "truthy (page_dump r)"
  by (simp_all add: product_dump_def internal_dump_def page_dump_def)

lemma stored_ints:
  "stored p \<Longrightarrow> length (int_str (p_id p)) \<le> 4300 \<and> length (int_str (p_stock p)) \<le> 4300 \<and>
     length (int_str (p_status p)) \<le> 4300 \<and> length (int_str (p_version p)) \<le> 4300"
  by (auto simp: stored_def product_columns_ok_def intro!: order_trans [OF int_str_length [of _ 19]])

lemma product_dump_ok: "stored p \<Longrightarrow> json_ok (product_dump p)"
  using stored_ints [of p] by (cases "p_category p") (simp_all add: product_dump_def json_opt_def)

lemma internal_dump_ok: "stored p \<Longrightarrow> json_ok (internal_dump (internal_response_of p))"
  using stored_ints [of p] by (simp add: internal_dump_def internal_response_of_def)

definition page_number_ok :: "int \<Rightarrow> bool" where
  "page_number_ok n \<longleftrightarrow> length (int_str n) \<le> 4300"

lemma page_dump_ok:
  assumes "\<forall>p \<in> set (pg_items r). stored p" and "page_number_ok (pg_page r)" and "page_number_ok (pg_size r)"
    and "page_number_ok (pg_total r)"
  shows "json_ok (page_dump r)"
  using assms by (auto simp: page_dump_def list_all_iff product_dump_ok page_number_ok_def)

lemma table_length: "product_table_ok eq rows \<Longrightarrow> page_number_ok (int (length (filter P rows)))"
proof -
  assume ok: "product_table_ok eq rows"
  let ?I = "{- int64_max - 1..int64_max}"
  have d: "distinct (map p_id rows)" using ok product_ids by (auto simp: product_table_ok_def)
  have sub: "set (map p_id rows) \<subseteq> ?I" using stored_rows [OF ok] by (auto simp: stored_def product_columns_ok_def)
  have "length rows = card (set (map p_id rows))" using distinct_card [OF d] by simp
  also have "\<dots> \<le> card ?I" by (rule card_mono [OF _ sub]) simp
  finally have "length rows \<le> 18446744073709551616" by simp
  then have "length (filter P rows) \<le> 18446744073709551616" by (rule order_trans [OF length_filter_le])
  then have "\<bar>int (length (filter P rows))\<bar> < 10 ^ Suc 20" by simp
  from int_str_length [OF this] show ?thesis by (simp add: page_number_ok_def)
qed

section \<open>Coherence of the cache with the table\<close>

fun query_doc :: "('r, 'd) product_env \<Rightarrow> product list \<Rightarrow> catalog_query \<Rightarrow> pyval option" where
  "query_doc E rows (QProduct i) =
     (case filter (\<lambda>p. p_id p = i) rows of [p] \<Rightarrow> Some (product_dump p) | _ \<Rightarrow> None)"
| "query_doc E rows (QInternal i) =
     (case filter (\<lambda>p. p_id p = i) rows of [p] \<Rightarrow> Some (internal_dump (internal_response_of p)) | _ \<Rightarrow> None)"
| "query_doc E rows (QList page sz keyword off) =
     (if page_bound ((page - 1) * sz) \<and> page_bound sz
      then Some (page_dump
        \<lparr>pg_items = page_slice ((page - 1) * sz) sz (rev (sort_key p_id (filter (product_where E keyword off) rows))),
         pg_page = page, pg_size = sz,
         pg_total = int (length (filter (product_where E keyword off) rows))\<rparr>)
      else None)"

lemma product_where_keyword: "keyword_text k = keyword_text k' \<Longrightarrow> product_where E k off = product_where E k' off"
  by (cases k; cases k') (auto simp: product_where_def [abs_def] keyword_text_def)

lemma same_query_doc: "same_query q q' \<Longrightarrow> query_doc E rows q = query_doc E rows q'"
proof (cases q)
  case (QList page sz k off)
  assume "same_query q q'"
  with QList obtain k' where q': "q' = QList page sz k' off" and k: "keyword_text k = keyword_text k'" by (cases q') auto
  show ?thesis unfolding QList q' query_doc.simps product_where_keyword [OF k] ..
qed simp_all

definition catalog_version :: "keyspace \<Rightarrow> int" where
  "catalog_version ks = counter_level ks CATALOG_VERSION_KEY"

definition version_ok :: "keyspace \<Rightarrow> bool" where
  "version_ok ks \<longleftrightarrow> counter_ok ks CATALOG_VERSION_KEY \<and> (\<forall>e. ks CATALOG_VERSION_KEY = Some e \<longrightarrow> snd e = None)"

definition coherent :: "('r, 'd) product_env \<Rightarrow> keyspace \<Rightarrow> product list \<Rightarrow> bool" where
  "coherent E ks rows \<longleftrightarrow>
     version_ok ks \<and>
     (\<forall>q v. catalog_version ks < v \<longrightarrow> ks (query_key v q) = None) \<and>
     (\<forall>q e. ks (query_key (catalog_version ks) q) = Some e \<longrightarrow>
        (\<exists>doc. query_doc E rows q = Some doc \<and> fst e = RStr (json_text doc)))"

lemma coherent_purge:
  assumes "coherent E ks rows"
  shows "coherent E (purge t ks) rows" and "catalog_version (purge t ks) = catalog_version ks"
proof -
  have v: "purge t ks CATALOG_VERSION_KEY = ks CATALOG_VERSION_KEY"
  proof (cases "ks CATALOG_VERSION_KEY")
    case (Some e)
    then have "snd e = None" using assms by (simp add: coherent_def version_ok_def)
    with Some show ?thesis by (cases e) (simp add: purge_def)
  qed (simp add: purge_def)
  then show c: "catalog_version (purge t ks) = catalog_version ks"
    by (simp add: catalog_version_def counter_level_def)
  have "version_ok (purge t ks)" using assms v by (simp add: coherent_def version_ok_def counter_ok_def)
  moreover have "purge t ks k = Some e \<Longrightarrow> ks k = Some e" for k e
    by (simp add: purge_def split: option.splits prod.splits if_splits)
  moreover have "ks k = None \<Longrightarrow> purge t ks k = None" for k by (simp add: purge_def)
  ultimately show "coherent E (purge t ks) rows"
    using assms unfolding coherent_def c by blast
qed

lemma coherent_setnx:
  assumes "coherent E ks rows" and "ks CATALOG_VERSION_KEY = None"
  shows "coherent E (ks(CATALOG_VERSION_KEY \<mapsto> (RStr ''0'', None))) rows"
    and "catalog_version (ks(CATALOG_VERSION_KEY \<mapsto> (RStr ''0'', None))) = catalog_version ks"
proof -
  let ?ks = "ks(CATALOG_VERSION_KEY \<mapsto> (RStr ''0'', None))"
  have z: "redis_int ''0'' = Some 0" by code_simp
  then show c: "catalog_version ?ks = catalog_version ks"
    using assms(2) by (simp add: catalog_version_def counter_level_def)
  show "coherent E ?ks rows"
    using assms z by (simp add: coherent_def c version_ok_def counter_ok_def query_key_others)
qed

lemma coherent_bump:
  assumes "coherent E ks rows" and "catalog_version ks < int64_max"
  shows "coherent E (snd (ks_incr CATALOG_VERSION_KEY t ks)) rows'"
    and "catalog_version (snd (ks_incr CATALOG_VERSION_KEY t ks)) = catalog_version ks + 1"
proof -
  let ?ks = "snd (ks_incr CATALOG_VERSION_KEY t ks)"
  have ok: "counter_ok ks CATALOG_VERSION_KEY" using assms(1) by (simp add: coherent_def version_ok_def)
  note i = ks_incr_counter [OF ok, where t = t] assms(2)
  show c: "catalog_version ?ks = catalog_version ks + 1"
    using i by (simp add: catalog_version_def)
  have "version_ok ?ks"
    using assms i by (auto simp: coherent_def version_ok_def catalog_version_def ks_incr_def split: option.splits rvalue.splits)
  moreover have "?ks (query_key v q) = ks (query_key v q)" for v q
    using i by (simp add: catalog_version_def query_key_others)
  ultimately show "coherent E ?ks rows'"
    using assms(1) unfolding coherent_def c by simp
qed

lemma coherent_setex:
  assumes "coherent E ks rows" and "query_doc E rows q = Some doc"
  shows "coherent E (snd (ks_setex (query_key (catalog_version ks) q) ttl (json_text doc) t ks)) rows"
    and "catalog_version (snd (ks_setex (query_key (catalog_version ks) q) ttl (json_text doc) t ks)) = catalog_version ks"
proof -
  let ?ks = "snd (ks_setex (query_key (catalog_version ks) q) ttl (json_text doc) t ks)"
  have v: "?ks CATALOG_VERSION_KEY = ks CATALOG_VERSION_KEY"
    by (simp add: ks_setex_def query_key_others)
  then show c: "catalog_version ?ks = catalog_version ks" by (simp add: catalog_version_def counter_level_def)
  have "version_ok ?ks" using assms(1) v by (simp add: coherent_def version_ok_def counter_ok_def)
  moreover have "?ks (query_key w q') = None" if "catalog_version ks < w" for w q'
    using that assms(1) by (simp add: ks_setex_def coherent_def query_key_eq)
  moreover have "\<exists>d. query_doc E rows q' = Some d \<and> fst e = RStr (json_text d)"
    if "?ks (query_key (catalog_version ks) q') = Some e" for q' e
  proof (cases "same_query q q'")
    case True
    then have "query_doc E rows q' = Some doc" using assms(2) same_query_doc by metis
    moreover have "query_key (catalog_version ks) q' = query_key (catalog_version ks) q"
      using True query_key_eq by metis
    moreover have "e = (RStr (json_text doc), Some (t + ttl * second)) \<or> ks (query_key (catalog_version ks) q') = Some e"
      using that by (auto simp: ks_setex_def split: if_splits)
    ultimately show ?thesis using assms(1) unfolding coherent_def by (metis fst_conv)
  next
    case False
    then have "query_key (catalog_version ks) q' \<noteq> query_key (catalog_version ks) q"
      using query_key_eq by metis
    then have "ks (query_key (catalog_version ks) q') = Some e" using that by (simp add: ks_frames)
    then show ?thesis using assms(1) unfolding coherent_def by blast
  qed
  ultimately show "coherent E ?ks rows" unfolding coherent_def c by blast
qed

section \<open>The service with and without its cache\<close>

datatype catalog_request =
    GetProduct int
  | GetInternal int
  | ListProducts int int "string option" bool "string option"
  | CreateProduct product_create_request "string option" "string option"
  | UpdateProduct int product_update_request "string option" "string option"
  | UpdateStatus int int "string option" "string option"
  | UpdateStock int int "string option" "string option"
  | ReserveStock int int
  | ReleaseStock int int

definition json_data :: "('a \<Rightarrow> pyval) \<Rightarrow> ('s, 'a api_response) prog \<Rightarrow> ('s, pyval) prog" where
  "json_data dump m = bind_prog m (\<lambda>resp. return_prog (json_opt dump (ar_data resp)))"

fun serve :: "('r, 'd) product_env \<Rightarrow> catalog_request \<Rightarrow> (('r, 'd) service_state, pyval) prog" where
  "serve E (GetProduct i) = json_data product_dump (get_product E i)"
| "serve E (GetInternal i) = json_data internal_dump (get_internal_product E i)"
| "serve E (ListProducts page sz keyword off role) = json_data page_dump (list_products E page sz keyword off role)"
| "serve E (CreateProduct payload role auth) = json_data product_dump (create_product_endpoint E payload role auth)"
| "serve E (UpdateProduct i payload role auth) = json_data product_dump (update_product_endpoint E i payload role auth)"
| "serve E (UpdateStatus i s role auth) = json_data product_dump (update_product_status_endpoint E i s role auth)"
| "serve E (UpdateStock i n role auth) = json_data product_dump (update_product_stock_endpoint E i n role auth)"
| "serve E (ReserveStock i q) = json_data internal_dump (reserve_stock_endpoint E i q)"
| "serve E (ReleaseStock i q) = json_data internal_dump (release_stock_endpoint E i q)"

text \<open>A history: before each request some time passes.\<close>

fun serve_all ::
  "(int \<Rightarrow> 'r \<Rightarrow> 'r) \<Rightarrow> ('r, 'd) product_env \<Rightarrow> (int \<times> catalog_request) list \<Rightarrow> ('r, 'd) service_state \<Rightarrow>
     pyval res list \<times> ('r, 'd) service_state" where
  "serve_all elapse E [] st = ([], st)"
| "serve_all elapse E ((t, rq) # rest) st =
     (case serve E rq (st\<lparr>ss_redis := elapse t (ss_redis st)\<rparr>) of
        (r, st') \<Rightarrow> (case serve_all elapse E rest st' of (rs, st'') \<Rightarrow> (r # rs, st'')))"

definition uncached :: "('r, 'd) product_env \<Rightarrow> ('r, 'd) product_env" where
  "uncached E = E\<lparr>pe_settings := (pe_settings E)\<lparr>ps_redis_enabled := False\<rparr>\<rparr>"

locale catalog_service =
  redis: coupon_redis E rview clock rup rsteady elapse +
  db: product_session E view up steady +
  pyd: pydantic_json "pe_pydantic E"
  for E :: "('r, 'd) product_env" and rview clock rup rsteady elapse view up steady
begin

definition agree :: "nat \<Rightarrow> product list \<Rightarrow> int \<Rightarrow> ('r, 'd) service_state \<Rightarrow> bool" where
  "agree k rows n st \<longleftrightarrow>
     rsteady (ss_redis st) \<and> coherent E (rview (ss_redis st)) rows \<and>
     catalog_version (rview (ss_redis st)) + int k \<le> int64_max \<and>
     steady (ss_db st) \<and> view (ss_db st) = table_of rows n \<and> product_table_ok (pe_text_eq E) rows"

definition holds :: "product list \<Rightarrow> int \<Rightarrow> ('r, 'd) service_state \<Rightarrow> bool" where
  "holds rows n st \<longleftrightarrow>
     steady (ss_db st) \<and> view (ss_db st) = table_of rows n \<and> product_table_ok (pe_text_eq E) rows"

lemma get_run:
  assumes "rsteady s"
  shows "fst (ps_safe_execute E (\<lambda>c. redis_get c k) s) =
      (case fst (ks_get k (clock s) (rview s)) of Inl _ \<Rightarrow> None | Inr v \<Rightarrow> v)"
    and "rview (snd (ps_safe_execute E (\<lambda>c. redis_get c k) s)) = rview s"
    and "rsteady (snd (ps_safe_execute E (\<lambda>c. redis_get c k) s))"
  using implements_up [OF redis.get_law redis.steady_up [OF assms], of k] implements_steady [OF redis.get_law assms, of k]
  by (auto simp: ps_safe_execute_def redis.ps_client safe_execute_Some ks_get_def split: option.splits rvalue.splits)

lemma version_step:
  assumes "rsteady s" and "version_ok (rview s)"
  obtains s' where "get_catalog_version E s = (Inr (catalog_version (rview s)), s')" and "rsteady s'"
    and "rview s' = rview s \<or>
      rview s CATALOG_VERSION_KEY = None \<and> rview s' = (rview s)(CATALOG_VERSION_KEY \<mapsto> (RStr ''0'', None))"
proof -
  obtain v s1 where g: "ps_safe_execute E (\<lambda>c. redis_get c CATALOG_VERSION_KEY) s = (v, s1)" by fastforce
  note g1 = get_run [OF assms(1), of CATALOG_VERSION_KEY, unfolded g, simplified]
  show thesis
  proof (cases "rview s CATALOG_VERSION_KEY")
    case None
    note x = redis.execute_run [of "\<lambda>c. redis_setnx c CATALOG_VERSION_KEY ''0''", OF redis.setnx_law g1(3)]
    have "catalog_version (rview s) = 0" using None by (simp add: catalog_version_def counter_level_def)
    moreover have "v = None" using g1(1) None by (simp add: ks_get_def)
    ultimately show thesis
      using that [of "snd (ps_safe_execute E (\<lambda>client. some_reply (redis_setnx client CATALOG_VERSION_KEY ''0'')) s1)"]
        x g g1(2) None by (simp add: get_catalog_version_def ks_setnx_def)
  next
    case (Some e)
    then obtain w where e: "e = (RStr w, None)" and r: "redis_int w = Some (catalog_version (rview s))"
      using assms(2) by (cases e; cases "fst e")
        (auto simp: version_ok_def counter_ok_def catalog_version_def counter_level_def split: option.splits)
    have "v = Some w" using g1(1) Some e by (simp add: ks_get_def)
    moreover have "int_of_str w = Some (catalog_version (rview s))"
      using r by (auto simp: redis_int_def split: option.splits if_splits)
    ultimately show thesis
      using that [of s1] g g1 by (simp add: get_catalog_version_def)
  qed
qed

lemma version_run:
  assumes "rsteady s" and "coherent E (rview s) rows"
  obtains s' where "get_catalog_version E s = (Inr (catalog_version (rview s)), s')" and "rsteady s'"
    and "coherent E (rview s') rows" and "catalog_version (rview s') = catalog_version (rview s)"
proof -
  have "version_ok (rview s)" using assms(2) by (simp add: coherent_def)
  from version_step [OF assms(1) this] coherent_setnx [OF assms(2)] show thesis
    using that assms(2) by metis
qed

lemma cached_run:
  assumes "rsteady s" and "coherent E (rview s) rows"
  shows "fst (get_cached_json E (query_key (catalog_version (rview s)) q) s) = Inr None \<or>
     (\<exists>doc. query_doc E rows q = Some doc \<and>
        (json_ok doc \<longrightarrow> json_text doc \<noteq> [] \<longrightarrow>
           fst (get_cached_json E (query_key (catalog_version (rview s)) q) s) = Inr (Some doc)))"
    and "rview (snd (get_cached_json E k s)) = rview s" and "rsteady (snd (get_cached_json E k s))"
proof -
  let ?k = "query_key (catalog_version (rview s)) q"
  show "rview (snd (get_cached_json E k s)) = rview s" and "rsteady (snd (get_cached_json E k s))"
    using get_run [OF assms(1), of k] by (simp_all add: get_cached_json_def case_prod_unfold)
  show "fst (get_cached_json E ?k s) = Inr None \<or>
     (\<exists>doc. query_doc E rows q = Some doc \<and>
        (json_ok doc \<longrightarrow> json_text doc \<noteq> [] \<longrightarrow> fst (get_cached_json E ?k s) = Inr (Some doc)))"
  proof (cases "rview s ?k")
    case None
    then show ?thesis using get_run(1) [OF assms(1), of ?k]
      by (simp add: get_cached_json_def case_prod_unfold ks_get_def loads_value_def)
  next
    case (Some e)
    then obtain doc where d: "query_doc E rows q = Some doc" "fst e = RStr (json_text doc)"
      using assms(2) unfolding coherent_def by blast
    have "fst (get_cached_json E ?k s) = Inr (Some doc)" if "json_ok doc" "json_text doc \<noteq> []"
      using redis.get_cached_run [OF assms(1) that, of ?k "snd e"] Some d(2) by (metis prod.collapse)
    with d show ?thesis by blast
  qed
qed


lemma agree_down: "agree (Suc k) rows n st \<Longrightarrow> agree k rows n st"
  by (simp add: agree_def)

definition follows ::
  "(('r, 'd) service_state, 'a) prog \<Rightarrow> (('r, 'd) service_state, 'a) prog \<Rightarrow> bool" where
  "follows m m' \<longleftrightarrow>
     (\<forall>k rows n st st0. agree (Suc k) rows n st \<longrightarrow> holds rows n st0 \<longrightarrow>
        (\<exists>r st' st0' rows' n'. m st = (r, st') \<and> m' st0 = (r, st0') \<and> agree k rows' n' st' \<and> holds rows' n' st0'))"

lemma follows_lift:
  assumes "\<And>x. follows (f x) (f' x)"
  shows "follows (bind_prog (lift_res r) f) (bind_prog (lift_res r) f')"
proof (cases r)
  case (Inl e)
  then show ?thesis using agree_down by (fastforce simp: follows_def)
next
  case (Inr x)
  then have "bind_prog (lift_res r) f = f x" "bind_prog (lift_res r) f' = f' x" by (auto simp: fun_eq_iff)
  then show ?thesis using assms by simp
qed

lemma follows_map:
  assumes "follows m m'"
  shows "follows (bind_prog m (\<lambda>x. return_prog (g x))) (bind_prog m' (\<lambda>x. return_prog (g x)))"
proof (unfold follows_def, intro allI impI)
  fix k rows n st st0
  assume "agree (Suc k) rows n st" "holds rows n st0"
  with assms obtain r st' st0' rows' n' where "m st = (r, st')" "m' st0 = (r, st0')" "agree k rows' n' st'" "holds rows' n' st0'"
    unfolding follows_def by blast
  then show "\<exists>r st' st0' rows' n'. bind_prog m (\<lambda>x. return_prog (g x)) st = (r, st') \<and>
      bind_prog m' (\<lambda>x. return_prog (g x)) st0 = (r, st0') \<and> agree k rows' n' st' \<and> holds rows' n' st0'"
    by (cases r) (auto simp: bind_prog_def)
qed

lemma follows_json: "follows m m' \<Longrightarrow> follows (json_data dump m) (json_data dump m')"
  unfolding json_data_def by (rule follows_map)

lemma follows_answer: "follows m m' \<Longrightarrow> follows (answer E m) (answer (uncached E) m')"
  unfolding answer_def by (simp add: follows_map uncached_def)

lemma uncached_client: "ps_get_redis_client (uncached E) = None"
  by (simp add: ps_get_redis_client_def uncached_def)

lemma uncached_runs [simp]:
  "get_catalog_version (uncached E) s = (Inr 0, s)" "get_cached_json (uncached E) k s = (Inr None, s)"
  "set_cached_json (uncached E) k doc ttl s = (Inr (), s)" "bump_catalog_version (uncached E) s = (Inr (), s)"
  by (simp_all add: get_catalog_version_def get_cached_json_def set_cached_json_def setex_json_def bump_catalog_version_def
      ps_safe_execute_def uncached_client loads_value_def bind_prog_def Let_def)


lemma store_step:
  assumes "rsteady s" and "json_ok doc"
  obtains l s' where "set_cached_json E k doc ttl s = (Inr (), s')" and "rsteady s'"
    and "rview s' = snd (ks_setex k l (json_text doc) (clock s) (rview s))"
proof -
  define l where "l = (case ttl of None \<Rightarrow> ps_redis_cache_ttl_seconds (pe_settings E)
      | Some n \<Rightarrow> (if n = 0 then ps_redis_cache_ttl_seconds (pe_settings E) else n))"
  note x = redis.execute_run [of "\<lambda>c. redis_setex c k l (json_text doc)", OF redis.setex_law assms(1)]
  let ?s = "snd (ps_safe_execute E (\<lambda>c. some_reply (redis_setex c k l (json_text doc))) s)"
  have "set_cached_json E k doc ttl s = (Inr (), ?s)"
    using assms(2) by (simp add: set_cached_json_def Let_def l_def [symmetric] bind_prog_def setex_json_def redis.ps_client
        json_dumps_def case_prod_unfold)
  then show thesis using that x(2,4) by simp
qed

lemma set_cached_run:
  assumes "rsteady s" and "coherent E (rview s) rows" and "query_doc E rows q = Some doc" and "json_ok doc"
  obtains s' where "set_cached_json E (query_key (catalog_version (rview s)) q) doc ttl s = (Inr (), s')" and "rsteady s'"
    and "coherent E (rview s') rows" and "catalog_version (rview s') = catalog_version (rview s)"
  using store_step [OF assms(1,4)] coherent_setex [OF assms(2,3)] that by metis

definition reads :: "('d, 'a) prog \<Rightarrow> product list \<Rightarrow> int \<Rightarrow> 'a res \<Rightarrow> bool" where
  "reads m rows n res \<longleftrightarrow>
     (\<forall>d. steady d \<longrightarrow> view d = table_of rows n \<longrightarrow> (\<exists>d'. m d = (res, d') \<and> view d' = table_of rows n \<and> steady d'))"

lemma reads_get_db:
  assumes "reads m rows n res"
  shows "reads (get_db (pe_db E) m) rows n res"
proof (unfold reads_def, intro allI impI)
  fix d
  assume "steady d" "view d = table_of rows n"
  with assms obtain d' where d': "m d = (res, d')" "view d' = table_of rows n" "steady d'" unfolding reads_def by blast
  have "view (snd (sql_rollback (pe_db E) d')) = table_of rows n" "steady (snd (sql_rollback (pe_db E) d'))"
    using sql_implements_up(2) [OF db.rollback_law db.steady_up [OF d'(3)]] sql_implements_steady [OF db.rollback_law d'(3)] d'(2)
    by (simp_all add: tb_rollback_def table_of_def)
  with d'(1) show "\<exists>d'. get_db (pe_db E) m d = (res, d') \<and> view d' = table_of rows n \<and> steady d'"
    by (simp add: get_db_def)
qed

lemma reads_simulated:
  assumes "simulates steady view m spec" and "spec (table_of rows n) = (res, table_of rows n)"
  shows "reads m rows n res"
  unfolding reads_def using simulates_run [OF assms(1) _ _ assms(2)] by (metis surj_pair)

lemma read_cached:
  assumes "agree k rows n st" and "reads compute rows n res"
    and ok: "\<And>x. res = Inr x \<Longrightarrow> query_doc E rows q = Some (dump x) \<and> json_ok (dump x) \<and> truthy (dump x) \<and> parse (dump x) = Inr x"
    and no: "\<And>e. res = Inl e \<Longrightarrow> query_doc E rows q = None"
  shows "\<exists>st'. read_through E (bind_prog (get_catalog_version E) (\<lambda>v. return_prog (query_key v q))) parse dump compute st = (res, st') \<and>
     agree k rows n st'"
proof -
  note a = assms(1) [unfolded agree_def]
  obtain s1 where s1: "get_catalog_version E (ss_redis st) = (Inr (catalog_version (rview (ss_redis st))), s1)" "rsteady s1"
      "coherent E (rview s1) rows" "catalog_version (rview s1) = catalog_version (rview (ss_redis st))"
    using version_run a by metis
  let ?k = "query_key (catalog_version (rview (ss_redis st))) q"
  obtain c s2 where c: "get_cached_json E ?k s1 = (c, s2)" by fastforce
  note c2 = cached_run(2,3) [OF s1(2,3), of ?k, unfolded c, simplified]
  have key: "with_redis (bind_prog (get_catalog_version E) (\<lambda>v. return_prog (query_key v q))) st = (Inr ?k, st\<lparr>ss_redis := s1\<rparr>)"
    using s1(1) by (simp add: with_redis_def bind_prog_def)
  have got: "with_redis (get_cached_json E ?k) (st\<lparr>ss_redis := s1\<rparr>) = (c, st\<lparr>ss_redis := s2\<rparr>)"
    using c by (simp add: with_redis_def)
  obtain d' where d': "compute (ss_db st) = (res, d')" "view d' = table_of rows n" "steady d'"
    using assms(2) a unfolding reads_def by blast
  have ag2: "agree k rows n (st\<lparr>ss_redis := s2\<rparr>)" using a c2 s1 by (simp add: agree_def)
  have hit: "c = Inr None \<or> (\<exists>x. res = Inr x \<and> c = Inr (Some (dump x)))"
  proof (cases res)
    case (Inr x)
    have "json_text (dump x) \<noteq> []" using ok [OF Inr] json_text_head by (metis list.discI)
    then show ?thesis using cached_run(1) [OF s1(2,3), of q] c s1(4) ok [OF Inr] Inr by auto
  next
    case (Inl e)
    then show ?thesis using cached_run(1) [OF s1(2,3), of q] c s1(4) no [OF Inl] by simp
  qed
  show ?thesis
  proof (cases "c = Inr None")
    case False
    then show ?thesis using hit key got ag2 ok by (auto simp: read_through_def bind_prog_def)
  next
    case True
    show ?thesis
    proof (cases res)
      case (Inl e)
      then show ?thesis using True key got d' a c2 s1
        by (simp add: read_through_def bind_prog_def with_db_def agree_def)
    next
      case (Inr x)
      obtain s3 where s3: "set_cached_json E ?k (dump x) None s2 = (Inr (), s3)" "rsteady s3" "coherent E (rview s3) rows"
          "catalog_version (rview s3) = catalog_version (rview s2)"
        using set_cached_run [of s2 rows q "dump x" None] c2 s1 ok [OF Inr] by metis
      then show ?thesis using True Inr key got d' a c2 s1
        by (simp add: read_through_def bind_prog_def with_db_def with_redis_def agree_def)
    qed
  qed
qed

lemma read_uncached:
  assumes "holds rows n st" and "reads compute rows n res"
  shows "\<exists>st'. read_through (uncached E) (bind_prog (get_catalog_version (uncached E)) (\<lambda>v. return_prog (query_key v q))) parse dump compute st = (res, st') \<and>
     holds rows n st'"
proof -
  obtain d' where d': "compute (ss_db st) = (res, d')" "view d' = table_of rows n" "steady d'"
    using assms unfolding reads_def holds_def by blast
  then show ?thesis using assms(1)
    by (cases res) (simp_all add: read_through_def bind_prog_def with_db_def with_redis_def holds_def)
qed

lemma follows_read:
  assumes "\<And>rows n. product_table_ok (pe_text_eq E) rows \<Longrightarrow> \<exists>res. reads compute rows n res \<and>
      (\<forall>x. res = Inr x \<longrightarrow> query_doc E rows q = Some (dump x) \<and> json_ok (dump x) \<and> truthy (dump x) \<and> parse (dump x) = Inr x) \<and>
      (\<forall>e. res = Inl e \<longrightarrow> query_doc E rows q = None)"
  shows "follows (read_through E (bind_prog (get_catalog_version E) (\<lambda>v. return_prog (query_key v q))) parse dump compute)
     (read_through (uncached E) (bind_prog (get_catalog_version (uncached E)) (\<lambda>v. return_prog (query_key v q))) parse dump compute)"
proof (unfold follows_def, intro allI impI)
  fix k rows n st st0
  assume a: "agree (Suc k) rows n st" and h: "holds rows n st0"
  then have "product_table_ok (pe_text_eq E) rows" by (simp add: agree_def)
  from assms [OF this, of n] obtain res where res: "reads compute rows n res"
      "\<And>x. res = Inr x \<Longrightarrow> query_doc E rows q = Some (dump x) \<and> json_ok (dump x) \<and> truthy (dump x) \<and> parse (dump x) = Inr x"
      "\<And>e. res = Inl e \<Longrightarrow> query_doc E rows q = None"
    by blast
  obtain st' where "read_through E (bind_prog (get_catalog_version E) (\<lambda>v. return_prog (query_key v q))) parse dump compute st = (res, st')"
      "agree k rows n st'"
    using read_cached [OF agree_down [OF a] res(1)] res(2,3) by blast
  moreover obtain st0' where "read_through (uncached E) (bind_prog (get_catalog_version (uncached E)) (\<lambda>v. return_prog (query_key v q))) parse dump compute st0 = (res, st0')"
      "holds rows n st0'"
    using read_uncached [OF h res(1)] by blast
  ultimately show "\<exists>r st' st0' rows' n'.
     read_through E (bind_prog (get_catalog_version E) (\<lambda>v. return_prog (query_key v q))) parse dump compute st = (r, st') \<and>
     read_through (uncached E) (bind_prog (get_catalog_version (uncached E)) (\<lambda>v. return_prog (query_key v q))) parse dump compute st0 = (r, st0') \<and>
     agree k rows' n' st' \<and> holds rows' n' st0'"
    by blast
qed

section \<open>Writes\<close>

definition writes :: "('d, 'a) prog \<Rightarrow> (product, 'a) tspec \<Rightarrow> bool" where
  "writes m spec \<longleftrightarrow>
     simulates steady view m spec \<and>
     (\<forall>rows n. product_table_ok (pe_text_eq E) rows \<longrightarrow>
        (\<exists>r rows' n'. spec (table_of rows n) = (r, table_of rows' n') \<and> product_table_ok (pe_text_eq E) rows' \<and>
           (isl r \<longrightarrow> rows' = rows)))"

lemma bump_step:
  assumes "rsteady s"
  obtains s' where "bump_catalog_version E s = (Inr (), s')" and "rsteady s'"
    and "rview s' = snd (ks_incr CATALOG_VERSION_KEY (clock s) (rview s))"
proof -
  note x = redis.execute_run [of "\<lambda>c. redis_incr c CATALOG_VERSION_KEY", OF redis.incr_law assms]
  show thesis
    using that [of "snd (ps_safe_execute E (\<lambda>client. some_reply (redis_incr client CATALOG_VERSION_KEY)) s)"]
      x(2,4) by (simp add: bump_catalog_version_def)
qed

lemma bump_run:
  assumes "rsteady s" and "coherent E (rview s) rows" and "catalog_version (rview s) < int64_max"
  obtains s' where "bump_catalog_version E s = (Inr (), s')" and "rsteady s'" and "coherent E (rview s') rows'"
    and "catalog_version (rview s') = catalog_version (rview s) + 1"
  using bump_step [OF assms(1)] coherent_bump [OF assms(2,3)] that by metis

lemma write_run:
  assumes "writes m spec" and "product_table_ok (pe_text_eq E) rows"
  obtains rows' r n' where "product_table_ok (pe_text_eq E) rows'" and "isl r \<longrightarrow> rows' = rows"
    and "\<forall>d. steady d \<longrightarrow> view d = table_of rows n \<longrightarrow>
       (\<exists>d'. get_db (pe_db E) m d = (r, d') \<and> view d' = table_of rows' n' \<and> steady d')"
proof -
  have sim: "simulates steady view (get_db (pe_db E) m) (get_db (table_sql (product_check (pe_text_eq E)) product_coerce) spec)"
    by (rule db.simulates_get_db) (use assms in \<open>simp add: writes_def\<close>)
  obtain r rows' n' where r: "spec (table_of rows n) = (r, table_of rows' n')" "product_table_ok (pe_text_eq E) rows'" "isl r \<longrightarrow> rows' = rows"
    using assms unfolding writes_def by blast
  have t: "get_db (table_sql (product_check (pe_text_eq E)) product_coerce) spec (table_of rows n) = (r, table_of rows' n')"
    by (simp add: get_db_def r(1))
  show thesis
  proof (rule that [OF r(2,3)], intro allI impI)
    fix d
    assume "steady d" "view d = table_of rows n"
    then show "\<exists>d'. get_db (pe_db E) m d = (r, d') \<and> view d' = table_of rows' n' \<and> steady d'"
      using simulates_run [OF sim _ _ t] by (metis surj_pair)
  qed
qed

lemma follows_write:
  assumes "writes m spec"
  shows "follows (write_and_bump E m) (write_and_bump (uncached E) m)"
proof (unfold follows_def, intro allI impI)
  fix k rows n st st0
  assume a: "agree (Suc k) rows n st" and h: "holds rows n st0"
  let ?c = "get_db (pe_db E) m"
  have ok: "product_table_ok (pe_text_eq E) rows" using a by (simp add: agree_def)
  obtain rows' r n' where r: "product_table_ok (pe_text_eq E) rows'" "isl r \<longrightarrow> rows' = rows"
    and run: "\<forall>d. steady d \<longrightarrow> view d = table_of rows n \<longrightarrow> (\<exists>d'. ?c d = (r, d') \<and> view d' = table_of rows' n' \<and> steady d')"
    using write_run [OF assms ok, of n] .
  obtain d1 where d1: "?c (ss_db st) = (r, d1)" "view d1 = table_of rows' n'" "steady d1" using run a by (auto simp: agree_def)
  obtain d2 where d2: "?c (ss_db st0) = (r, d2)" "view d2 = table_of rows' n'" "steady d2" using run h by (auto simp: holds_def)
  have db: "pe_db (uncached E) = pe_db E" by (simp add: uncached_def)
  show "\<exists>r st' st0' rows' n'. write_and_bump E m st = (r, st') \<and> write_and_bump (uncached E) m st0 = (r, st0') \<and>
     agree k rows' n' st' \<and> holds rows' n' st0'"
  proof (cases r)
    case (Inl e)
    then show ?thesis using d1 d2 r a h
      by (auto simp: write_and_bump_def bind_prog_def with_db_def db agree_def holds_def)
  next
    case (Inr x)
    obtain s' where s': "bump_catalog_version E (ss_redis st) = (Inr (), s')" "rsteady s'" "coherent E (rview s') rows'"
        "catalog_version (rview s') = catalog_version (rview (ss_redis st)) + 1"
      using bump_run [of "ss_redis st" rows rows'] a unfolding agree_def by auto
    then show ?thesis using Inr d1 d2 r a h
      by (auto simp: write_and_bump_def bind_prog_def with_db_def with_redis_def db agree_def holds_def)
  qed
qed


lemma writes_stock_update:
  assumes "simulates steady view m (stock_update db.T i P (moved_stock q) e)" and P: "\<And>r. P r \<Longrightarrow> p_id r = i"
  shows "writes m (stock_update db.T i P (moved_stock q) e)"
proof -
  have "\<exists>r rows' n'. stock_update db.T i P (moved_stock q) e (table_of rows n) = (r, table_of rows' n') \<and>
      product_table_ok (pe_text_eq E) rows' \<and> (isl r \<longrightarrow> rows' = rows)"
    if ok: "product_table_ok (pe_text_eq E) rows" for rows n
  proof (cases "filter P rows")
    case Nil
    then show ?thesis using stock_update_table(1) [where P = P, OF ok P Nil] ok by auto
  next
    case (Cons p ps)
    then have "p \<in> set (filter P rows)" by simp
    then have p: "p \<in> set rows" "P p" by auto
    note u = stock_update_table(2) [where P = P, OF ok P p]
    show ?thesis
    proof (cases "product_check (pe_text_eq E) (replace_product p (moved_stock q p) rows)")
      case None
      have "product_coerce (moved_stock q p) = moved_stock q p"
        using stored_rows [OF ok p(1)] by (simp add: stored_def product_coerce_iff)
      from table_ok_replaced [OF ok None this] u None show ?thesis by auto
    next
      case (Some e')
      then show ?thesis using u ok by auto
    qed
  qed
  with assms(1) show ?thesis by (simp add: writes_def)
qed

lemma writes_reserve: "\<exists>spec. writes (reserve_stock E i q) spec"
  using writes_stock_update [of "reserve_stock E i q" i "can_reserve i q" "- q" "http_error 409 ''Insufficient stock or product unavailable''"] db.sim_reserve [of i q]
  by (auto simp: reserve_as_update can_reserve_def)

lemma writes_release: "\<exists>spec. writes (release_stock E i q) spec"
  using writes_stock_update [of "release_stock E i q" i "\<lambda>p. p_id p = i" q "http_error 404 ''Product not found''"] db.sim_release [of i q]
  by (auto simp: release_as_update)

lemma writes_create: "\<exists>spec. writes (create_product E payload) spec"
proof -
  let ?eq = "pe_text_eq E"
  have "\<exists>r rows' n'. create_product db.T payload (table_of rows n) = (r, table_of rows' n') \<and>
      product_table_ok ?eq rows' \<and> (isl r \<longrightarrow> rows' = rows)" if ok: "product_table_ok ?eq rows" for rows n
  proof (cases "filter (\<lambda>p. ?eq (p_product_code p) (cr_product_code payload)) rows")
    case Nil
    let ?p = "product_coerce (new_product payload n)"
    show ?thesis
    proof (cases "product_check ?eq (rows @ [?p])")
      case None
      have "p_id ?p = n" by (simp add: new_product_def)
      with filter_product_id [OF None, of ?p] have f: "filter (\<lambda>p. p_id p = n) (rows @ [?p]) = [?p]" by simp
      have "create_product db.T payload (table_of rows n) = (Inr ?p, table_of (rows @ [?p]) (n + 1))"
        using Nil f by (simp add: create_product_def bind_prog_def table_one_or_none commit_insert None table_refresh
            del: filter_append)
      moreover have "product_table_ok ?eq (rows @ [?p])" using ok None by (simp add: product_table_ok_def)
      ultimately show ?thesis by auto
    next
      case (Some e)
      then show ?thesis using Nil ok by (auto simp: create_product_def bind_prog_def table_one_or_none commit_insert)
    qed
  next
    case (Cons p ps)
    then show ?thesis using ok
      by (cases ps) (auto simp: create_product_def bind_prog_def table_one_or_none)
  qed
  then have "writes (create_product E payload) (create_product db.T payload)"
    using db.sim_create by (simp add: writes_def)
  then show ?thesis by blast
qed

lemma writes_save:
  assumes "\<And>p q. p_id (f p q) = p_id q"
  shows "\<exists>spec. writes (bind_prog (get_product_or_404 E i) (\<lambda>p. save_product E p (f p))) spec"
proof -
  let ?eq = "pe_text_eq E"
  let ?spec = "bind_prog (get_product_or_404 db.T i) (\<lambda>p. save_product db.T p (f p))"
  have "\<exists>r rows' n'. ?spec (table_of rows n) = (r, table_of rows' n') \<and>
      product_table_ok ?eq rows' \<and> (isl r \<longrightarrow> rows' = rows)" if ok: "product_table_ok ?eq rows" for rows n
  proof (cases "\<exists>p \<in> set rows. p_id p = i")
    case False
    have chk: "product_check ?eq rows = None" using ok by (simp add: product_table_ok_def)
    have "p_id ` set rows \<inter> {i} = {}" using False by auto
    from get_product_table(2) [OF chk this, where E = E and n = n] ok show ?thesis by (auto simp: bind_prog_def)
  next
    case True
    then obtain p where p: "p \<in> set rows" "p_id p = i" by blast
    have chk: "product_check ?eq rows = None" using ok by (simp add: product_table_ok_def)
    let ?p = "product_coerce (f p p)" and ?P = "\<lambda>r. p_id r = p_id p"
    have g: "?spec (table_of rows n) = save_product db.T p (f p) (table_of rows n)"
      using get_product_table(1) [OF chk p(1), where E = E and n = n] p(2) by (simp add: bind_prog_def)
    have u: "update_rows product_coerce ?P (f p) rows = replace_product p ?p rows"
      by (rule update_one_product(1) [OF chk p(1)]) simp_all
    show ?thesis
    proof (cases "product_check ?eq (replace_product p ?p rows)")
      case None
      have "product_table_ok ?eq (replace_product p ?p rows)"
        by (rule table_ok_replaced [OF ok None]) simp
      then show ?thesis using g save_product_table [where f = "f p", OF ok p(1) None, of n] assms by auto
    next
      case (Some e)
      have "\<exists>r \<in> set rows. ?P r" using p(1) by blast
      then have "save_product db.T p (f p) (table_of rows n) = (Inl e, table_of rows n)"
        using Some by (simp add: save_product_def bind_prog_def commit_modify u)
      then show ?thesis using g ok by auto
    qed
  qed
  moreover have "simulates steady view (bind_prog (get_product_or_404 E i) (\<lambda>p. save_product E p (f p))) ?spec"
    by (rule simulates_bind [OF db.sim_get_product db.sim_save])
  ultimately have "writes (bind_prog (get_product_or_404 E i) (\<lambda>p. save_product E p (f p))) ?spec"
    by (simp add: writes_def)
  then show ?thesis by blast
qed


lemma uncached_ops:
  "get_product_or_404 (uncached E) = get_product_or_404 E" "paginate_products (uncached E) = paginate_products E"
  "create_product (uncached E) = create_product E" "reserve_stock (uncached E) = reserve_stock E"
  "release_stock (uncached E) = release_stock E" "update_product (uncached E) = update_product E"
  "update_product_status (uncached E) = update_product_status E" "update_product_stock (uncached E) = update_product_stock E"
  "require_admin (uncached E) = require_admin E" "pe_db (uncached E) = pe_db E" "pe_pydantic (uncached E) = pe_pydantic E"
proof -
  have "product_where (uncached E) k off = product_where E k off" for k off
    by (cases k) (simp_all add: product_where_def [abs_def] uncached_def)
  note defs = this get_product_or_404_def [abs_def] paginate_products_def [abs_def] create_product_def [abs_def]
  have r: "pe_db (uncached E) = pe_db E" "pe_text_eq (uncached E) = pe_text_eq E" by (simp_all add: uncached_def)
  show g: "get_product_or_404 (uncached E) = get_product_or_404 E" "paginate_products (uncached E) = paginate_products E"
    "create_product (uncached E) = create_product E" "pe_db (uncached E) = pe_db E" "pe_pydantic (uncached E) = pe_pydantic E"
    by (simp_all add: defs r) (simp add: uncached_def)
  show "reserve_stock (uncached E) = reserve_stock E" "release_stock (uncached E) = release_stock E"
    unfolding reserve_stock_def [abs_def] release_stock_def [abs_def] g by (rule refl)+
  have "save_product (uncached E) = save_product E" using g by (simp add: save_product_def [abs_def])
  then show "update_product (uncached E) = update_product E"
    "update_product_status (uncached E) = update_product_status E" "update_product_stock (uncached E) = update_product_stock E"
    by (simp_all add: update_product_def [abs_def] update_product_status_def [abs_def] update_product_stock_def [abs_def])
  have "token_is_admin (uncached E) = token_is_admin E" by (simp add: token_is_admin_def [abs_def] uncached_def)
  then show "require_admin (uncached E) = require_admin E" unfolding require_admin_def [abs_def] by metis
qed

lemma product_lookup:
  assumes "product_table_ok (pe_text_eq E) rows"
  shows "filter (\<lambda>p. p_id p = i) rows = [] \<and> reads (get_product_or_404 E i) rows n (Inl (http_error 404 ''Product not found'')) \<or>
     (\<exists>p. filter (\<lambda>p. p_id p = i) rows = [p] \<and> stored p \<and> reads (get_product_or_404 E i) rows n (Inr p))"
proof -
  have chk: "product_check (pe_text_eq E) rows = None" using assms by (simp add: product_table_ok_def)
  note r = reads_simulated [OF db.sim_get_product]
  show ?thesis
  proof (cases "\<exists>p \<in> set rows. p_id p = i")
    case True
    then obtain p where p: "p \<in> set rows" "p_id p = i" by blast
    from r [OF get_product_table(1) [OF chk p(1)]] filter_product_id [OF chk p(1)] stored_rows [OF assms p(1)] p(2)
    show ?thesis by auto
  next
    case False
    then have f: "filter (\<lambda>p. p_id p = i) rows = []" by (auto simp: filter_empty_conv)
    have "p_id ` set rows \<inter> {i} = {}" using False by auto
    from r [OF get_product_table(2) [OF chk this]] f show ?thesis by simp
  qed
qed

lemma reads_map: "reads m rows n res \<Longrightarrow> reads (bind_prog m (\<lambda>x. return_prog (g x))) rows n (map_sum id g res)"
  unfolding reads_def by (cases res) (fastforce simp: bind_prog_def)+

lemma follows_get_product: "follows (get_product E i) (get_product (uncached E) i)"
proof -
  have "\<exists>res. reads (get_db (pe_db E) (get_product_or_404 E i)) rows n res \<and>
      (\<forall>x. res = Inr x \<longrightarrow> query_doc E rows (QProduct i) = Some (product_dump x) \<and> json_ok (product_dump x) \<and>
         truthy (product_dump x) \<and> product_of_json (pe_pydantic E) (product_dump x) = Inr x) \<and>
      (\<forall>e. res = Inl e \<longrightarrow> query_doc E rows (QProduct i) = None)"
    if "product_table_ok (pe_text_eq E) rows" for rows n
    using product_lookup [OF that, of i n] reads_get_db by (fastforce simp: product_dump_ok pyd.product_round_trip)
  from follows_read [OF this] show ?thesis
    by (simp add: get_product_def make_product_detail_cache_key_def uncached_ops follows_answer)
qed

lemma follows_get_internal: "follows (get_internal_product E i) (get_internal_product (uncached E) i)"
proof -
  have "\<exists>res. reads (get_db (pe_db E) (bind_prog (get_product_or_404 E i) (\<lambda>p. return_prog (internal_response_of p)))) rows n res \<and>
      (\<forall>x. res = Inr x \<longrightarrow> query_doc E rows (QInternal i) = Some (internal_dump x) \<and> json_ok (internal_dump x) \<and>
         truthy (internal_dump x) \<and> internal_of_json (pe_pydantic E) (internal_dump x) = Inr x) \<and>
      (\<forall>e. res = Inl e \<longrightarrow> query_doc E rows (QInternal i) = None)"
    if "product_table_ok (pe_text_eq E) rows" for rows n
    using product_lookup [OF that, of i n] reads_get_db [OF reads_map]
    by (fastforce simp: internal_dump_ok pyd.internal_round_trip)
  from follows_answer [OF follows_read [OF this]] show ?thesis
    unfolding get_internal_product_def make_product_detail_cache_key_def uncached_ops query_key.simps .
qed

end

lemma page_items_stored:
  "product_table_ok eq rows \<Longrightarrow> p \<in> set (page_slice m k (rev (sort_key p_id (filter P rows)))) \<Longrightarrow> stored p"
  by (auto simp: page_slice_def stored_rows dest!: in_set_takeD in_set_dropD)

context catalog_service
begin

text \<open>Reading a page leaves the table alone; the reply is the page when the bounds are numbers MySQL takes.\<close>

lemma page_run:
  assumes "steady d" and "product_table_ok (pe_text_eq E) (tb_rows (view d))"
  shows "\<exists>d'. paginate_products E page sz keyword off d =
     (if page_bound ((page - 1) * sz) \<and> page_bound sz
      then Inr (int (length (filter (product_where E keyword off) (tb_rows (view d)))),
           page_slice ((page - 1) * sz) sz (rev (sort_key p_id (filter (product_where E keyword off) (tb_rows (view d))))))
      else Inl ProgrammingError, d') \<and> view d' = view d \<and> steady d'"
proof (cases "page_bound ((page - 1) * sz) \<and> page_bound sz")
  case True
  have "distinct (map p_id (tb_rows (view d)))" using assms(2) product_ids by (auto simp: product_table_ok_def)
  with db.paginate_run [OF assms(1) this] True show ?thesis by simp
next
  case False
  let ?P = "product_where E keyword off"
  obtain c d1 where c: "sql_count (pe_db E) ?P d = (c, d1)" by fastforce
  have c1: "c = Inr (int (length (filter ?P (tb_rows (view d)))))" "view d1 = view d" "steady d1"
    using sql_implements_up [OF db.count_law db.steady_up [OF assms(1)], of ?P]
      sql_implements_steady [OF db.count_law assms(1), of ?P] c by (simp_all add: tb_count_def)
  obtain p d2 where p: "sql_page (pe_db E) ?P p_id True ((page - 1) * sz) sz d1 = (p, d2)" by fastforce
  have "distinct (map p_id (filter ?P (tb_rows (view d1))))"
    using assms(2) product_ids c1(2) by (auto simp: product_table_ok_def distinct_map_filter)
  then have "p = fst (tb_page ?P p_id True ((page - 1) * sz) sz (view d1))"
    using db.page_law [OF db.steady_up [OF c1(3)]] p by (metis fst_conv)
  then have "p = Inl ProgrammingError" using False by (auto simp: tb_page_def)
  moreover have "view d2 = view d" "steady d2"
    using db.page_view [OF db.steady_up [OF c1(3)], of ?P p_id True "(page - 1) * sz" sz]
      db.page_steady [OF c1(3), of ?P p_id True "(page - 1) * sz" sz] p c1(2) by simp_all
  ultimately show ?thesis using False c p c1 by (auto simp: paginate_products_def bind_prog_def)
qed

definition page_of :: "int \<Rightarrow> int \<Rightarrow> string option \<Rightarrow> bool \<Rightarrow> product list \<Rightarrow> product_page_response res" where
  "page_of page sz keyword off rows =
     (if page_bound ((page - 1) * sz) \<and> page_bound sz
      then Inr \<lparr>pg_items = page_slice ((page - 1) * sz) sz (rev (sort_key p_id (filter (product_where E keyword off) rows))),
                pg_page = page, pg_size = sz,
                pg_total = int (length (filter (product_where E keyword off) rows))\<rparr>
      else Inl ProgrammingError)"

lemma reads_page:
  assumes "product_table_ok (pe_text_eq E) rows"
  shows "reads (bind_prog (paginate_products E page sz keyword off)
     (\<lambda>(tot, items). return_prog \<lparr>pg_items = items, pg_page = page, pg_size = sz, pg_total = tot\<rparr>)) rows n (page_of page sz keyword off rows)"
proof (unfold reads_def, intro allI impI)
  fix d
  assume d: "steady d" "view d = table_of rows n"
  then have "product_table_ok (pe_text_eq E) (tb_rows (view d))" using assms by simp
  from page_run [OF d(1) this, of page sz keyword off] d(2)
  show "\<exists>d'. bind_prog (paginate_products E page sz keyword off)
     (\<lambda>(tot, items). return_prog \<lparr>pg_items = items, pg_page = page, pg_size = sz, pg_total = tot\<rparr>) d =
       (page_of page sz keyword off rows, d') \<and> view d' = table_of rows n \<and> steady d'"
    by (auto simp: bind_prog_def page_of_def)
qed

lemma follows_raise: "follows (\<lambda>st. (Inl e, st)) (\<lambda>st. (Inl e, st))"
  unfolding follows_def using agree_down by blast

lemma follows_list:
  assumes "page_number_ok page"
  shows "follows (list_products E page sz keyword off role) (list_products (uncached E) page sz keyword off role)"
proof (cases "1 \<le> page \<and> 1 \<le> sz \<and> sz \<le> 100")
  case False
  then have "list_products E' page sz keyword off role = (\<lambda>st. (Inl RequestValidationError, st))" for E' :: "('r, 'd) product_env"
    by (auto simp: list_products_def ensure_def bind_prog_def fun_eq_iff)
  then show ?thesis by (simp add: follows_raise)
next
  case True
  then have "\<bar>sz\<bar> < 10 ^ Suc 2" by simp
  from int_str_length [OF this] have sz: "page_number_ok sz" by (simp add: page_number_ok_def)
  have "\<exists>res. reads (get_db (pe_db E) (bind_prog (paginate_products E page sz keyword off)
        (\<lambda>(tot, items). return_prog \<lparr>pg_items = items, pg_page = page, pg_size = sz, pg_total = tot\<rparr>))) rows n res \<and>
      (\<forall>x. res = Inr x \<longrightarrow> query_doc E rows (QList page sz keyword off) = Some (page_dump x) \<and> json_ok (page_dump x) \<and>
         truthy (page_dump x) \<and> page_of_json (pe_pydantic E) (page_dump x) = Inr x) \<and>
      (\<forall>e. res = Inl e \<longrightarrow> query_doc E rows (QList page sz keyword off) = None)"
    if ok: "product_table_ok (pe_text_eq E) rows" for rows n
    using reads_get_db [OF reads_page [OF ok, of page sz keyword off n]] page_items_stored [OF ok] table_length [OF ok] assms sz
    by (intro exI [of _ "page_of page sz keyword off rows"]) (simp add: page_of_def page_dump_ok pyd.page_round_trip)
  from follows_read [OF this] show ?thesis
    unfolding list_products_def make_product_list_cache_key_def uncached_ops
    by (intro follows_lift follows_answer) (simp only: query_key.simps)
qed

lemma follows_writes:
  "follows (create_product_endpoint E cp role auth) (create_product_endpoint (uncached E) cp role auth)"
  "follows (update_product_endpoint E i rq role auth) (update_product_endpoint (uncached E) i rq role auth)"
  "follows (update_product_status_endpoint E i s role auth) (update_product_status_endpoint (uncached E) i s role auth)"
  "follows (update_product_stock_endpoint E i s role auth) (update_product_stock_endpoint (uncached E) i s role auth)"
  "follows (reserve_stock_endpoint E i s) (reserve_stock_endpoint (uncached E) i s)"
  "follows (release_stock_endpoint E i s) (release_stock_endpoint (uncached E) i s)"
proof -
  note w = follows_answer [OF follows_write]
  obtain c where c: "writes (create_product E cp) c" using writes_create by blast
  show "follows (create_product_endpoint E cp role auth) (create_product_endpoint (uncached E) cp role auth)"
    unfolding create_product_endpoint_def uncached_ops by (intro follows_lift w [OF c])
  obtain u where u: "writes (bind_prog (get_product_or_404 E i) (\<lambda>p. update_product E p rq)) u"
    using writes_save unfolding update_product_def by fastforce
  show "follows (update_product_endpoint E i rq role auth) (update_product_endpoint (uncached E) i rq role auth)"
    unfolding update_product_endpoint_def uncached_ops by (intro follows_lift w [OF u])
  obtain v where v: "writes (bind_prog (get_product_or_404 E i) (\<lambda>p. update_product_status E p s)) v"
    using writes_save unfolding update_product_status_def by fastforce
  show "follows (update_product_status_endpoint E i s role auth) (update_product_status_endpoint (uncached E) i s role auth)"
    unfolding update_product_status_endpoint_def uncached_ops by (intro follows_lift w [OF v])
  obtain x where x: "writes (bind_prog (get_product_or_404 E i) (\<lambda>p. update_product_stock E p s)) x"
    using writes_save unfolding update_product_stock_def by fastforce
  show "follows (update_product_stock_endpoint E i s role auth) (update_product_stock_endpoint (uncached E) i s role auth)"
    unfolding update_product_stock_endpoint_def uncached_ops by (intro follows_lift w [OF x])
  obtain y where y: "writes (reserve_stock E i s) y" using writes_reserve by blast
  show "follows (reserve_stock_endpoint E i s) (reserve_stock_endpoint (uncached E) i s)"
    unfolding reserve_stock_endpoint_def uncached_ops by (intro follows_lift follows_answer follows_map follows_write [OF y])
  obtain z where z: "writes (release_stock E i s) z" using writes_release by blast
  show "follows (release_stock_endpoint E i s) (release_stock_endpoint (uncached E) i s)"
    unfolding release_stock_endpoint_def uncached_ops by (intro follows_lift follows_answer follows_map follows_write [OF z])
qed

end

text \<open>FastAPI reads a page number from at most 4300 digits.\<close>

fun request_ok :: "catalog_request \<Rightarrow> bool" where
  "request_ok (ListProducts page sz keyword off role) = page_number_ok page"
| "request_ok _ = True"

context catalog_service
begin

lemma follows_serve: "request_ok rq \<Longrightarrow> follows (serve E rq) (serve (uncached E) rq)"
  by (cases rq) (auto intro!: follows_json follows_get_product follows_get_internal follows_list follows_writes)

lemma agree_elapse: "agree k rows n st \<Longrightarrow> 0 \<le> t \<Longrightarrow> agree k rows n (st\<lparr>ss_redis := elapse t (ss_redis st)\<rparr>)"
  by (auto simp: agree_def redis.elapse_view redis.elapse_steady coherent_purge [of E _ rows])

lemma cache_transparent:
  assumes "agree (length hist) rows n st" and "holds rows n st0" and "\<forall>(t, rq) \<in> set hist. 0 \<le> t \<and> request_ok rq"
  shows "fst (serve_all elapse E hist st) = fst (serve_all elapse (uncached E) hist st0) \<and>
     view (ss_db (snd (serve_all elapse E hist st))) = view (ss_db (snd (serve_all elapse (uncached E) hist st0)))"
  using assms
proof (induction hist arbitrary: rows n st st0)
  case (Cons h hist)
  obtain t rq where h: "h = (t, rq)" by fastforce
  let ?st = "st\<lparr>ss_redis := elapse t (ss_redis st)\<rparr>" and ?w = "st0\<lparr>ss_redis := elapse t (ss_redis st0)\<rparr>"
  have "agree (Suc (length hist)) rows n ?st" using Cons.prems(1,3) h agree_elapse by auto
  moreover have "holds rows n ?w" using Cons.prems(2) by (simp add: holds_def)
  moreover have "follows (serve E rq) (serve (uncached E) rq)" using Cons.prems(3) h by (auto intro: follows_serve)
  ultimately obtain r st' st0' rows' n' where r: "serve E rq ?st = (r, st')" "serve (uncached E) rq ?w = (r, st0')"
      "agree (length hist) rows' n' st'" "holds rows' n' st0'"
    unfolding follows_def by blast
  from Cons.IH [OF r(3,4)] Cons.prems(3)
  have "fst (serve_all elapse E hist st') = fst (serve_all elapse (uncached E) hist st0') \<and>
      view (ss_db (snd (serve_all elapse E hist st'))) = view (ss_db (snd (serve_all elapse (uncached E) hist st0')))" by simp
  then show ?case using r(1,2) h by (simp add: case_prod_unfold)
qed (simp add: agree_def holds_def)

end

text \<open>
  C6: As long as Redis and the database are reachable throughout, the cache is coherent at the
  start (an empty one is) and the version counter does not overflow, any sequence of catalogue
  reads and writes over time, CSV imports aside, gives the same answers and the same final
  product table as the service with Redis switched off: the versioned read-through cache shows
  no stale product.
\<close>

theorem catalogue_cache_is_transparent:
  assumes "coupon_redis E rview clock rup rsteady elapse" and "product_session E view up steady" and "pydantic_json (pe_pydantic E)"
    and "rsteady (ss_redis st)" and "coherent E (rview (ss_redis st)) rows"
    and "catalog_version (rview (ss_redis st)) + int (length hist) \<le> int64_max"
    and "steady (ss_db st)" and "view (ss_db st) = table_of rows n" and "product_table_ok (pe_text_eq E) rows"
    and "\<forall>(t, rq) \<in> set hist. 0 \<le> t \<and> request_ok rq"
  shows "fst (serve_all elapse E hist st) = fst (serve_all elapse (uncached E) hist st) \<and>
     view (ss_db (snd (serve_all elapse E hist st))) = view (ss_db (snd (serve_all elapse (uncached E) hist st)))"
proof -
  have srv: "catalog_service E rview clock rup rsteady elapse view up steady"
    by (intro catalog_service.intro assms(1-3))
  show ?thesis
    by (rule catalog_service.cache_transparent [OF srv, where rows = rows and n = n])
      (simp_all add: catalog_service.agree_def [OF srv] catalog_service.holds_def [OF srv] assms)
qed

interpretation ref_cs: catalog_service ref_product_env rr_keys rr_clock rr_up rr_steady rr_elapse rd_table rd_up rd_steady
  by (intro catalog_service.intro ref_cr.coupon_redis_axioms ref_ps.product_session_axioms)
    (simp add: ref_product_env_def ref_pd.pydantic_json_axioms)

definition ref_state :: "(ref_redis, product ref_db) service_state" where
  "ref_state = \<lparr>ss_redis = fresh_redis, ss_db = ref_product_db\<rparr>"

lemma fresh_coherent: "coherent E (rr_keys fresh_redis) rows" "catalog_version (rr_keys fresh_redis) = 0"
  by (simp_all add: fresh_redis_def coherent_def version_ok_def counter_ok_def catalog_version_def counter_level_def)

theorem catalogue_cache_witness:
  "let hist = [(0, GetProduct 1), (5, ReserveStock 1 2), (7, GetProduct 1)]
   in fst (serve_all rr_elapse ref_product_env hist ref_state) =
      fst (serve_all rr_elapse (uncached ref_product_env) hist ref_state) \<and>
      rd_table (ss_db (snd (serve_all rr_elapse ref_product_env hist ref_state))) =
      rd_table (ss_db (snd (serve_all rr_elapse (uncached ref_product_env) hist ref_state)))"
  unfolding Let_def
  by (rule catalogue_cache_is_transparent [OF ref_cr.coupon_redis_axioms ref_ps.product_session_axioms,
        where rows = "[keyboard]" and n = 2])
    (simp_all add: ref_state_def fresh_coupons fresh_coherent ref_product_facts, simp add: ref_product_env_def ref_pd.pydantic_json_axioms)

end
