(* ===== verification/Catalog_Races.thy ===== *)
theory Catalog_Races
  imports Catalog_Cache
begin

text \<open>
  Catalogue requests that run at the same time. A read is split into the steps of \<open>read_through\<close>
  (ask for the version, look into the cache, query the table, store the document) and a write into
  its commit and its \<open>bump_catalog_version\<close>; \<open>race_step\<close> lets the steps of any number of requests follow each
  other in any order, with time passing in between. A database session is one step: it reads
  one state of the table or takes effect at its commit. \<open>race_inv\<close> is the invariant: an
  entry under a version holds a document of a table that is not older than what was published
  when the version was made.
\<close>

section \<open>Requests in steps\<close>

text \<open>What a query reads in its database session, and what it makes of a cached document.\<close>

fun query_prog :: "('r, 'd) product_env \<Rightarrow> catalog_query \<Rightarrow> ('d, pyval) prog" where
  "query_prog E (QProduct i) =
     bind_prog (get_db (pe_db E) (get_product_or_404 E i)) (\<lambda>p. return_prog (product_dump p))"
| "query_prog E (QInternal i) =
     bind_prog (get_db (pe_db E) (bind_prog (get_product_or_404 E i) (\<lambda>p. return_prog (internal_response_of p))))
       (\<lambda>x. return_prog (internal_dump x))"
| "query_prog E (QList page sz keyword off) =
     bind_prog (get_db (pe_db E) (bind_prog (paginate_products E page sz keyword off) (\<lambda>(tot, items).
         return_prog \<lparr>pg_items = items, pg_page = page, pg_size = sz, pg_total = tot\<rparr>)))
       (\<lambda>x. return_prog (page_dump x))"

fun query_parse :: "('r, 'd) product_env \<Rightarrow> catalog_query \<Rightarrow> pyval \<Rightarrow> pyval res" where
  "query_parse E (QProduct i) doc = bind_res (product_of_json (pe_pydantic E) doc) (\<lambda>p. Inr (product_dump p))"
| "query_parse E (QInternal i) doc = bind_res (internal_of_json (pe_pydantic E) doc) (\<lambda>x. Inr (internal_dump x))"
| "query_parse E (QList page sz keyword off) doc = bind_res (page_of_json (pe_pydantic E) doc) (\<lambda>x. Inr (page_dump x))"

fun query_ok :: "catalog_query \<Rightarrow> bool" where
  "query_ok (QList page sz keyword off) = (page_number_ok page \<and> page_number_ok sz)"
| "query_ok _ = True"

datatype catalog_write =
    WCreate product_create_request
  | WUpdate int product_update_request
  | WStatus int int
  | WStock int int
  | WReserve int int
  | WRelease int int

definition forget :: "('s, 'a) prog \<Rightarrow> ('s, unit) prog" where
  "forget m = bind_prog m (\<lambda>_. return_prog ())"

fun write_prog :: "('r, 'd) product_env \<Rightarrow> catalog_write \<Rightarrow> ('d, unit) prog" where
  "write_prog E (WCreate payload) = forget (create_product E payload)"
| "write_prog E (WUpdate i payload) = forget (bind_prog (get_product_or_404 E i) (\<lambda>p. update_product E p payload))"
| "write_prog E (WStatus i s) = forget (bind_prog (get_product_or_404 E i) (\<lambda>p. update_product_status E p s))"
| "write_prog E (WStock i n) = forget (bind_prog (get_product_or_404 E i) (\<lambda>p. update_product_stock E p n))"
| "write_prog E (WReserve i q) = forget (reserve_stock E i q)"
| "write_prog E (WRelease i q) = forget (release_stock E i q)"

text \<open>
  Where a request stands: a read has yet to ask for the version, to look into the cache, to query
  the table, to store its document, or has its answer; a write has yet to commit or to raise
  the version, or is over. A read keeps the number of the newest table that was published when it
  began, and a write the number of the table it made; these numbers only serve the statements.
\<close>

datatype request_state =
    Idle
  | ReadVersion catalog_query nat
  | ReadCache catalog_query nat string
  | ReadTable catalog_query nat string
  | ReadStore catalog_query nat string pyval
  | ReadDone catalog_query nat "pyval res"
  | WriteTable catalog_write
  | WriteBump nat
  | WriteDone

record ('r, 'd) race_state =
  rc_service :: "('r, 'd) service_state"
  rc_history :: "product list list"
  rc_published :: nat
  rc_request :: "nat \<Rightarrow> request_state"

definition after_redis :: "'r \<Rightarrow> nat \<Rightarrow> request_state \<Rightarrow> ('r, 'd) race_state \<Rightarrow> ('r, 'd) race_state" where
  "after_redis r p x s =
     s\<lparr>rc_service := (rc_service s)\<lparr>ss_redis := r\<rparr>, rc_request := (rc_request s)(p := x)\<rparr>"

definition after_db :: "'d \<Rightarrow> nat \<Rightarrow> request_state \<Rightarrow> ('r, 'd) race_state \<Rightarrow> ('r, 'd) race_state" where
  "after_db d p x s =
     s\<lparr>rc_service := (rc_service s)\<lparr>ss_db := d\<rparr>, rc_request := (rc_request s)(p := x)\<rparr>"

text \<open>The next step of request \<open>p\<close>.\<close>

definition advance ::
  "('r, 'd) product_env \<Rightarrow> ('d \<Rightarrow> product table) \<Rightarrow> nat \<Rightarrow> ('r, 'd) race_state \<Rightarrow> ('r, 'd) race_state" where
  "advance E view p s =
     (let redis = ss_redis (rc_service s); db = ss_db (rc_service s)
      in case rc_request s p of
           ReadVersion q f \<Rightarrow>
             (case get_catalog_version E redis of
                (Inl e, r) \<Rightarrow> after_redis r p (ReadDone q f (Inl e)) s
              | (Inr v, r) \<Rightarrow> after_redis r p (ReadCache q f (query_key v q)) s)
         | ReadCache q f key \<Rightarrow>
             (case get_cached_json E key redis of
                (Inl e, r) \<Rightarrow> after_redis r p (ReadDone q f (Inl e)) s
              | (Inr (Some doc), r) \<Rightarrow>
                  after_redis r p (if truthy doc then ReadDone q f (query_parse E q doc) else ReadTable q f key) s
              | (Inr None, r) \<Rightarrow> after_redis r p (ReadTable q f key) s)
         | ReadTable q f key \<Rightarrow>
             (case query_prog E q db of
                (Inl e, d) \<Rightarrow> after_db d p (ReadDone q f (Inl e)) s
              | (Inr doc, d) \<Rightarrow> after_db d p (ReadStore q f key doc) s)
         | ReadStore q f key doc \<Rightarrow>
             (case set_cached_json E key doc None redis of
                (Inl e, r) \<Rightarrow> after_redis r p (ReadDone q f (Inl e)) s
              | (Inr _, r) \<Rightarrow> after_redis r p (ReadDone q f (Inr doc)) s)
         | WriteTable w \<Rightarrow>
             (case get_db (pe_db E) (write_prog E w) db of
                (Inl e, d) \<Rightarrow> after_db d p WriteDone s
              | (Inr _, d) \<Rightarrow>
                  (after_db d p (WriteBump (length (rc_history s))) s)
                    \<lparr>rc_history := rc_history s @ [tb_rows (view d)]\<rparr>)
         | WriteBump i \<Rightarrow>
             (case bump_catalog_version E redis of
                (_, r) \<Rightarrow> (after_redis r p WriteDone s)\<lparr>rc_published := max (rc_published s) i\<rparr>)
         | _ \<Rightarrow> s)"

inductive race_step ::
  "('r, 'd) product_env \<Rightarrow> ('d \<Rightarrow> product table) \<Rightarrow> (int \<Rightarrow> 'r \<Rightarrow> 'r) \<Rightarrow> ('r, 'd) race_state \<Rightarrow> ('r, 'd) race_state \<Rightarrow> bool"
  for E view elapse
where
  start_read: "rc_request s p = Idle \<Longrightarrow> query_ok q \<Longrightarrow>
     race_step E view elapse s (s\<lparr>rc_request := (rc_request s)(p := ReadVersion q (rc_published s))\<rparr>)"
| start_write: "rc_request s p = Idle \<Longrightarrow>
     race_step E view elapse s (s\<lparr>rc_request := (rc_request s)(p := WriteTable w)\<rparr>)"
| work: "race_step E view elapse s (advance E view p s)"
| wait: "0 \<le> t \<Longrightarrow>
     race_step E view elapse s (s\<lparr>rc_service := (rc_service s)\<lparr>ss_redis := elapse t (ss_redis (rc_service s))\<rparr>\<rparr>)"

inductive race_run ::
  "('r, 'd) product_env \<Rightarrow> ('d \<Rightarrow> product table) \<Rightarrow> (int \<Rightarrow> 'r \<Rightarrow> 'r) \<Rightarrow> nat \<Rightarrow> ('r, 'd) race_state \<Rightarrow> ('r, 'd) race_state \<Rightarrow> bool"
  for E view elapse
where
  run_0: "race_run E view elapse 0 s s"
| run_Suc: "race_run E view elapse n s s' \<Longrightarrow> race_step E view elapse s' s'' \<Longrightarrow> race_run E view elapse (Suc n) s s''"

definition race_start :: "('r, 'd) service_state \<Rightarrow> product list \<Rightarrow> ('r, 'd) race_state" where
  "race_start st rows = \<lparr>rc_service = st, rc_history = [rows], rc_published = 0, rc_request = (\<lambda>_. Idle)\<rparr>"

section \<open>Cache entries of all versions\<close>

text \<open>
  \<open>layered b fl\<close>: every entry under a version \<open>v\<close>, from \<open>b\<close> on, is the document of one of the tables
  of the history, none older than number \<open>fl v\<close>.
\<close>

definition layered :: "('r, 'd) product_env \<Rightarrow> int \<Rightarrow> (int \<Rightarrow> nat) \<Rightarrow> product list list \<Rightarrow> keyspace \<Rightarrow> bool" where
  "layered E b fl hist ks \<longleftrightarrow>
     version_ok ks \<and>
     (\<forall>q v e. ks (query_key v q) = Some e \<longrightarrow> b \<le> v \<longrightarrow> v \<le> catalog_version ks \<and>
        (\<exists>j doc. fl v \<le> j \<and> j < length hist \<and> query_doc E (hist ! j) q = Some doc \<and> fst e = RStr (json_text doc)))"

lemma layered_cong:
  assumes "layered E b fl hist ks" and "version_ok ks'" and "catalog_version ks' = catalog_version ks"
    and "\<And>v q e. ks' (query_key v q) = Some e \<Longrightarrow> ks (query_key v q) = Some e"
  shows "layered E b fl hist ks'"
  using assms unfolding layered_def by (metis (no_types, lifting))

lemma version_ok_purge:
  assumes "version_ok ks"
  shows "version_ok (purge t ks)" and "catalog_version (purge t ks) = catalog_version ks"
    and "purge t ks k = Some e \<Longrightarrow> ks k = Some e"
proof -
  have v: "purge t ks CATALOG_VERSION_KEY = ks CATALOG_VERSION_KEY"
  proof (cases "ks CATALOG_VERSION_KEY")
    case (Some e)
    then have "snd e = None" using assms by (simp add: version_ok_def)
    with Some show ?thesis by (cases e) (simp add: purge_def)
  qed (simp add: purge_def)
  then show "version_ok (purge t ks)" "catalog_version (purge t ks) = catalog_version ks"
    using assms by (simp_all add: version_ok_def counter_ok_def catalog_version_def counter_level_def)
  show "purge t ks k = Some e \<Longrightarrow> ks k = Some e"
    by (simp add: purge_def split: option.splits prod.splits if_splits)
qed

lemma version_ok_setnx:
  assumes "ks CATALOG_VERSION_KEY = None"
  shows "version_ok (ks(CATALOG_VERSION_KEY \<mapsto> (RStr ''0'', None)))"
    and "catalog_version (ks(CATALOG_VERSION_KEY \<mapsto> (RStr ''0'', None))) = catalog_version ks"
proof -
  have z: "redis_int ''0'' = Some 0" by code_simp
  then show "catalog_version (ks(CATALOG_VERSION_KEY \<mapsto> (RStr ''0'', None))) = catalog_version ks"
    using assms by (simp add: catalog_version_def counter_level_def)
  show "version_ok (ks(CATALOG_VERSION_KEY \<mapsto> (RStr ''0'', None)))"
    using z by (simp add: version_ok_def counter_ok_def)
qed

lemma layered_setnx:
  assumes "layered E b fl hist ks" and "ks CATALOG_VERSION_KEY = None"
  shows "layered E b fl hist (ks(CATALOG_VERSION_KEY \<mapsto> (RStr ''0'', None)))"
  by (rule layered_cong [OF assms(1) version_ok_setnx [where ks = ks, OF assms(2)]]) (simp add: query_key_others)

lemma layered_setex:
  assumes "layered E b fl hist ks" and "v \<le> catalog_version ks" and "fl v \<le> j" and "j < length hist"
    and "query_doc E (hist ! j) q = Some doc"
  shows "layered E b fl hist (snd (ks_setex (query_key v q) ttl (json_text doc) t ks))"
    and "catalog_version (snd (ks_setex (query_key v q) ttl (json_text doc) t ks)) = catalog_version ks"
proof -
  let ?ks = "snd (ks_setex (query_key v q) ttl (json_text doc) t ks)"
  have k: "?ks CATALOG_VERSION_KEY = ks CATALOG_VERSION_KEY" by (simp add: ks_setex_def query_key_others)
  then show c: "catalog_version ?ks = catalog_version ks" by (simp add: catalog_version_def counter_level_def)
  have "version_ok ?ks" using assms(1) k by (simp add: layered_def version_ok_def counter_ok_def)
  moreover have "w \<le> catalog_version ?ks \<and>
      (\<exists>j doc. fl w \<le> j \<and> j < length hist \<and> query_doc E (hist ! j) q' = Some doc \<and> fst e = RStr (json_text doc))"
    if e: "?ks (query_key w q') = Some e" and w: "b \<le> w" for w q' e
  proof (cases "query_key w q' = query_key v q \<and> e = (RStr (json_text doc), Some (t + ttl * second))")
    case True
    then have "w = v" "same_query q' q" using query_key_eq by metis+
    with True assms same_query_doc [of q' q E "hist ! j"] show ?thesis unfolding c by (metis fst_conv)
  next
    case False
    then have "ks (query_key w q') = Some e" using e by (auto simp: ks_setex_def split: if_splits)
    then show ?thesis using assms(1) w unfolding layered_def c by blast
  qed
  ultimately show "layered E b fl hist ?ks" unfolding layered_def by blast
qed

lemma layered_bump:
  assumes "layered E b fl hist ks" and "catalog_version ks < int64_max"
  shows "layered E b (fl(catalog_version ks + 1 := i)) hist (snd (ks_incr CATALOG_VERSION_KEY t ks))"
    and "catalog_version (snd (ks_incr CATALOG_VERSION_KEY t ks)) = catalog_version ks + 1"
proof -
  let ?ks = "snd (ks_incr CATALOG_VERSION_KEY t ks)"
  have ok: "counter_ok ks CATALOG_VERSION_KEY" using assms(1) by (simp add: layered_def version_ok_def)
  note i = ks_incr_counter [OF ok, where t = t] assms(2)
  show c: "catalog_version ?ks = catalog_version ks + 1"
    using i by (simp add: catalog_version_def)
  have "version_ok ?ks"
    using assms i by (auto simp: layered_def version_ok_def catalog_version_def ks_incr_def split: option.splits rvalue.splits)
  moreover have "?ks (query_key v q) = ks (query_key v q)" for v q
    using i by (simp add: catalog_version_def query_key_others)
  ultimately show "layered E b (fl(catalog_version ks + 1 := i)) hist ?ks"
    using assms(1) unfolding layered_def c by fastforce
qed

lemma layered_append: "layered E b fl hist ks \<Longrightarrow> layered E b fl (hist @ [rows]) ks"
  unfolding layered_def by (metis (no_types, lifting) length_append_singleton less_SucI nth_append)

lemma layered_coherent:
  assumes "coherent E ks rows"
  shows "layered E (catalog_version ks) (\<lambda>_. 0) [rows] ks"
proof -
  have "v = catalog_version ks" if "ks (query_key v q) = Some e" "catalog_version ks \<le> v" for q v e
    using assms that unfolding coherent_def by (metis option.distinct(1) order_le_imp_less_or_eq)
  then show ?thesis using assms unfolding coherent_def layered_def
    by (metis (no_types, lifting) bot_nat_0.extremum length_Cons less_Suc_eq_0_disj nth_Cons_0 order_refl)
qed

section \<open>The invariant\<close>

definition answers_from :: "('r, 'd) product_env \<Rightarrow> product list \<Rightarrow> catalog_query \<Rightarrow> pyval res \<Rightarrow> bool" where
  "answers_from E rows q res =
     (case res of Inr doc \<Rightarrow> query_doc E rows q = Some doc | Inl _ \<Rightarrow> query_doc E rows q = None)"

text \<open>What is known of a request: \<open>cv\<close> is the current version and \<open>pub\<close> the number of the published table.\<close>

fun request_inv ::
  "('r, 'd) product_env \<Rightarrow> int \<Rightarrow> (int \<Rightarrow> nat) \<Rightarrow> int \<Rightarrow> product list list \<Rightarrow> nat \<Rightarrow> request_state \<Rightarrow> bool" where
  "request_inv E b fl cv hist pub (ReadVersion q f) \<longleftrightarrow> query_ok q \<and> f \<le> pub"
| "request_inv E b fl cv hist pub (ReadCache q f key) \<longleftrightarrow>
     query_ok q \<and> (\<exists>v. key = query_key v q \<and> b \<le> v \<and> v \<le> cv \<and> f \<le> fl v)"
| "request_inv E b fl cv hist pub (ReadTable q f key) \<longleftrightarrow>
     query_ok q \<and> (\<exists>v. key = query_key v q \<and> b \<le> v \<and> v \<le> cv \<and> f \<le> fl v)"
| "request_inv E b fl cv hist pub (ReadStore q f key doc) \<longleftrightarrow>
     query_ok q \<and> (\<exists>v j. key = query_key v q \<and> b \<le> v \<and> v \<le> cv \<and> f \<le> fl v \<and> fl v \<le> j \<and> j < length hist \<and>
        query_doc E (hist ! j) q = Some doc)"
| "request_inv E b fl cv hist pub (ReadDone q f res) \<longleftrightarrow>
     (\<exists>j. f \<le> j \<and> j < length hist \<and> answers_from E (hist ! j) q res)"
| "request_inv E b fl cv hist pub (WriteBump i) \<longleftrightarrow> i < length hist"
| "request_inv E b fl cv hist pub _ \<longleftrightarrow> True"

lemma request_inv_mono:
  assumes "request_inv E b fl cv hist pub x" and "cv \<le> cv'" and "\<And>v. v \<le> cv \<Longrightarrow> fl' v = fl v" and "pub \<le> pub'"
  shows "request_inv E b fl' cv' (hist @ new) pub' x"
proof (cases x)
  case (ReadStore q f key doc)
  then obtain v j where "query_ok q" "key = query_key v q" "b \<le> v" "v \<le> cv" "f \<le> fl v" "fl v \<le> j" "j < length hist"
    "query_doc E (hist ! j) q = Some doc" using assms(1) by auto
  with assms(2,3) have "query_ok q \<and> key = query_key v q \<and> b \<le> v \<and> v \<le> cv' \<and> f \<le> fl' v \<and> fl' v \<le> j \<and>
    j < length (hist @ new) \<and> query_doc E ((hist @ new) ! j) q = Some doc" by (simp add: nth_append)
  with ReadStore show ?thesis by auto
next
  case (ReadDone q f res)
  then obtain j where "f \<le> j" "j < length hist" "answers_from E (hist ! j) q res" using assms(1) by auto
  then have "f \<le> j \<and> j < length (hist @ new) \<and> answers_from E ((hist @ new) ! j) q res" by (simp add: nth_append)
  with ReadDone show ?thesis by auto
next
  case (ReadCache q f key)
  with assms show ?thesis by fastforce
next
  case (ReadTable q f key)
  with assms show ?thesis by fastforce
qed (use assms in auto)

context catalog_service
begin

lemma query_answers:
  assumes "product_table_ok (pe_text_eq E) rows" and "query_ok q"
  shows "\<exists>res. reads (query_prog E q) rows n res \<and> answers_from E rows q res \<and>
     (\<forall>doc. res = Inr doc \<longrightarrow> json_ok doc \<and> truthy doc \<and> query_parse E q doc = Inr doc)"
proof (cases q)
  case (QProduct i)
  consider "filter (\<lambda>p. p_id p = i) rows = []" "reads (get_product_or_404 E i) rows n (Inl (http_error 404 ''Product not found''))"
    | p where "filter (\<lambda>p. p_id p = i) rows = [p]" "stored p" "reads (get_product_or_404 E i) rows n (Inr p)"
    using product_lookup [OF assms(1), of i n] by blast
  then show ?thesis
  proof cases
    case 1
    from reads_map [OF reads_get_db [OF 1(2)], of product_dump] 1(1) QProduct show ?thesis
      by (intro exI [of _ "Inl (http_error 404 ''Product not found'')"]) (simp add: answers_from_def)
  next
    case (2 p)
    from reads_map [OF reads_get_db [OF 2(3)], of product_dump] 2(1,2) QProduct show ?thesis
      by (intro exI [of _ "Inr (product_dump p)"]) (simp add: answers_from_def product_dump_ok pyd.product_round_trip)
  qed
next
  case (QInternal i)
  consider "filter (\<lambda>p. p_id p = i) rows = []" "reads (get_product_or_404 E i) rows n (Inl (http_error 404 ''Product not found''))"
    | p where "filter (\<lambda>p. p_id p = i) rows = [p]" "stored p" "reads (get_product_or_404 E i) rows n (Inr p)"
    using product_lookup [OF assms(1), of i n] by blast
  then show ?thesis
  proof cases
    case 1
    from reads_map [OF reads_get_db [OF reads_map [OF 1(2), of internal_response_of]], of internal_dump] 1(1) QInternal show ?thesis
      by (intro exI [of _ "Inl (http_error 404 ''Product not found'')"]) (simp add: answers_from_def)
  next
    case (2 p)
    from reads_map [OF reads_get_db [OF reads_map [OF 2(3), of internal_response_of]], of internal_dump] 2(1,2) QInternal show ?thesis
      by (intro exI [of _ "Inr (internal_dump (internal_response_of p))"])
        (simp add: answers_from_def internal_dump_ok pyd.internal_round_trip)
  qed
next
  case (QList page sz keyword off)
  let ?res = "page_of page sz keyword off rows"
  have "reads (query_prog E q) rows n (map_sum id page_dump ?res)"
    using reads_map [OF reads_get_db [OF reads_page [OF assms(1)]]] QList by simp
  moreover have "\<forall>x. ?res = Inr x \<longrightarrow> json_ok (page_dump x) \<and> page_of_json (pe_pydantic E) (page_dump x) = Inr x"
    using assms page_items_stored [OF assms(1)] table_length [OF assms(1)] QList
    by (auto simp: page_of_def page_dump_ok pyd.page_round_trip)
  ultimately show ?thesis
    using QList by (intro exI [of _ "map_sum id page_dump ?res"]) (auto simp: answers_from_def page_of_def)
qed

lemma document_facts:
  assumes "product_table_ok (pe_text_eq E) rows" and "query_ok q" and "query_doc E rows q = Some doc"
  shows "json_ok doc" and "truthy doc" and "query_parse E q doc = Inr doc"
proof -
  obtain res where res: "answers_from E rows q res" "\<forall>doc. res = Inr doc \<longrightarrow> json_ok doc \<and> truthy doc \<and> query_parse E q doc = Inr doc"
    using query_answers [OF assms(1,2), of 0] by blast
  then have "res = Inr doc" using assms(3) by (cases res) (simp_all add: answers_from_def)
  with res(2) show "json_ok doc" and "truthy doc" and "query_parse E q doc = Inr doc" by blast+
qed

lemma forget_writes: "writes m spec \<Longrightarrow> \<exists>spec'. writes (forget m) spec'"
proof -
  assume w: "writes m spec"
  then have "simulates steady view (forget m) (forget spec)"
    unfolding forget_def writes_def by (intro simulates_bind simulates_pure) auto
  moreover have "\<exists>r rows' n'. forget spec (table_of rows n) = (r, table_of rows' n') \<and> product_table_ok (pe_text_eq E) rows' \<and>
      (isl r \<longrightarrow> rows' = rows)" if ok: "product_table_ok (pe_text_eq E) rows" for rows n
  proof -
    obtain r rows' n' where "spec (table_of rows n) = (r, table_of rows' n')" "product_table_ok (pe_text_eq E) rows'" "isl r \<longrightarrow> rows' = rows"
      using w ok unfolding writes_def by blast
    then show ?thesis by (cases r) (auto simp: forget_def bind_prog_def)
  qed
  ultimately show ?thesis unfolding writes_def by blast
qed

lemma write_prog_writes: "\<exists>spec. writes (write_prog E w) spec"
proof (cases w)
  case (WUpdate i rq)
  have "\<exists>spec. writes (bind_prog (get_product_or_404 E i) (\<lambda>p. update_product E p rq)) spec"
    using writes_save unfolding update_product_def by fastforce
  then show ?thesis using WUpdate forget_writes by auto
next
  case (WStatus i n)
  have "\<exists>spec. writes (bind_prog (get_product_or_404 E i) (\<lambda>p. update_product_status E p n)) spec"
    using writes_save unfolding update_product_status_def by fastforce
  then show ?thesis using WStatus forget_writes by auto
next
  case (WStock i n)
  have "\<exists>spec. writes (bind_prog (get_product_or_404 E i) (\<lambda>p. update_product_stock E p n)) spec"
    using writes_save unfolding update_product_stock_def by fastforce
  then show ?thesis using WStock forget_writes by auto
qed (use writes_create writes_reserve writes_release forget_writes in \<open>fastforce+\<close>)

end

context catalog_service
begin

definition race_inv :: "int \<Rightarrow> nat \<Rightarrow> (int \<Rightarrow> nat) \<Rightarrow> ('r, 'd) race_state \<Rightarrow> bool" where
  "race_inv b k fl s \<longleftrightarrow>
     (let redis = ss_redis (rc_service s); cv = catalog_version (rview redis)
      in rsteady redis \<and> layered E b fl (rc_history s) (rview redis) \<and> b \<le> cv \<and> cv + int k \<le> int64_max \<and>
         fl cv = rc_published s \<and> (\<forall>v. b \<le> v \<longrightarrow> v \<le> cv \<longrightarrow> fl v \<le> rc_published s) \<and>
         (\<forall>p. request_inv E b fl cv (rc_history s) (rc_published s) (rc_request s p))) \<and>
     steady (ss_db (rc_service s)) \<and> rc_history s \<noteq> [] \<and> (\<exists>n. view (ss_db (rc_service s)) = table_of (last (rc_history s)) n) \<and>
     (\<forall>rows \<in> set (rc_history s). product_table_ok (pe_text_eq E) rows) \<and> rc_published s < length (rc_history s)"

abbreviation current :: "('r, 'd) race_state \<Rightarrow> int" where
  "current s \<equiv> catalog_version (rview (ss_redis (rc_service s)))"

text \<open>A step that leaves the version alone keeps the invariant when it keeps it of its own request.\<close>

lemma keep_redis:
  assumes "race_inv b (Suc k) fl s" and "rsteady r" and "layered E b fl (rc_history s) (rview r)"
    and "catalog_version (rview r) = current s"
    and "request_inv E b fl (current s) (rc_history s) (rc_published s) x"
  shows "race_inv b k fl (after_redis r p x s)"
  using assms by (simp add: race_inv_def Let_def after_redis_def)

lemma keep_db:
  assumes "race_inv b (Suc k) fl s" and "steady d" and "view d = table_of (last (rc_history s)) n"
    and "request_inv E b fl (current s) (rc_history s) (rc_published s) x"
  shows "race_inv b k fl (after_db d p x s)"
  using assms by (auto simp: race_inv_def Let_def after_db_def)

lemma race_inv_down: "race_inv b (Suc k) fl s \<Longrightarrow> race_inv b k fl s"
  by (simp add: race_inv_def Let_def)

lemma race_invD:
  assumes "race_inv b k fl s"
  shows "rsteady (ss_redis (rc_service s))" and "layered E b fl (rc_history s) (rview (ss_redis (rc_service s)))"
    and "request_inv E b fl (current s) (rc_history s) (rc_published s) (rc_request s p)"
    and "fl (current s) = rc_published s" and "b \<le> current s" and "current s + int k \<le> int64_max"
    and "b \<le> v \<Longrightarrow> v \<le> current s \<Longrightarrow> fl v \<le> rc_published s"
    and "rc_published s < length (rc_history s)" and "version_ok (rview (ss_redis (rc_service s)))"
    and "j < length (rc_history s) \<Longrightarrow> product_table_ok (pe_text_eq E) (rc_history s ! j)"
  using assms by (auto simp: race_inv_def Let_def layered_def)

lemma newest:
  assumes "race_inv b k fl s"
  obtains n where "view (ss_db (rc_service s)) = table_of (rc_history s ! (length (rc_history s) - 1)) n"
    and "steady (ss_db (rc_service s))" and "product_table_ok (pe_text_eq E) (rc_history s ! (length (rc_history s) - 1))"
    and "last (rc_history s) = rc_history s ! (length (rc_history s) - 1)"
  using assms by (auto simp: race_inv_def last_conv_nth)

lemma inv_version:
  assumes "race_inv b (Suc k) fl s" and "rc_request s p = ReadVersion q f"
  shows "race_inv b k fl (advance E view p s)"
proof -
  note i = race_invD [OF assms(1)]
  let ?r = "ss_redis (rc_service s)"
  obtain r where r: "get_catalog_version E ?r = (Inr (current s), r)" "rsteady r"
    "rview r = rview ?r \<or> rview ?r CATALOG_VERSION_KEY = None \<and> rview r = (rview ?r)(CATALOG_VERSION_KEY \<mapsto> (RStr ''0'', None))"
    using version_step [OF i(1,9)] .
  have "layered E b fl (rc_history s) (rview r)" "catalog_version (rview r) = current s"
    using r(3) layered_setnx [OF i(2)] version_ok_setnx [of "rview ?r"] i(2) by auto
  moreover have "request_inv E b fl (current s) (rc_history s) (rc_published s) (ReadCache q f (query_key (current s) q))"
    using i(3) [of p] i(4,5) assms(2) by auto
  ultimately show ?thesis
    using keep_redis [OF assms(1) r(2)] r(1) assms(2) by (simp add: advance_def)
qed

lemma cached_document:
  assumes "race_inv b k fl s" and "b \<le> v" and "query_ok q"
  shows "\<exists>r. rsteady r \<and> rview r = rview (ss_redis (rc_service s)) \<and>
     (get_cached_json E (query_key v q) (ss_redis (rc_service s)) = (Inr None, r) \<or>
      (\<exists>j doc. get_cached_json E (query_key v q) (ss_redis (rc_service s)) = (Inr (Some doc), r) \<and> fl v \<le> j \<and>
         j < length (rc_history s) \<and> query_doc E (rc_history s ! j) q = Some doc))"
proof -
  let ?r = "ss_redis (rc_service s)" and ?k = "query_key v q"
  note i = race_invD [OF assms(1)]
  have st: "rview (snd (get_cached_json E ?k ?r)) = rview ?r" "rsteady (snd (get_cached_json E ?k ?r))"
    using get_run [OF i(1), of ?k] by (simp_all add: get_cached_json_def case_prod_unfold)
  show ?thesis
  proof (cases "rview ?r ?k")
    case None
    have "fst (get_cached_json E ?k ?r) = Inr None"
      using get_run(1) [OF i(1), of ?k] None
      by (simp add: get_cached_json_def case_prod_unfold ks_get_def loads_value_def)
    then show ?thesis using st by (metis prod.collapse)
  next
    case (Some e)
    then obtain j doc where d: "fl v \<le> j" "j < length (rc_history s)" "query_doc E (rc_history s ! j) q = Some doc" "fst e = RStr (json_text doc)"
      using i(2) assms(2) unfolding layered_def by blast
    have "json_ok doc" using document_facts(1) [OF i(10) assms(3) d(3)] d(2) by simp
    moreover have "json_text doc \<noteq> []" using calculation json_text_head by (metis list.discI)
    ultimately have "fst (get_cached_json E ?k ?r) = Inr (Some doc)"
      using redis.get_cached_run [OF i(1), of doc ?k "snd e"] Some d(4) by (metis prod.collapse)
    then show ?thesis using st d by (metis prod.collapse)
  qed
qed

lemma inv_cache:
  assumes "race_inv b (Suc k) fl s" and "rc_request s p = ReadCache q f key"
  shows "race_inv b k fl (advance E view p s)"
proof -
  note i = race_invD [OF assms(1)]
  obtain v where v: "query_ok q" "key = query_key v q" "b \<le> v" "v \<le> current s" "f \<le> fl v"
    using i(3) [of p] assms(2) by auto
  obtain r where r: "rsteady r" "rview r = rview (ss_redis (rc_service s))"
    "get_cached_json E key (ss_redis (rc_service s)) = (Inr None, r) \<or>
      (\<exists>j doc. get_cached_json E key (ss_redis (rc_service s)) = (Inr (Some doc), r) \<and> fl v \<le> j \<and>
         j < length (rc_history s) \<and> query_doc E (rc_history s ! j) q = Some doc)"
    using cached_document [OF assms(1) v(3,1)] v(2) by blast
  note keep = keep_redis [OF assms(1) r(1), unfolded r(2), OF i(2) refl, of _ p]
  from r(3) show ?thesis
  proof
    assume "get_cached_json E key (ss_redis (rc_service s)) = (Inr None, r)"
    moreover have "race_inv b k fl (after_redis r p (ReadTable q f key) s)" using v by (intro keep) auto
    ultimately show ?thesis using assms(2) by (simp add: advance_def)
  next
    assume "\<exists>j doc. get_cached_json E key (ss_redis (rc_service s)) = (Inr (Some doc), r) \<and> fl v \<le> j \<and>
         j < length (rc_history s) \<and> query_doc E (rc_history s ! j) q = Some doc"
    then obtain j doc where j: "get_cached_json E key (ss_redis (rc_service s)) = (Inr (Some doc), r)" "fl v \<le> j"
      "j < length (rc_history s)" "query_doc E (rc_history s ! j) q = Some doc" by blast
    have "race_inv b k fl (after_redis r p (ReadDone q f (Inr doc)) s)"
      using v(5) j(2-4) by (intro keep) (auto simp: answers_from_def intro: order_trans)
    then show ?thesis
      using j(1) assms(2) document_facts(2,3) [OF i(10) v(1) j(4)] j(3) by (simp add: advance_def)
  qed
qed

end

context catalog_service
begin

lemma inv_table:
  assumes "race_inv b (Suc k) fl s" and "rc_request s p = ReadTable q f key"
  shows "race_inv b k fl (advance E view p s)"
proof -
  note i = race_invD [OF assms(1)]
  let ?h = "rc_history s" let ?j = "length ?h - 1"
  obtain v where v: "query_ok q" "key = query_key v q" "b \<le> v" "v \<le> current s" "f \<le> fl v"
    using i(3) [of p] assms(2) by auto
  have j: "fl v \<le> ?j" "?j < length ?h" using i(7) [OF v(3,4)] i(8) by simp_all
  obtain n where n: "view (ss_db (rc_service s)) = table_of (?h ! ?j) n" "steady (ss_db (rc_service s))"
      "product_table_ok (pe_text_eq E) (?h ! ?j)" "last ?h = ?h ! ?j"
    using newest [OF assms(1)] .
  obtain res where res: "reads (query_prog E q) (?h ! ?j) n res" "answers_from E (?h ! ?j) q res"
    using query_answers [OF n(3) v(1)] by blast
  obtain d where d: "query_prog E q (ss_db (rc_service s)) = (res, d)" "view d = table_of (last ?h) n" "steady d"
    using res(1) n unfolding reads_def by metis
  note keep = keep_db [OF assms(1) d(3,2), of _ p]
  show ?thesis
  proof (cases res)
    case (Inl e)
    have "race_inv b k fl (after_db d p (ReadDone q f (Inl e)) s)"
      using res(2) v(5) j Inl by (intro keep) (auto intro: order_trans)
    then show ?thesis using d(1) Inl assms(2) by (simp add: advance_def)
  next
    case (Inr doc)
    then have "query_doc E (?h ! ?j) q = Some doc" using res(2) by (simp add: answers_from_def)
    then have "race_inv b k fl (after_db d p (ReadStore q f key doc) s)"
      using v j by (intro keep) auto
    then show ?thesis using d(1) Inr assms(2) by (simp add: advance_def)
  qed
qed

lemma inv_store:
  assumes "race_inv b (Suc k) fl s" and "rc_request s p = ReadStore q f key doc"
  shows "race_inv b k fl (advance E view p s)"
proof -
  note i = race_invD [OF assms(1)]
  obtain v j where v: "query_ok q" "key = query_key v q" "b \<le> v" "v \<le> current s" "f \<le> fl v" "fl v \<le> j"
      "j < length (rc_history s)" "query_doc E (rc_history s ! j) q = Some doc"
    using i(3) [of p] assms(2) by auto
  have "json_ok doc" using document_facts(1) [OF i(10) v(1,8)] v(7) by simp
  then obtain l r where r: "set_cached_json E key doc None (ss_redis (rc_service s)) = (Inr (), r)" "rsteady r"
      "rview r = snd (ks_setex key l (json_text doc) (clock (ss_redis (rc_service s))) (rview (ss_redis (rc_service s))))"
    using store_step [OF i(1)] by metis
  have "race_inv b k fl (after_redis r p (ReadDone q f (Inr doc)) s)"
    by (rule keep_redis [OF assms(1) r(2)])
      (use layered_setex [OF i(2) v(4,6-8)] v r(3) in \<open>auto simp: answers_from_def intro: order_trans\<close>)
  then show ?thesis using r(1) assms(2) by (simp add: advance_def)
qed

lemma inv_write:
  assumes "race_inv b (Suc k) fl s" and "rc_request s p = WriteTable w"
  shows "race_inv b k fl (advance E view p s)"
proof -
  note i = race_invD [OF assms(1)]
  let ?h = "rc_history s"
  obtain n where n: "view (ss_db (rc_service s)) = table_of (last ?h) n" "steady (ss_db (rc_service s))"
      "product_table_ok (pe_text_eq E) (last ?h)"
    using newest [OF assms(1)] by metis
  obtain spec where "writes (write_prog E w) spec" using write_prog_writes by blast
  then obtain rows' r n' where r: "product_table_ok (pe_text_eq E) rows'" "isl r \<longrightarrow> rows' = last ?h"
      "\<forall>d. steady d \<longrightarrow> view d = table_of (last ?h) n \<longrightarrow>
         (\<exists>d'. get_db (pe_db E) (write_prog E w) d = (r, d') \<and> view d' = table_of rows' n' \<and> steady d')"
    using write_run [OF _ n(3)] by metis
  then obtain d where d: "get_db (pe_db E) (write_prog E w) (ss_db (rc_service s)) = (r, d)" "view d = table_of rows' n'" "steady d"
    using n by blast
  show ?thesis
  proof (cases r)
    case (Inl e)
    then have "race_inv b k fl (after_db d p WriteDone s)"
      using d r(2) by (intro keep_db [OF assms(1)]) auto
    then show ?thesis using d(1) Inl assms(2) by (simp add: advance_def)
  next
    case (Inr u)
    let ?s = "(after_db d p (WriteBump (length ?h)) s)\<lparr>rc_history := ?h @ [rows']\<rparr>"
    have adv: "advance E view p s = ?s" using d(1,2) Inr assms(2) by (simp add: advance_def)
    have "request_inv E b fl (current s) (?h @ [rows']) (rc_published s) (rc_request ?s p')" for p'
      using request_inv_mono [OF i(3) [of p'] order_refl, of fl "rc_published s" "[rows']"] by (simp add: after_db_def)
    moreover have "layered E b fl (?h @ [rows']) (rview (ss_redis (rc_service s)))" using layered_append [OF i(2)] .
    ultimately show ?thesis
      unfolding adv using assms(1) d(2,3) r(1) by (auto simp: race_inv_def Let_def after_db_def)
  qed
qed

lemma inv_bump:
  assumes "race_inv b (Suc k) fl s" and "rc_request s p = WriteBump m"
  shows "\<exists>fl'. race_inv b k fl' (advance E view p s)"
proof -
  note i = race_invD [OF assms(1)]
  let ?pub = "max (rc_published s) m" and ?cv = "current s"
  let ?fl = "fl(?cv + 1 := ?pub)"
  have m: "m < length (rc_history s)" using i(3) [of p] assms(2) by simp
  obtain r where r: "bump_catalog_version E (ss_redis (rc_service s)) = (Inr (), r)" "rsteady r"
      "rview r = snd (ks_incr CATALOG_VERSION_KEY (clock (ss_redis (rc_service s))) (rview (ss_redis (rc_service s))))"
    using bump_step [OF i(1)] .
  have "?cv < int64_max" using i(6) by simp
  note bump = layered_bump(1) [OF i(2) this, of ?pub "clock (ss_redis (rc_service s))", folded r(3)]
    layered_bump(2) [OF i(2) this, of "clock (ss_redis (rc_service s))", folded r(3)]
  let ?s = "(after_redis r p WriteDone s)\<lparr>rc_published := ?pub\<rparr>"
  have adv: "advance E view p s = ?s" using r(1) assms(2) by (simp add: advance_def)
  have req: "request_inv E b ?fl (?cv + 1) (rc_history s) ?pub (rc_request ?s p')" for p'
    using request_inv_mono [OF i(3) [of p'], of "?cv + 1" ?fl ?pub "[]"] by (simp add: after_redis_def)
  have pubs: "?fl v \<le> ?pub" if "b \<le> v" "v \<le> ?cv + 1" for v
    using i(7) [OF that(1)] that(2) by (cases "v = ?cv + 1") auto
  have "rsteady r \<and> layered E b ?fl (rc_history s) (rview r) \<and> b \<le> ?cv + 1 \<and> ?cv + 1 + int k \<le> int64_max \<and>
      ?fl (?cv + 1) = ?pub \<and> ?pub < length (rc_history s)"
    using bump(1) r(2) i(5,6,8) m by simp
  then have "race_inv b k ?fl ?s"
    using assms(1) req pubs bump(2) by (simp add: race_inv_def Let_def after_redis_def)
  then show ?thesis using adv by auto
qed

lemma inv_step:
  assumes "race_step E view elapse s s'" and "race_inv b (Suc k) fl s"
  shows "\<exists>fl'. race_inv b k fl' s'"
  using assms(1)
proof cases
  case (start_read p q)
  then have "race_inv b k fl s'" using race_inv_down [OF assms(2)] by (simp add: race_inv_def Let_def)
  then show ?thesis by blast
next
  case (start_write p w)
  then have "race_inv b k fl s'" using race_inv_down [OF assms(2)] by (simp add: race_inv_def Let_def)
  then show ?thesis by blast
next
  case (work p)
  consider q f where "rc_request s p = ReadVersion q f" | q f key where "rc_request s p = ReadCache q f key"
    | q f key where "rc_request s p = ReadTable q f key" | q f key doc where "rc_request s p = ReadStore q f key doc"
    | w where "rc_request s p = WriteTable w" | m where "rc_request s p = WriteBump m"
    | "rc_request s p = Idle \<or> rc_request s p = WriteDone \<or> (\<exists>q f res. rc_request s p = ReadDone q f res)"
    by (cases "rc_request s p") auto
  then show ?thesis
  proof cases
    case 1
    from inv_version [OF assms(2) this] work show ?thesis by auto
  next
    case 2
    from inv_cache [OF assms(2) this] work show ?thesis by auto
  next
    case 3
    from inv_table [OF assms(2) this] work show ?thesis by auto
  next
    case 4
    from inv_store [OF assms(2) this] work show ?thesis by auto
  next
    case 5
    from inv_write [OF assms(2) this] work show ?thesis by auto
  next
    case 6
    from inv_bump [OF assms(2) this] work show ?thesis by simp
  next
    case 7
    then have "s' = s" using work by (auto simp: advance_def)
    then show ?thesis using race_inv_down [OF assms(2)] by blast
  qed
next
  case (wait t)
  note i = race_invD [OF assms(2)]
  have v: "rview (elapse t (ss_redis (rc_service s))) = purge (clock (ss_redis (rc_service s)) + t) (rview (ss_redis (rc_service s)))"
    using wait redis.elapse_view by blast
  note p = version_ok_purge [OF i(9), of "clock (ss_redis (rc_service s)) + t"]
  have "layered E b fl (rc_history s) (rview (elapse t (ss_redis (rc_service s))))"
    unfolding v by (rule layered_cong [OF i(2) p(1,2)]) (rule p(3))
  then have "race_inv b k fl s'"
    using race_inv_down [OF assms(2)] wait redis.elapse_steady v p(2) by (simp add: race_inv_def Let_def)
  then show ?thesis by blast
qed

lemma inv_start:
  assumes "rsteady (ss_redis st)" and "coherent E (rview (ss_redis st)) rows"
    and "catalog_version (rview (ss_redis st)) + int k \<le> int64_max" and "steady (ss_db st)"
    and "view (ss_db st) = table_of rows n" and "product_table_ok (pe_text_eq E) rows"
  shows "race_inv (catalog_version (rview (ss_redis st))) k (\<lambda>_. 0) (race_start st rows)"
  using assms layered_coherent [OF assms(2)] by (auto simp: race_inv_def Let_def race_start_def)

lemma inv_run:
  assumes "race_run E view elapse n s s'" and "race_inv b (n + k) fl s"
  shows "\<exists>fl'. race_inv b k fl' s'"
  using assms
proof (induction arbitrary: k rule: race_run.induct)
  case (run_Suc n s s' s'')
  have "race_inv b (n + Suc k) fl s" using run_Suc.prems by simp
  then obtain fl' where "race_inv b (Suc k) fl' s'" using run_Suc.IH by blast
  then show ?case using inv_step [OF run_Suc.hyps(2)] by blast
qed auto

end

text \<open>
  C9: Whatever order the steps of concurrent catalogue reads and writes take, a read answers
  from a state of the table at least as new as every write whose version bump was done when the
  read began.
\<close>

theorem reads_see_published_writes:
  assumes "coupon_redis E rview clock rup rsteady elapse" and "product_session E view up steady" and "pydantic_json (pe_pydantic E)"
    and "rsteady (ss_redis st)" and "coherent E (rview (ss_redis st)) rows"
    and "catalog_version (rview (ss_redis st)) + int n \<le> int64_max"
    and "steady (ss_db st)" and "view (ss_db st) = table_of rows m" and "product_table_ok (pe_text_eq E) rows"
    and "race_run E view elapse n (race_start st rows) s" and "rc_request s p = ReadDone q f res"
  shows "\<exists>j. f \<le> j \<and> j < length (rc_history s) \<and> answers_from E (rc_history s ! j) q res"
proof -
  have srv: "catalog_service E rview clock rup rsteady elapse view up steady"
    by (intro catalog_service.intro assms(1-3))
  note start = catalog_service.inv_start [OF srv assms(4-9)]
  obtain fl where "catalog_service.race_inv E rview rsteady view steady (catalog_version (rview (ss_redis st))) 0 fl s"
    using catalog_service.inv_run [OF srv assms(10), of _ 0] start by auto
  from catalog_service.race_invD(3) [OF srv this, of p] assms(11) show ?thesis by simp
qed

text \<open>The steps a read of \<open>q\<close> has left; no step of another request changes them.\<close>

fun read_steps_left :: "catalog_query \<Rightarrow> nat \<Rightarrow> request_state \<Rightarrow> nat option" where
  "read_steps_left q f (ReadVersion q' f') = (if q' = q \<and> f' = f then Some 4 else None)"
| "read_steps_left q f (ReadCache q' f' key) = (if q' = q \<and> f' = f then Some 3 else None)"
| "read_steps_left q f (ReadTable q' f' key) = (if q' = q \<and> f' = f then Some 2 else None)"
| "read_steps_left q f (ReadStore q' f' key doc) = (if q' = q \<and> f' = f then Some 1 else None)"
| "read_steps_left q f (ReadDone q' f' res) = (if q' = q \<and> f' = f then Some 0 else None)"
| "read_steps_left q f _ = None"

lemma advance_other: "p' \<noteq> p \<Longrightarrow> rc_request (advance E view p' s) p = rc_request s p"
  by (auto simp: advance_def Let_def after_redis_def after_db_def split: request_state.splits prod.splits sum.splits option.splits)

lemma advance_own:
  assumes "read_steps_left q f (rc_request s p) = Some n"
  shows "\<exists>m. read_steps_left q f (rc_request (advance E view p s) p) = Some m \<and> m \<le> n - 1"
proof (cases "rc_request s p")
  case (ReadCache q' f' key)
  obtain c r where c: "get_cached_json E key (ss_redis (rc_service s)) = (c, r)" by fastforce
  from c ReadCache assms show ?thesis
    by (cases c; cases "projr c") (auto simp: advance_def after_redis_def split: if_splits option.splits)
next
  case (ReadVersion q' f')
  with assms show ?thesis by (auto simp: advance_def Let_def after_redis_def split: if_splits prod.splits sum.splits)
next
  case (ReadTable q' f' key)
  with assms show ?thesis by (auto simp: advance_def Let_def after_db_def split: if_splits prod.splits sum.splits)
next
  case (ReadStore q' f' key doc)
  with assms show ?thesis by (auto simp: advance_def Let_def after_redis_def split: if_splits prod.splits sum.splits)
next
  case (ReadDone q' f' res)
  with assms show ?thesis by (auto simp: advance_def split: if_splits)
qed (use assms in auto)

lemma schedule_ends:
  assumes "read_steps_left q f (rc_request s p) = Some n"
  shows "\<exists>m. read_steps_left q f (rc_request (fold (advance E view) ps s) p) = Some m \<and> m \<le> n - count_list ps p"
  using assms
proof (induction ps arbitrary: s n)
  case (Cons p' ps)
  show ?case
  proof (cases "p' = p")
    case True
    from advance_own [OF Cons.prems] obtain m where m: "read_steps_left q f (rc_request (advance E view p s) p) = Some m" "m \<le> n - 1"
      by blast
    from Cons.IH [OF m(1)] m(2) True show ?thesis by fastforce
  next
    case False
    from Cons.IH [of "advance E view p' s" n] Cons.prems False advance_other [OF False, of E view s] show ?thesis by simp
  qed
qed simp

lemma schedule_runs: "race_run E view elapse n s0 s \<Longrightarrow> race_run E view elapse (n + length ps) s0 (fold (advance E view) ps s)"
proof (induction ps arbitrary: s n)
  case (Cons p ps)
  from Cons.IH [OF run_Suc [OF Cons.prems work]] show ?case by simp
qed simp

section \<open>A read on its own\<close>

text \<open>Without interference the four steps of a read are \<open>read_through\<close>, the body of the three endpoints.\<close>

lemma rc_after [simp]:
  "rc_service (after_redis r p x s) = (rc_service s)\<lparr>ss_redis := r\<rparr>" "rc_request (after_redis r p x s) p = x"
  "rc_service (after_db d p x s) = (rc_service s)\<lparr>ss_db := d\<rparr>" "rc_request (after_db d p x s) p = x"
  by (simp_all add: after_redis_def after_db_def)

lemma advance_done: "rc_request s p = ReadDone q f res \<Longrightarrow> advance E view p s = s"
  by (simp add: advance_def)

lemma table_and_store:
  assumes "query_prog E q = bind_prog compute (\<lambda>x. return_prog (dump x))" and "rc_request s p = ReadTable q f key"
    and "bind_prog (with_db compute) (\<lambda>payload. bind_prog (with_redis (set_cached_json E key (dump payload) None)) (\<lambda>_. return_prog payload))
      (rc_service s) = (res, st)"
  shows "rc_service (advance E view p (advance E view p s)) = st \<and>
     rc_request (advance E view p (advance E view p s)) p = ReadDone q f (map_sum id dump res)"
proof -
  obtain c d where c: "compute (ss_db (rc_service s)) = (c, d)" by fastforce
  show ?thesis
  proof (cases c)
    case (Inl e)
    then have "advance E view p s = after_db d p (ReadDone q f (Inl e)) s"
      using assms(1,2) c by (simp add: advance_def bind_prog_def)
    moreover have "res = Inl e" "st = (rc_service s)\<lparr>ss_db := d\<rparr>"
      using assms(3) c Inl by (simp_all add: bind_prog_def with_db_def)
    ultimately show ?thesis by (simp add: advance_done)
  next
    case (Inr x)
    then have a: "advance E view p s = after_db d p (ReadStore q f key (dump x)) s"
      using assms(1,2) c by (simp add: advance_def bind_prog_def)
    obtain u r where u: "set_cached_json E key (dump x) None (ss_redis (rc_service s)) = (u, r)" by fastforce
    then show ?thesis
      using assms(3) c Inr unfolding a
      by (cases u) (auto simp: advance_def bind_prog_def with_db_def with_redis_def)
  qed
qed

lemma read_alone:
  assumes "query_prog E q = bind_prog compute (\<lambda>x. return_prog (dump x))"
    and "\<And>doc. query_parse E q doc = bind_res (parse doc) (\<lambda>x. Inr (dump x))" and "rc_request s p = ReadVersion q f"
    and "read_through E (bind_prog (get_catalog_version E) (\<lambda>v. return_prog (query_key v q))) parse dump compute (rc_service s) = (res, st)"
  shows "rc_service (fold (advance E view) [p, p, p, p] s) = st \<and>
     rc_request (fold (advance E view) [p, p, p, p] s) p = ReadDone q f (map_sum id dump res)"
proof -
  obtain v r where v: "get_catalog_version E (ss_redis (rc_service s)) = (v, r)" by fastforce
  show ?thesis
  proof (cases v)
    case (Inl e)
    then have "advance E view p s = after_redis r p (ReadDone q f (Inl e)) s" using v assms(3) by (simp add: advance_def)
    then show ?thesis
      using assms(4) v Inl by (auto simp: advance_done read_through_def bind_prog_def with_redis_def)
  next
    case (Inr n)
    let ?k = "query_key n q" and ?s1 = "after_redis r p (ReadCache q f (query_key n q)) s"
    have a1: "advance E view p s = ?s1" using v Inr assms(3) by (simp add: advance_def)
    obtain c r2 where c: "get_cached_json E ?k r = (c, r2)" by fastforce
    let ?s2 = "advance E view p ?s1"
    have a2: "fold (advance E view) [p, p, p, p] s = advance E view p (advance E view p ?s2)" by (simp add: a1)
    have miss: ?thesis if m: "?s2 = after_redis r2 p (ReadTable q f ?k) ?s1"
      and "bind_prog (with_db compute) (\<lambda>payload. bind_prog (with_redis (set_cached_json E ?k (dump payload) None)) (\<lambda>_. return_prog payload))
        ((rc_service s)\<lparr>ss_redis := r2\<rparr>) = (res, st)"
    proof -
      have "rc_request ?s2 p = ReadTable q f ?k" "rc_service ?s2 = (rc_service s)\<lparr>ss_redis := r2\<rparr>" by (simp_all add: m)
      then show ?thesis using table_and_store [OF assms(1), of ?s2 p f ?k res st] that(2) a2 by simp
    qed
    show ?thesis
    proof (cases c)
      case (Inl e)
      then have "?s2 = after_redis r2 p (ReadDone q f (Inl e)) ?s1" using c by (simp add: advance_def)
      then show ?thesis
        using assms(4) v Inr Inl c unfolding a2 by (auto simp: advance_done read_through_def bind_prog_def with_redis_def)
    next
      case hit: (Inr cached)
      show ?thesis
      proof (cases "\<exists>doc. cached = Some doc \<and> truthy doc")
        case True
        then obtain doc where doc: "cached = Some doc" "truthy doc" by blast
        then have "?s2 = after_redis r2 p (ReadDone q f (query_parse E q doc)) ?s1" using c hit by (simp add: advance_def)
        moreover have "res = parse doc" "st = (rc_service s)\<lparr>ss_redis := r2\<rparr>"
          using assms(4) v Inr hit doc c by (auto simp: read_through_def bind_prog_def with_redis_def)
        ultimately show ?thesis unfolding a2 by (cases "parse doc") (simp_all add: advance_done assms(2))
      next
        case False
        then have "?s2 = after_redis r2 p (ReadTable q f ?k) ?s1"
          using c hit by (cases cached) (simp_all add: advance_def)
        moreover have "read_through E (bind_prog (get_catalog_version E) (\<lambda>v. return_prog (query_key v q))) parse dump compute (rc_service s) =
          bind_prog (with_db compute) (\<lambda>payload. bind_prog (with_redis (set_cached_json E ?k (dump payload) None)) (\<lambda>_. return_prog payload))
            ((rc_service s)\<lparr>ss_redis := r2\<rparr>)"
          using v Inr hit False c
          by (cases cached) (simp_all add: read_through_def bind_prog_def [of "with_redis _"] with_redis_def [abs_def] bind_prog_def [of "get_catalog_version E"])
        ultimately show ?thesis using miss assms(4) by simp
      qed
    qed
  qed
qed

text \<open>The three endpoints as programs that give their document.\<close>

fun query_endpoint :: "('r, 'd) product_env \<Rightarrow> catalog_query \<Rightarrow> (('r, 'd) service_state, pyval) prog" where
  "query_endpoint E (QProduct i) = bind_prog (get_product E i) (\<lambda>r. return_prog (json_opt product_dump (ar_data r)))"
| "query_endpoint E (QInternal i) = bind_prog (get_internal_product E i) (\<lambda>r. return_prog (json_opt internal_dump (ar_data r)))"
| "query_endpoint E (QList page sz keyword off) =
     bind_prog (list_products E page sz keyword off (Some ''ADMIN'')) (\<lambda>r. return_prog (json_opt page_dump (ar_data r)))"

fun query_valid :: "catalog_query \<Rightarrow> bool" where
  "query_valid (QList page sz keyword off) = (1 \<le> page \<and> 1 \<le> sz \<and> sz \<le> 100)"
| "query_valid _ = True"

lemma lift_res_Inr: "bind_prog (lift_res (Inr x)) f = f x"
  by (rule ext) (simp add: bind_prog_def lift_res_def)

lemma answer_document:
  "bind_prog (answer E m) (\<lambda>r. return_prog (json_opt dump (ar_data r))) st = (map_sum id dump (fst (m st)), snd (m st))"
  by (cases "m st"; cases "fst (m st)") (auto simp: answer_def bind_prog_def api_data_def json_opt_def)

theorem read_steps_are_the_endpoint:
  assumes "rc_request s p = ReadVersion q f" and "query_valid q"
  shows "\<exists>res. rc_request (fold (advance E view) [p, p, p, p] s) p = ReadDone q f res \<and>
     query_endpoint E q (rc_service s) = (res, rc_service (fold (advance E view) [p, p, p, p] s))"
proof (cases q)
  case (QProduct i)
  obtain res st where run: "read_through E (bind_prog (get_catalog_version E) (\<lambda>v. return_prog (query_key v q)))
      (product_of_json (pe_pydantic E)) product_dump (get_db (pe_db E) (get_product_or_404 E i)) (rc_service s) = (res, st)" by fastforce
  from read_alone [OF _ _ assms(1) run] run show ?thesis
    by (simp add: QProduct get_product_def answer_document make_product_detail_cache_key_def)
next
  case (QInternal i)
  obtain res st where run: "read_through E (bind_prog (get_catalog_version E) (\<lambda>v. return_prog (query_key v q)))
      (internal_of_json (pe_pydantic E)) internal_dump
      (get_db (pe_db E) (bind_prog (get_product_or_404 E i) (\<lambda>p. return_prog (internal_response_of p)))) (rc_service s) = (res, st)"
    by fastforce
  from read_alone [OF _ _ assms(1) run] run show ?thesis
    by (simp add: QInternal get_internal_product_def answer_document make_product_detail_cache_key_def)
next
  case (QList page sz keyword off)
  obtain res st where run: "read_through E (bind_prog (get_catalog_version E) (\<lambda>v. return_prog (query_key v q)))
      (page_of_json (pe_pydantic E)) page_dump
      (get_db (pe_db E) (bind_prog (paginate_products E page sz keyword off) (\<lambda>(tot, items).
         return_prog \<lparr>pg_items = items, pg_page = page, pg_size = sz, pg_total = tot\<rparr>))) (rc_service s) = (res, st)"
    by fastforce
  from read_alone [OF _ _ assms(1) run] run assms(2) show ?thesis
    by (simp add: QList list_products_def answer_document make_product_list_cache_key_def lift_res_Inr ensure_def)
qed

section \<open>Witnesses\<close>

text \<open>A read of the keyboard and a reservation in between its steps.\<close>

definition ref_race :: "(ref_redis, product ref_db) race_state" where
  "ref_race = (race_start ref_state [keyboard])
     \<lparr>rc_request := (\<lambda>_. Idle)(0 := ReadVersion (QProduct 1) 0, 1 := WriteTable (WReserve 1 2))\<rparr>"

lemma ref_race_runs: "race_run ref_product_env rd_table rr_elapse 2 (race_start ref_state [keyboard]) ref_race"
proof -
  let ?s = "race_start ref_state [keyboard]"
  let ?s1 = "?s\<lparr>rc_request := (rc_request ?s)(0 := ReadVersion (QProduct 1) (rc_published ?s))\<rparr>"
  have 1: "race_step ref_product_env rd_table rr_elapse ?s ?s1"
    by (rule start_read) (simp_all add: race_start_def)
  have 2: "race_step ref_product_env rd_table rr_elapse ?s1 (?s1\<lparr>rc_request := (rc_request ?s1)(1 := WriteTable (WReserve 1 2))\<rparr>)"
    by (rule start_write) (simp add: race_start_def)
  from run_Suc [OF run_Suc [OF run_0 1] 2] show ?thesis
    by (simp add: ref_race_def race_start_def numeral_2_eq_2)
qed

theorem reads_see_published_writes_witness:
  "\<exists>s res j. race_run ref_product_env rd_table rr_elapse 8 (race_start ref_state [keyboard]) s \<and>
     rc_request s 0 = ReadDone (QProduct 1) 0 res \<and> j < length (rc_history s) \<and>
     answers_from ref_product_env (rc_history s ! j) (QProduct 1) res"
proof -
  let ?s = "fold (advance ref_product_env rd_table) [0, 1, 0, 1, 0, 0] ref_race"
  have run: "race_run ref_product_env rd_table rr_elapse 8 (race_start ref_state [keyboard]) ?s"
    using schedule_runs [OF ref_race_runs, of "[0, 1, 0, 1, 0, 0]"] by (simp only: list.size One_nat_def) simp
  have "read_steps_left (QProduct 1) 0 (rc_request ref_race 0) = Some 4" by (simp add: ref_race_def)
  from schedule_ends [OF this, of ref_product_env rd_table "[0, 1, 0, 1, 0, 0]"]
  obtain res where fin: "rc_request ?s 0 = ReadDone (QProduct 1) 0 res"
    by (cases "rc_request ?s 0") (auto split: if_splits)
  have st: "rr_steady (ss_redis ref_state)" "rd_steady (ss_db ref_state)" "rd_table (ss_db ref_state) = table_of [keyboard] 2"
    "product_table_ok (pe_text_eq ref_product_env) [keyboard]" "ss_redis ref_state = fresh_redis"
    by (simp_all add: ref_state_def fresh_coupons ref_product_facts)
  have "\<exists>j. 0 \<le> j \<and> j < length (rc_history ?s) \<and> answers_from ref_product_env (rc_history ?s ! j) (QProduct 1) res"
    by (rule reads_see_published_writes [OF ref_cr.coupon_redis_axioms ref_ps.product_session_axioms _ st(1) _ _ st(2-4) run fin])
      (simp_all add: st(5) fresh_coherent ref_product_env_def ref_pd.pydantic_json_axioms)
  with run fin show ?thesis by blast
qed

end
