(* ===== verification/Py_Csv.thy ===== *)
theory Py_Csv
  imports Py_Sha256 Py_Decimal
begin

text \<open>
  What the CSV import uses of the Python standard library: \<^verbatim>\<open>bytes.decode("utf-8-sig")\<close>, the lines
  of a \<^verbatim>\<open>StringIO\<close>, \<^verbatim>\<open>csv.reader\<close> with the default dialect (the state machine of the reader, as
  documented by its implementation), \<^verbatim>\<open>repr\<close> of a string, and the conversions \<^verbatim>\<open>Decimal(s)\<close> and
  \<^verbatim>\<open>int(s)\<close> with the texts of their errors.
\<close>

section \<open>UTF-8\<close>

definition utf8_cont :: "int \<Rightarrow> bool" where
  "utf8_cont b = (128 \<le> b \<and> b < 192)"

fun utf8_points :: "int list \<Rightarrow> int list option" where
  "utf8_points [] = Some []"
| "utf8_points (a # xs) =
     (if a < 128 then map_option ((#) a) (utf8_points xs)
      else if 194 \<le> a \<and> a < 224 then
        (case xs of
           b # ys \<Rightarrow>
             (if utf8_cont b then map_option ((#) ((a - 192) * 64 + (b - 128))) (utf8_points ys) else None)
         | _ \<Rightarrow> None)
      else if 224 \<le> a \<and> a < 240 then
        (case xs of
           b # c # ys \<Rightarrow>
             (let p = (a - 224) * 4096 + (b - 128) * 64 + (c - 128)
              in if utf8_cont b \<and> utf8_cont c \<and> 2048 \<le> p \<and> \<not> (55296 \<le> p \<and> p \<le> 57343)
                 then map_option ((#) p) (utf8_points ys) else None)
         | _ \<Rightarrow> None)
      else if 240 \<le> a \<and> a < 245 then
        (case xs of
           b # c # d # ys \<Rightarrow>
             (let p = (a - 240) * 262144 + (b - 128) * 4096 + (c - 128) * 64 + (d - 128)
              in if utf8_cont b \<and> utf8_cont c \<and> utf8_cont d \<and> 65536 \<le> p \<and> p \<le> 1114111
                 then map_option ((#) p) (utf8_points ys) else None)
         | _ \<Rightarrow> None)
      else None)"

definition utf8_sig_points :: "int list \<Rightarrow> int list option" where
  "utf8_sig_points raw = utf8_points (if take 3 raw = [239, 187, 191] then drop 3 raw else raw)"

text \<open>\<open>None\<close> when a code point is outside the range of the strings of this development.\<close>

definition string_of_points :: "int list \<Rightarrow> string option" where
  "string_of_points ps = (if list_all (\<lambda>p. p < 256) ps then Some (map char_of ps) else None)"

section \<open>The CSV reader\<close>

abbreviation newline_char :: char where "newline_char \<equiv> CHR 0x0A"
abbreviation return_char :: char where "return_char \<equiv> CHR 0x0D"
abbreviation dquote_char :: char where "dquote_char \<equiv> CHR 0x22"

fun py_lines :: "string \<Rightarrow> string list" where
  "py_lines [] = []"
| "py_lines (c # s) =
     (if c = newline_char then [c] # py_lines s
      else (case py_lines s of [] \<Rightarrow> [[c]] | l # ls \<Rightarrow> (c # l) # ls))"

datatype csv_state = StartRecord | StartField | InField | InQuotedField | QuoteInQuotedField | EatCrnl

record csv_parser =
  cp_state :: csv_state
  cp_field :: string
  cp_fields :: "string list"

definition csv_reset :: csv_parser where
  "csv_reset = \<lparr>cp_state = StartRecord, cp_field = [], cp_fields = []\<rparr>"

definition csv_field_limit :: int where
  "csv_field_limit = 131072"

definition csv_add_char :: "char \<Rightarrow> csv_state \<Rightarrow> csv_parser \<Rightarrow> csv_parser res" where
  "csv_add_char c st p =
     (if csv_field_limit \<le> int (length (cp_field p)) then Inl CsvError
      else Inr (p\<lparr>cp_field := cp_field p @ [c], cp_state := st\<rparr>))"

definition csv_save_field :: "csv_state \<Rightarrow> csv_parser \<Rightarrow> csv_parser" where
  "csv_save_field st p = p\<lparr>cp_fields := cp_fields p @ [cp_field p], cp_field := [], cp_state := st\<rparr>"

text \<open>A character of a line, or \<open>None\<close> for the end of the line.\<close>

definition is_crnl :: "char option \<Rightarrow> bool" where
  "is_crnl c = (c = None \<or> c = Some newline_char \<or> c = Some return_char)"

definition csv_end_state :: "char option \<Rightarrow> csv_state" where
  "csv_end_state c = (if c = None then StartRecord else EatCrnl)"

definition csv_start_field :: "char option \<Rightarrow> csv_parser \<Rightarrow> csv_parser res" where
  "csv_start_field c p =
     (if is_crnl c then Inr (csv_save_field (csv_end_state c) p)
      else if c = Some dquote_char then Inr (p\<lparr>cp_state := InQuotedField\<rparr>)
      else if c = Some CHR '','' then Inr (csv_save_field StartField p)
      else csv_add_char (the c) InField p)"

definition csv_in_field :: "char option \<Rightarrow> csv_parser \<Rightarrow> csv_parser res" where
  "csv_in_field c p =
     (if is_crnl c then Inr (csv_save_field (csv_end_state c) p)
      else if c = Some CHR '','' then Inr (csv_save_field StartField p)
      else csv_add_char (the c) InField p)"

definition csv_in_quoted :: "char option \<Rightarrow> csv_parser \<Rightarrow> csv_parser res" where
  "csv_in_quoted c p =
     (if c = None then Inr p
      else if c = Some dquote_char then Inr (p\<lparr>cp_state := QuoteInQuotedField\<rparr>)
      else csv_add_char (the c) InQuotedField p)"

definition csv_after_quote :: "char option \<Rightarrow> csv_parser \<Rightarrow> csv_parser res" where
  "csv_after_quote c p =
     (if c = Some dquote_char then csv_add_char dquote_char InQuotedField p
      else if c = Some CHR '','' then Inr (csv_save_field StartField p)
      else if is_crnl c then Inr (csv_save_field (csv_end_state c) p)
      else csv_add_char (the c) InField p)"

definition csv_process_char :: "char option \<Rightarrow> csv_parser \<Rightarrow> csv_parser res" where
  "csv_process_char c p =
     (case cp_state p of
        StartRecord \<Rightarrow>
          (if c = None then Inr p
           else if is_crnl c then Inr (p\<lparr>cp_state := EatCrnl\<rparr>)
           else csv_start_field c p)
      | StartField \<Rightarrow> csv_start_field c p
      | InField \<Rightarrow> csv_in_field c p
      | InQuotedField \<Rightarrow> csv_in_quoted c p
      | QuoteInQuotedField \<Rightarrow> csv_after_quote c p
      | EatCrnl \<Rightarrow>
          (if c = None then Inr (p\<lparr>cp_state := StartRecord\<rparr>)
           else if is_crnl c then Inr p
           else Inl CsvError))"

fun csv_process :: "char option list \<Rightarrow> csv_parser \<Rightarrow> csv_parser res" where
  "csv_process [] p = Inr p"
| "csv_process (c # cs) p = bind_res (csv_process_char c p) (csv_process cs)"

definition csv_line :: "string \<Rightarrow> csv_parser \<Rightarrow> csv_parser res" where
  "csv_line l = csv_process (map Some l @ [None])"

fun csv_read :: "string list \<Rightarrow> csv_parser \<Rightarrow> string list list res" where
  "csv_read [] p =
     (if cp_field p \<noteq> [] \<or> cp_state p = InQuotedField
      then Inr [cp_fields (csv_save_field StartRecord p)] else Inr [])"
| "csv_read (l # ls) p =
     bind_res (csv_line l p) (\<lambda>p'.
       if cp_state p' = StartRecord
       then bind_res (csv_read ls csv_reset) (\<lambda>rows. Inr (cp_fields p' # rows))
       else csv_read ls p')"

definition csv_reader :: "string \<Rightarrow> string list list res" where
  "csv_reader s = csv_read (py_lines s) csv_reset"

section \<open>Numbers and their errors\<close>

definition hex_digit :: "int \<Rightarrow> char" where
  "hex_digit n = (if n < 10 then char_of (48 + n) else char_of (87 + n))"

definition repr_char :: "char \<Rightarrow> char \<Rightarrow> string" where
  "repr_char quote c =
     (let n = (of_char c :: int)
      in if c = quote \<or> n = 92 then [CHR 0x5C, c]
         else if n = 9 then [CHR 0x5C, CHR ''t'']
         else if n = 10 then [CHR 0x5C, CHR ''n'']
         else if n = 13 then [CHR 0x5C, CHR ''r'']
         else if n < 32 \<or> (127 \<le> n \<and> n \<le> 160) \<or> n = 173
              then [CHR 0x5C, CHR ''x'', hex_digit (n div 16), hex_digit (n mod 16)]
         else [c])"

definition py_repr :: "string \<Rightarrow> string" where
  "py_repr s =
     (let quote = (if CHR 0x27 \<in> set s \<and> dquote_char \<notin> set s then dquote_char else CHR 0x27)
      in quote # concat (map (repr_char quote) s) @ [quote])"

text \<open>\<^verbatim>\<open>int(s)\<close>, with the message of its \<^verbatim>\<open>ValueError\<close>.\<close>

definition int_error_text :: "string \<Rightarrow> string" where
  "int_error_text s =
     (let digits = takeWhile (\<lambda>c. is_digit c \<or> c = CHR ''_'') (snd (split_sign (strip s)));
          ds = filter is_digit digits
      in if digits \<noteq> [] \<and> is_digit (hd digits) \<and> underscores_ok digits \<and> 4300 < length ds
         then ''Exceeds the limit (4300 digits) for integer string conversion: value has '' @
              int_str (int (length ds)) @ '' digits; use sys.set_int_max_str_digits() to increase the limit''
         else ''invalid literal for int() with base 10: '' @ take 200 (py_repr s))"

definition text_int :: "string \<Rightarrow> string + int" where
  "text_int s = (case int_of_str s of None \<Rightarrow> Inl (int_error_text s) | Some n \<Rightarrow> Inr n)"

text \<open>
  \<^verbatim>\<open>Decimal(s)\<close>: \<open>None\<close> is an \<^verbatim>\<open>InvalidOperation\<close>, \<open>Some None\<close> an infinity or a NaN. A number
  whose exponent is beyond the limits of the implementation is invalid as well.
\<close>

definition special_decimal :: "string \<Rightarrow> bool" where
  "special_decimal s =
     (let body = lower_str (snd (split_sign (filter (\<lambda>c. c \<noteq> CHR ''_'') (strip s))))
      in body = ''inf'' \<or> body = ''infinity'' \<or>
         (startswith body ''nan'' \<and> list_all is_digit (drop 3 body)) \<or>
         (startswith body ''snan'' \<and> list_all is_digit (drop 4 body)))"

definition dec_in_range :: "decimal \<Rightarrow> bool" where
  "dec_in_range d =
     (expo d + int (dec_digits (coeff d)) - 1 \<le> 999999999999999999 \<and> - 1999999999999999997 \<le> expo d)"

definition text_decimal :: "string \<Rightarrow> decimal option option" where
  "text_decimal s =
     (case dec_of_str s of
        Some d \<Rightarrow> (if dec_in_range d then Some (Some d) else None)
      | None \<Rightarrow> (if special_decimal s then Some None else None))"

definition decimal_error_text :: "string \<Rightarrow> string" where
  "decimal_error_text s =
     ''[<class '' @ CHR 0x27 # (if dec_of_str s = None then ''decimal.ConversionSyntax'' else ''decimal.InvalidOperation'') @
     CHR 0x27 # ''>]''"

end
