(* ===== verification/Csv_Import.thy ===== *)
theory Csv_Import
  imports Product_Routes Py_Csv Cache_Keys
begin

text \<open>
  The product service, sixth part: \<open>import_products_from_csv\<close> of \<^verbatim>\<open>services/product_service.py\<close>
  and its endpoint. A file is decoded and read in full first; rows that cannot be converted
  or validated, and rows whose product code is already in the catalogue, are reported; the
  others are inserted in one commit.

  The parameter \<open>errs\<close> is the list \<^verbatim>\<open>exc.errors()\<close> that pydantic gives for the values of a row
  that it refuses. The outcome is \<open>None\<close> for a file with characters beyond the range of the
  strings of this development.
\<close>

section \<open>Rows\<close>

definition expected_header :: "string list" where
  "expected_header = [''product_name'', ''product_code'', ''price'', ''stock'', ''category'', ''status'']"

text \<open>The values of \<^verbatim>\<open>row_dict\<close> after the conversions; a price of \<open>None\<close> is an infinity or a NaN.\<close>

record csv_fields =
  cf_product_name :: string
  cf_product_code :: string
  cf_price :: "decimal option"
  cf_stock :: int
  cf_category :: string
  cf_status :: int

definition row_error :: "int \<Rightarrow> string \<Rightarrow> pyval" where
  "row_error row_no reason = PDict [(''row_no'', PInt row_no), (''reason'', PStr reason)]"

definition convert_row :: "string list \<Rightarrow> string + csv_fields" where
  "convert_row row =
     (case text_decimal (row ! 2) of
        None \<Rightarrow> Inl (decimal_error_text (row ! 2))
      | Some price \<Rightarrow>
          (case text_int (row ! 3) of
             Inl e \<Rightarrow> Inl e
           | Inr stock \<Rightarrow>
               (case text_int (row ! 5) of
                  Inl e \<Rightarrow> Inl e
                | Inr status \<Rightarrow>
                    Inr \<lparr>cf_product_name = row ! 0, cf_product_code = row ! 1, cf_price = price, cf_stock = stock,
                         cf_category = row ! 4, cf_status = status\<rparr>)))"

text \<open>\<^verbatim>\<open>ProductCreateRequest.model_validate(row_dict)\<close>; \<open>None\<close> is a \<^verbatim>\<open>ValidationError\<close>.\<close>

definition validate_row :: "csv_fields \<Rightarrow> product_create_request option" where
  "validate_row f =
     (case cf_price f of
        None \<Rightarrow> None
      | Some price \<Rightarrow>
          (let req = \<lparr>cr_product_name = cf_product_name f, cr_product_code = cf_product_code f, cr_price = price,
                      cr_stock = cf_stock f, cr_category = Some (cf_category f), cr_status = cf_status f\<rparr>
           in if product_create_request_ok req then Some req else None))"

definition check_row :: "(csv_fields \<Rightarrow> pyval) \<Rightarrow> int \<Rightarrow> string list \<Rightarrow> pyval + product_create_request" where
  "check_row errs idx row =
     (let normalized_row = map strip row
      in if length normalized_row \<noteq> length expected_header
         then Inl (row_error idx (''Column count mismatch: expected '' @ int_str (int (length expected_header)) @
                                  '', got '' @ int_str (int (length normalized_row))))
         else
           (case convert_row normalized_row of
              Inl e \<Rightarrow> Inl (row_error idx (''Type conversion failed: '' @ e))
            | Inr f \<Rightarrow>
                (case validate_row f of
                   None \<Rightarrow>
                     Inl (PDict [(''row_no'', PInt idx), (''reason'', PStr ''Validation failed''), (''details'', errs f)])
                 | Some req \<Rightarrow> Inr req)))"

fun check_rows ::
  "(csv_fields \<Rightarrow> pyval) \<Rightarrow> int \<Rightarrow> string list list \<Rightarrow> pyval list \<times> (int \<times> product_create_request) list" where
  "check_rows errs idx [] = ([], [])"
| "check_rows errs idx (row # rows) =
     (case check_rows errs (idx + 1) rows of
        (row_errors, validated_rows) \<Rightarrow>
          (case check_row errs idx row of
             Inl e \<Rightarrow> (e # row_errors, validated_rows)
           | Inr req \<Rightarrow> (row_errors, (idx, req) # validated_rows)))"

section \<open>Files\<close>

definition csv_filename_ok :: "string option \<Rightarrow> unit res" where
  "csv_filename_ok filename =
     (if filename = None \<or> filename = Some [] then Inl (http_error 400 ''Filename is required'')
      else if \<not> endswith (lower_str (the filename)) ''.csv''
      then Inl (http_error 400 ''Only .csv file is supported for now'')
      else Inr ())"

definition csv_data_rows :: "string \<Rightarrow> string list list res" where
  "csv_data_rows s =
     bind_res (csv_reader s) (\<lambda>all_rows.
       (let rows = filter (\<lambda>row. \<exists>cell \<in> set row. strip cell \<noteq> []) all_rows
        in if rows = [] then Inl (http_error 400 ''CSV file contains no data'')
           else let header = map strip (hd rows)
                in if header \<noteq> expected_header
                   then Inl (HTTPException 400
                     (PDict [(''message'', PStr ''Invalid CSV Header''), (''expected'', PList (map PStr expected_header)),
                             (''actual'', PList (map PStr header))]))
                   else Inr (tl rows)))"

definition csv_rows_of_file :: "string option \<Rightarrow> int list \<Rightarrow> string list list res option" where
  "csv_rows_of_file filename raw =
     (case csv_filename_ok filename of
        Inl e \<Rightarrow> Some (Inl e)
      | Inr _ \<Rightarrow>
          (if raw = [] then Some (Inl (http_error 400 ''Uploaded file is empty''))
           else (case utf8_sig_points raw of
                   None \<Rightarrow> Some (Inl (http_error 400 ''CSV must be UTF-8-sig encoded''))
                 | Some ps \<Rightarrow> map_option csv_data_rows (string_of_points ps))))"

section \<open>The import\<close>

fun import_rows ::
  "('r, 'd) product_env \<Rightarrow> (int \<times> product_create_request) list \<Rightarrow> ('d, int \<times> pyval list) prog" where
  "import_rows E [] = return_prog (0, [])"
| "import_rows E ((row_no, item) # rest) =
     bind_prog (one_or_none (pe_db E) (\<lambda>p. pe_text_eq E (p_product_code p) (cr_product_code item))) (\<lambda>exists.
       (case exists of
          Some _ \<Rightarrow>
            bind_prog (import_rows E rest) (\<lambda>(imported_count, row_errors).
              return_prog (imported_count,
                row_error row_no (''Product with code '' @ CHR 0x27 # cr_product_code item @ CHR 0x27 # '' already exists'')
                  # row_errors))
        | None \<Rightarrow>
            bind_prog (sql_add (pe_db E) (new_product item)) (\<lambda>_.
            bind_prog (import_rows E rest) (\<lambda>(imported_count, row_errors).
              return_prog (imported_count + 1, row_errors)))))"

definition import_validated ::
  "('r, 'd) product_env \<Rightarrow> (int \<times> product_create_request) list \<Rightarrow> ('d, int \<times> pyval list) prog" where
  "import_validated E validated_rows =
     bind_prog (import_rows E validated_rows) (\<lambda>counts.
     bind_prog (sql_commit (pe_db E)) (\<lambda>_.
       return_prog counts))"

record import_result =
  imp_total :: int
  imp_imported :: int
  imp_updated :: int
  imp_failed :: int
  imp_success :: int
  imp_errors :: "pyval list"

definition import_result_of :: "int \<Rightarrow> int \<Rightarrow> pyval list \<Rightarrow> import_result" where
  "import_result_of total_rows imported_count row_errors =
     \<lparr>imp_total = total_rows, imp_imported = imported_count, imp_updated = 0, imp_failed = int (length row_errors),
      imp_success = total_rows - int (length row_errors), imp_errors = row_errors\<rparr>"

definition import_data_rows ::
  "('r, 'd) product_env \<Rightarrow> (csv_fields \<Rightarrow> pyval) \<Rightarrow> string list list \<Rightarrow> (('r, 'd) service_state, import_result) prog" where
  "import_data_rows E errs data_rows =
     (case check_rows errs 2 data_rows of
        (row_errors, validated_rows) \<Rightarrow>
          bind_prog (write_and_bump E (import_validated E validated_rows)) (\<lambda>(imported_count, more_errors).
            return_prog (import_result_of (int (length data_rows)) imported_count (row_errors @ more_errors))))"

definition import_products_from_csv ::
  "('r, 'd) product_env \<Rightarrow> (csv_fields \<Rightarrow> pyval) \<Rightarrow> string option \<Rightarrow> int list \<Rightarrow>
     (('r, 'd) service_state, import_result) prog option" where
  "import_products_from_csv E errs filename raw =
     map_option (\<lambda>rows. bind_prog (lift_res rows) (import_data_rows E errs)) (csv_rows_of_file filename raw)"

definition import_products_endpoint ::
  "('r, 'd) product_env \<Rightarrow> (csv_fields \<Rightarrow> pyval) \<Rightarrow> string option \<Rightarrow> int list \<Rightarrow> string option \<Rightarrow> string option \<Rightarrow>
     ('r, 'd, import_result) endpoint option" where
  "import_products_endpoint E errs filename raw x_user_role authorization =
     map_option (\<lambda>run. bind_prog (lift_res (require_admin E x_user_role authorization)) (\<lambda>_. answer E run))
       (import_products_from_csv E errs filename raw)"

section \<open>Rows of a file\<close>

lemma check_rows_length:
  "length (fst (check_rows errs idx rows)) + length (snd (check_rows errs idx rows)) = length rows"
  by (induction errs idx rows rule: check_rows.induct) (auto split: prod.splits sum.splits)

lemma check_row_ok: "check_row errs idx row = Inr req \<Longrightarrow> product_create_request_ok req"
  by (auto simp: check_row_def validate_row_def Let_def split: sum.splits option.splits if_splits)

lemma check_rows_ok: "(i, req) \<in> set (snd (check_rows errs idx rows)) \<Longrightarrow> product_create_request_ok req"
  by (induction errs idx rows rule: check_rows.induct) (auto split: prod.splits sum.splits dest: check_row_ok)

section \<open>The import on the table\<close>

fun inserted :: "int \<Rightarrow> product_create_request list \<Rightarrow> product list" where
  "inserted n [] = []"
| "inserted n (req # reqs) = product_coerce (new_product req n) # inserted (n + 1) reqs"

abbreviation insertions :: "product_create_request list \<Rightarrow> product pending list" where
  "insertions reqs \<equiv> map (\<lambda>req. PInsert (new_product req)) reqs"

lemma product_check_prefix: "product_check eq (xs @ ys) = None \<Longrightarrow> product_check eq xs = None"
proof -
  have "unique_by P (xs @ ys) \<Longrightarrow> unique_by P xs" for P :: "product \<Rightarrow> product \<Rightarrow> bool" and ys
    by (induction xs) auto
  then show "product_check eq (xs @ ys) = None \<Longrightarrow> product_check eq xs = None"
    by (auto simp: product_check_def split: if_splits)
qed

text \<open>A flush of insertions succeeds exactly when the resulting table keeps the schema.\<close>

lemma flush_insertions:
  assumes "tb_rows t = rows" and "tb_next t = n" and "product_check eq rows = None"
  shows "product_check eq (rows @ inserted n reqs) = None \<Longrightarrow>
      \<exists>keys. tb_flush (product_check eq) product_coerce (insertions reqs) t =
        (Inr keys, t\<lparr>tb_rows := rows @ inserted n reqs, tb_next := n + int (length reqs)\<rparr>)"
    and "product_check eq (rows @ inserted n reqs) \<noteq> None \<Longrightarrow>
      \<exists>e m rows'. tb_flush (product_check eq) product_coerce (insertions reqs) t = (Inl e, t\<lparr>tb_rows := rows', tb_next := m\<rparr>)"
  using assms
proof (induction reqs arbitrary: t rows n)
  case Nil
  { case 1
    then show ?case by (cases t) auto
  next
    case 2
    then show ?case by simp }
next
  case (Cons req reqs)
  { case (1 t rows n)
    let ?p = "product_coerce (new_product req n)"
    let ?t = "t\<lparr>tb_next := n + 1, tb_rows := rows @ [?p]\<rparr>"
    have "product_check eq ((rows @ [?p]) @ inserted (n + 1) reqs) = None" using 1 by simp
    then have ok: "product_check eq (rows @ [?p]) = None" by (rule product_check_prefix)
    then have "flush_insert (product_check eq) product_coerce (new_product req) t = (Inr n, ?t)"
      using 1 by (simp add: flush_insert_def checked_def)
    with Cons.IH(1) [of "rows @ [?p]" "n + 1" ?t] 1 ok show ?case
      by (auto simp: bind_prog_def algebra_simps)
  next
    case (2 t rows n)
    let ?p = "product_coerce (new_product req n)"
    let ?t = "t\<lparr>tb_next := n + 1, tb_rows := rows @ [?p]\<rparr>"
    show ?case
    proof (cases "product_check eq (rows @ [?p])")
      case None
      then have "flush_insert (product_check eq) product_coerce (new_product req) t = (Inr n, ?t)"
        using 2 by (simp add: flush_insert_def checked_def)
      moreover obtain e m rows' where "tb_flush (product_check eq) product_coerce (insertions reqs) ?t = (Inl e, t\<lparr>tb_rows := rows', tb_next := m\<rparr>)"
        using Cons.IH(2) [of "rows @ [?p]" "n + 1" ?t] 2 None by auto
      ultimately show ?thesis
        by (intro exI [of _ e] exI [of _ m] exI [of _ rows']) (simp add: bind_prog_def)
    next
      case (Some e)
      then have "flush_insert (product_check eq) product_coerce (new_product req) t = (Inl e, t\<lparr>tb_rows := rows, tb_next := n + 1\<rparr>)"
        using 2 by (cases t) (simp add: flush_insert_def checked_def)
      then show ?thesis by (auto simp: bind_prog_def)
    qed }
qed

definition code_taken :: "('r, 'd) product_env \<Rightarrow> product list \<Rightarrow> product_create_request \<Rightarrow> bool" where
  "code_taken E rows req = (\<exists>p \<in> set rows. pe_text_eq E (p_product_code p) (cr_product_code req))"

definition new_items ::
  "('r, 'd) product_env \<Rightarrow> product list \<Rightarrow> (int \<times> product_create_request) list \<Rightarrow> product_create_request list" where
  "new_items E rows items = map snd (filter (\<lambda>(i, req). \<not> code_taken E rows req) items)"

lemma import_rows_table:
  assumes "equivp (pe_text_eq E)" and "product_check (pe_text_eq E) rows = None"
  shows "\<exists>es. import_rows (products_on_table E) items ((table_of rows n)\<lparr>tb_pend := ps\<rparr>) =
      (Inr (int (length (new_items E rows items)), es), (table_of rows n)\<lparr>tb_pend := ps @ insertions (new_items E rows items)\<rparr>) \<and>
      length es + length (new_items E rows items) = length items"
proof (induction items arbitrary: ps)
  case Nil
  show ?case by (simp add: new_items_def)
next
  case (Cons it items)
  obtain i req where it: "it = (i, req)" by fastforce
  let ?eq = "pe_text_eq E"
  let ?same = "filter (\<lambda>p. ?eq (p_product_code p) (cr_product_code req)) rows"
  have u: "unique_by (\<lambda>a b. ?eq (p_product_code a) (p_product_code b)) rows"
    using assms(2) by (auto simp: product_check_def split: if_splits)
  have "symp ?eq" "transp ?eq" using assms(1) by (simp_all add: equivp_reflp_symp_transp)
  from at_most_one [OF unique_by_filter [OF u this]] consider "?same = []" | p where "?same = [p]" by blast
  then show ?case
  proof cases
    case 1
    then have "\<not> code_taken E rows req" by (auto simp: code_taken_def filter_empty_conv)
    with Cons.IH [of "ps @ [PInsert (new_product req)]"] 1 it show ?thesis
      by (auto simp: new_items_def bind_prog_def table_one_or_none)
  next
    case (2 p)
    then have "p \<in> set ?same" by simp
    then have "code_taken E rows req" by (auto simp: code_taken_def)
    with Cons.IH [of ps] 2 it show ?thesis
      by (auto simp: new_items_def bind_prog_def table_one_or_none)
  qed
qed

lemma import_validated_table:
  assumes "equivp (pe_text_eq E)" and "product_table_ok (pe_text_eq E) rows"
  shows "product_check (pe_text_eq E) (rows @ inserted n (new_items E rows items)) = None \<Longrightarrow>
      \<exists>es. import_validated (products_on_table E) items (table_of rows n) =
        (Inr (int (length (new_items E rows items)), es),
         table_of (rows @ inserted n (new_items E rows items)) (n + int (length (new_items E rows items)))) \<and>
        length es + length (new_items E rows items) = length items"
    and "product_check (pe_text_eq E) (rows @ inserted n (new_items E rows items)) \<noteq> None \<Longrightarrow>
      \<exists>e m. import_validated (products_on_table E) items (table_of rows n) = (Inl e, table_of rows m)"
proof -
  let ?new = "new_items E rows items"
  have chk: "product_check (pe_text_eq E) rows = None" using assms(2) by (simp add: product_table_ok_def)
  obtain es where r: "import_rows (products_on_table E) items (table_of rows n) =
      (Inr (int (length ?new), es), (table_of rows n)\<lparr>tb_pend := insertions ?new\<rparr>)" "length es + length ?new = length items"
    using import_rows_table [OF assms(1) chk, where items = items and n = n and ps = "[]"] by (auto simp: table_of_def)
  let ?t = "(table_of rows n)\<lparr>tb_pend := insertions ?new\<rparr>"
  note f = flush_insertions [of ?t rows n "pe_text_eq E" ?new, simplified, OF chk]
  show "\<exists>es. import_validated (products_on_table E) items (table_of rows n) =
        (Inr (int (length ?new), es), table_of (rows @ inserted n ?new) (n + int (length ?new))) \<and>
        length es + length ?new = length items"
    if "product_check (pe_text_eq E) (rows @ inserted n ?new) = None"
    using f(1) [OF that] r by (auto simp: import_validated_def bind_prog_def tb_commit_def table_of_def)
  show "\<exists>e m. import_validated (products_on_table E) items (table_of rows n) = (Inl e, table_of rows m)"
    if "product_check (pe_text_eq E) (rows @ inserted n ?new) \<noteq> None"
    using f(2) that r by (auto simp: import_validated_def bind_prog_def tb_commit_def tb_rollback_def table_of_def)
qed

context product_session
begin

lemma sim_import: "simulates steady view (import_rows E items) (import_rows T items)"
proof (induction items)
  case Nil
  show ?case unfolding import_rows.simps by (rule simulates_pure)
next
  case (Cons it items)
  obtain i req where it: "it = (i, req)" by fastforce
  show ?case
    unfolding it import_rows.simps products_on_table_simps
    by (rule simulates_bind [OF simulates_one_or_none])
      (auto split: option.split intro!: simulates_intros Cons)
qed

lemma sim_import_validated: "simulates steady view (import_validated E items) (import_validated T items)"
  unfolding import_validated_def products_on_table_simps by (intro simulates_bind sim_import simulates_intros)

lemma write_and_bump_run:
  assumes "simulates steady view m spec" and "steady (ss_db st)" and "view (ss_db st) = table_of rows n"
    and "spec (table_of rows n) = (r, table_of rows' n')"
  obtains st' where "write_and_bump E m st = (r, st')" and "view (ss_db st') = table_of rows' n'" and "steady (ss_db st')"
proof -
  obtain d where d: "get_db (pe_db E) m (ss_db st) = (r, d)" "view d = table_of rows' n'" "steady d"
  proof -
    obtain r1 d where g: "get_db (pe_db E) m (ss_db st) = (r1, d)" by fastforce
    have t: "get_db (table_sql (product_check (pe_text_eq E)) product_coerce) spec (table_of rows n) = (r, table_of rows' n')"
      by (simp add: get_db_def assms(4))
    from simulates_run [OF simulates_get_db [OF assms(1)] assms(2,3) t g] g show thesis by (auto intro: that)
  qed
  obtain s where "bump_catalog_version E (ss_redis st) = (Inr (), s)" by (simp add: bump_catalog_version_def)
  with d show thesis
    by (cases r) (auto intro!: that simp: write_and_bump_def bind_prog_def with_db_def with_redis_def)
qed

end

lemma import_runs:
  assumes "product_session E view up steady" and "equivp (pe_text_eq E)" and "steady (ss_db st)"
    and "view (ss_db st) = table_of rows n" and "product_table_ok (pe_text_eq E) rows"
    and "import_data_rows E errs data_rows st = (r, st')"
    and new: "new_items E rows (snd (check_rows errs 2 data_rows)) = new"
  shows "product_check (pe_text_eq E) (rows @ inserted n new) = None \<Longrightarrow>
      view (ss_db st') = table_of (rows @ inserted n new) (n + int (length new)) \<and>
      (\<exists>es. length es + length new = length data_rows \<and> r = Inr (import_result_of (int (length data_rows)) (int (length new)) es))"
    and "product_check (pe_text_eq E) (rows @ inserted n new) \<noteq> None \<Longrightarrow>
      \<exists>e m. r = Inl e \<and> view (ss_db st') = table_of rows m"
proof -
  let ?items = "snd (check_rows errs 2 data_rows)" and ?es = "fst (check_rows errs 2 data_rows)"
  have len: "length ?es + length ?items = length data_rows" by (rule check_rows_length)
  have run: "import_data_rows E errs data_rows st =
      bind_prog (write_and_bump E (import_validated E ?items)) (\<lambda>(imported_count, more_errors).
        return_prog (import_result_of (int (length data_rows)) imported_count (?es @ more_errors))) st"
    by (simp add: import_data_rows_def case_prod_unfold)
  note w = product_session.write_and_bump_run [OF assms(1) product_session.sim_import_validated [OF assms(1)] assms(3,4)]
  note t = import_validated_table [OF assms(2,5), where n = n and items = ?items, unfolded new]
  show "view (ss_db st') = table_of (rows @ inserted n new) (n + int (length new)) \<and>
      (\<exists>es. length es + length new = length data_rows \<and> r = Inr (import_result_of (int (length data_rows)) (int (length new)) es))"
    if ok: "product_check (pe_text_eq E) (rows @ inserted n new) = None"
  proof -
    obtain es where es: "import_validated (products_on_table E) ?items (table_of rows n) =
        (Inr (int (length new), es), table_of (rows @ inserted n new) (n + int (length new)))" "length es + length new = length ?items"
      using t(1) [OF ok] by blast
    obtain st1 where "write_and_bump E (import_validated E ?items) st = (Inr (int (length new), es), st1)"
        "view (ss_db st1) = table_of (rows @ inserted n new) (n + int (length new))"
      using w [OF es(1)] by blast
    then show ?thesis using run assms(6) es(2) len by (auto simp: bind_prog_def intro!: exI [of _ "?es @ es"])
  qed
  show "\<exists>e m. r = Inl e \<and> view (ss_db st') = table_of rows m"
    if bad: "product_check (pe_text_eq E) (rows @ inserted n new) \<noteq> None"
  proof -
    obtain e m where em: "import_validated (products_on_table E) ?items (table_of rows n) = (Inl e, table_of rows m)"
      using t(2) [OF bad] by blast
    obtain st1 where "write_and_bump E (import_validated E ?items) st = (Inl e, st1)" "view (ss_db st1) = table_of rows m"
      using w [OF em] by blast
    then show ?thesis using run assms(6) by (auto simp: bind_prog_def)
  qed
qed

text \<open>
  C16: The CSV import adds exactly the valid rows whose code is not in the catalogue, in file
  order under consecutive keys, and its counts add up to the rows of the file; if the resulting
  table would break the schema, it fails and stores nothing.
\<close>

theorem import_outcome:
  assumes "product_session E view up steady" and "equivp (pe_text_eq E)" and "steady (ss_db st)"
    and "view (ss_db st) = table_of rows n" and "product_table_ok (pe_text_eq E) rows"
    and "import_data_rows E errs data_rows st = (r, st')"
    and "new = new_items E rows (snd (check_rows errs 2 data_rows))"
  shows "list_all product_create_request_ok new \<and>
     (if product_check (pe_text_eq E) (rows @ inserted n new) = None
      then view (ss_db st') = table_of (rows @ inserted n new) (n + int (length new)) \<and>
           (\<exists>res. r = Inr res \<and> imp_total res = int (length data_rows) \<and> imp_imported res = int (length new) \<and>
              imp_updated res = 0 \<and> imp_success res = imp_imported res \<and>
              imp_failed res = int (length (imp_errors res)) \<and> imp_imported res + imp_failed res = imp_total res)
      else (\<exists>e m. r = Inl e \<and> view (ss_db st') = table_of rows m))"
proof -
  have "list_all product_create_request_ok new"
    using check_rows_ok by (fastforce simp: assms(7) new_items_def list_all_iff)
  then show ?thesis
    using import_runs [OF assms(1-6) assms(7) [symmetric]] by (auto simp: import_result_of_def)
qed

section \<open>Duplicate product codes in a file\<close>

lemma check_rows_append:
  "check_rows errs idx (xs @ ys) =
     (fst (check_rows errs idx xs) @ fst (check_rows errs (idx + int (length xs)) ys),
      snd (check_rows errs idx xs) @ snd (check_rows errs (idx + int (length xs)) ys))"
  by (induction xs arbitrary: idx) (auto split: prod.splits sum.splits simp: algebra_simps)

lemma inserted_codes: "map p_product_code (inserted n reqs) = map cr_product_code reqs"
  by (induction reqs arbitrary: n) (simp_all add: new_product_def)

lemma unique_by_key: "unique_by (\<lambda>a b. eq (f a) (f b)) xs \<longleftrightarrow> unique_by eq (map f xs)"
  by (induction xs) (simp_all add: list_all_iff)

lemma unique_by_pair: "unique_by eq (xs @ a # ys @ b # zs) \<Longrightarrow> \<not> eq a b"
  by (induction xs) auto

text \<open>
  C35: A CSV file in which two valid rows carry the same new product code is not imported at
  all: the commit fails, the exception reaches the endpoint and no row of the file is stored.
\<close>

theorem duplicate_codes_fail_import:
  assumes "product_session E view up steady" and "equivp (pe_text_eq E)" and "steady (ss_db st)"
    and "view (ss_db st) = table_of rows n" and "product_table_ok (pe_text_eq E) rows"
    and "check_row errs (int (length xs) + 2) row = Inr req"
    and "check_row errs (int (length xs) + int (length ys) + 3) row' = Inr req'"
    and "pe_text_eq E (cr_product_code req) (cr_product_code req')" and "\<not> code_taken E rows req"
    and "import_data_rows E errs (xs @ row # ys @ row' # zs) st = (r, st')"
  shows "\<exists>e m. r = Inl e \<and> view (ss_db st') = table_of rows m"
proof -
  let ?items = "snd (check_rows errs 2 (xs @ row # ys @ row' # zs))"
  have eq: "transp (pe_text_eq E)" "symp (pe_text_eq E)" using assms(2) by (simp_all add: equivp_reflp_symp_transp)
  have "\<not> code_taken E rows req'"
    using assms(8,9) eq by (meson code_taken_def sympD transpD)
  moreover obtain A B C i j where "?items = A @ (i, req) # B @ (j, req') # C"
    using assms(6,7) by (auto simp: check_rows_append case_prod_unfold algebra_simps)
  ultimately obtain A' B' C' where "new_items E rows ?items = A' @ req # B' @ req' # C'"
    using assms(9) by (simp add: new_items_def)
  then have "map p_product_code (rows @ inserted n (new_items E rows ?items)) =
      (map p_product_code rows @ map cr_product_code A') @ cr_product_code req # map cr_product_code B' @
        cr_product_code req' # map cr_product_code C'"
    by (simp add: inserted_codes)
  then have "\<not> unique_by (pe_text_eq E) (map p_product_code (rows @ inserted n (new_items E rows ?items)))"
    using unique_by_pair assms(8) by metis
  then have "product_check (pe_text_eq E) (rows @ inserted n (new_items E rows ?items)) \<noteq> None"
    by (simp add: product_check_def unique_by_key)
  with import_runs(2) [OF assms(1-5,10) refl] show ?thesis by simp
qed

section \<open>Reading a quoted file\<close>

definition csv_quote :: "string \<Rightarrow> string" where
  "csv_quote cell = dquote_char # concat (map (\<lambda>c. if c = dquote_char then [c, c] else [c]) cell) @ [dquote_char]"

fun csv_write_row :: "string list \<Rightarrow> string" where
  "csv_write_row [] = [newline_char]"
| "csv_write_row [cell] = csv_quote cell @ [newline_char]"
| "csv_write_row (cell # cells) = csv_quote cell @ CHR '','' # csv_write_row cells"

text \<open>Reading the rest of a text from the middle of a line.\<close>

definition csv_lines_end :: "csv_parser \<Rightarrow> string \<Rightarrow> string list list res" where
  "csv_lines_end p s =
     bind_res (csv_process_char None p) (\<lambda>p'.
       if cp_state p' = StartRecord
       then bind_res (csv_read (py_lines s) csv_reset) (\<lambda>rows. Inr (cp_fields p' # rows))
       else csv_read (py_lines s) p')"

definition csv_rest :: "csv_parser \<Rightarrow> string \<Rightarrow> string list list res" where
  "csv_rest p s =
     (case py_lines s of
        [] \<Rightarrow> csv_lines_end p []
      | l # ls \<Rightarrow> csv_read (l # ls) p)"

lemma csv_line_Cons: "csv_line (c # l) p = bind_res (csv_process_char (Some c) p) (csv_line l)"
  by (simp add: csv_line_def)

lemma py_lines_Nil: "py_lines s = [] \<longleftrightarrow> s = []"
  by (cases s) (auto split: list.splits)

lemma csv_rest_step:
  "csv_rest p (c # s) =
     bind_res (csv_process_char (Some c) p) (\<lambda>p'. if c = newline_char then csv_lines_end p' s else csv_rest p' s)"
proof (cases "c = newline_char")
  case True
  then show ?thesis
    by (cases "csv_process_char (Some newline_char) p")
      (auto simp: csv_rest_def csv_line_def csv_lines_end_def bind_res_def split: sum.splits)
next
  case False
  show ?thesis
  proof (cases "py_lines s")
    case Nil
    then have "s = []" by (simp add: py_lines_Nil)
    with False show ?thesis
      by (cases "csv_process_char (Some c) p") (auto simp: csv_rest_def csv_line_def csv_lines_end_def bind_res_def split: sum.splits)
  next
    case (Cons l ls)
    with False show ?thesis
      by (cases "csv_process_char (Some c) p") (auto simp: csv_rest_def csv_line_Cons bind_res_def)
  qed
qed

lemma csv_read_rest: "s \<noteq> [] \<Longrightarrow> csv_read (py_lines s) p = csv_rest p s"
  by (cases "py_lines s") (auto simp: csv_rest_def py_lines_Nil)

text \<open>Inside quotes every character of the cell is taken as it is, over line ends too.\<close>

lemma csv_quoted_body:
  assumes "cp_state p = InQuotedField" and "int (length (cp_field p) + length cell) \<le> csv_field_limit"
  shows "csv_rest p (concat (map (\<lambda>c. if c = dquote_char then [c, c] else [c]) cell) @ dquote_char # s) =
     csv_rest (p\<lparr>cp_field := cp_field p @ cell, cp_state := QuoteInQuotedField\<rparr>) s"
  using assms
proof (induction cell arbitrary: p)
  case Nil
  then show ?case by (simp add: csv_rest_step csv_process_char_def csv_in_quoted_def)
next
  case (Cons c cell)
  let ?q = "p\<lparr>cp_field := cp_field p @ [c], cp_state := InQuotedField\<rparr>"
  let ?s = "concat (map (\<lambda>c. if c = dquote_char then [c, c] else [c]) cell) @ dquote_char # s"
  have lim: "\<not> csv_field_limit \<le> int (length (cp_field p))" using Cons.prems(2) by simp
  have IH: "csv_rest ?q ?s = csv_rest (?q\<lparr>cp_field := cp_field ?q @ cell, cp_state := QuoteInQuotedField\<rparr>) s"
    using Cons.IH [of ?q] Cons.prems(2) by simp
  consider "c = dquote_char" | "c = newline_char" | "c \<noteq> dquote_char" "c \<noteq> newline_char" by blast
  then show ?case
  proof cases
    case 1
    then show ?thesis using Cons.prems(1) lim IH
      by (simp add: csv_rest_step csv_process_char_def csv_in_quoted_def csv_after_quote_def csv_add_char_def)
  next
    case 2
    have "csv_lines_end ?q ?s = csv_rest ?q ?s"
      by (simp add: csv_lines_end_def csv_process_char_def csv_in_quoted_def csv_read_rest)
    with 2 show ?thesis using Cons.prems(1) lim IH
      by (simp add: csv_rest_step csv_process_char_def csv_in_quoted_def csv_add_char_def)
  next
    case 3
    then show ?thesis using Cons.prems(1) lim IH
      by (simp add: csv_rest_step csv_process_char_def csv_in_quoted_def csv_add_char_def)
  qed
qed

lemma csv_quoted_cell:
  assumes "cp_state p = StartRecord \<or> cp_state p = StartField" and "cp_field p = []"
    and "int (length cell) \<le> csv_field_limit"
  shows "csv_rest p (csv_quote cell @ s) = csv_rest (p\<lparr>cp_field := cell, cp_state := QuoteInQuotedField\<rparr>) s"
proof -
  have "csv_process_char (Some dquote_char) p = Inr (p\<lparr>cp_state := InQuotedField\<rparr>)"
    using assms(1) by (auto simp: csv_process_char_def csv_start_field_def is_crnl_def)
  then show ?thesis
    using csv_quoted_body [of "p\<lparr>cp_state := InQuotedField\<rparr>" cell s] assms(2,3)
    by (simp add: csv_quote_def csv_rest_step)
qed

definition cells_fit :: "string list \<Rightarrow> bool" where
  "cells_fit cells \<longleftrightarrow> cells \<noteq> [] \<and> (\<forall>c \<in> set cells. int (length c) \<le> csv_field_limit)"

lemma csv_read_row:
  assumes "cells_fit cells" and "cp_state p = StartRecord \<or> cp_state p = StartField" and "cp_field p = []"
  shows "csv_rest p (csv_write_row cells @ s) =
     bind_res (csv_read (py_lines s) csv_reset) (\<lambda>rows. Inr ((cp_fields p @ cells) # rows))"
  using assms
proof (induction cells arbitrary: p rule: csv_write_row.induct)
  case 1
  then show ?case by (simp add: cells_fit_def)
next
  case (2 cell)
  then show ?case
    by (simp add: cells_fit_def csv_quoted_cell csv_rest_step csv_process_char_def csv_after_quote_def is_crnl_def csv_end_state_def
        csv_save_field_def csv_lines_end_def)
next
  case (3 cell c cells)
  let ?q = "p\<lparr>cp_fields := cp_fields p @ [cell], cp_field := [], cp_state := StartField\<rparr>"
  have "csv_rest p (csv_quote cell @ CHR '','' # csv_write_row (c # cells) @ s) = csv_rest ?q (csv_write_row (c # cells) @ s)"
    using 3 by (simp add: cells_fit_def csv_quoted_cell csv_rest_step csv_process_char_def csv_after_quote_def csv_save_field_def
        is_crnl_def)
  with "3.IH" [of ?q] "3.prems" show ?case by (simp add: cells_fit_def)
qed

lemma csv_write_row_nonempty: "csv_write_row cells \<noteq> []"
  by (cases cells rule: csv_write_row.cases) (simp_all add: csv_quote_def)

lemma csv_round_trip:
  "\<forall>r \<in> set rows. cells_fit r \<Longrightarrow> csv_reader (concat (map csv_write_row rows)) = Inr rows"
proof (induction rows)
  case Nil
  show ?case by (simp add: csv_reader_def csv_reset_def)
next
  case (Cons r rows)
  have "csv_reader (csv_write_row r @ concat (map csv_write_row rows)) =
      bind_res (csv_reader (concat (map csv_write_row rows))) (\<lambda>rows. Inr (r # rows))"
    using csv_read_row [of r csv_reset "concat (map csv_write_row rows)"] Cons.prems csv_write_row_nonempty [of r]
    by (simp add: csv_reader_def csv_read_rest) (simp add: csv_reset_def)
  with Cons show ?case by simp
qed

lemma utf8_points_char: "utf8_points (utf8_char c @ xs) = map_option ((#) (of_char c)) (utf8_points xs)"
proof (cases "(of_char c :: int) < 128")
  case False
  let ?n = "of_char c :: int"
  have n: "128 \<le> ?n" "?n < 256" using False char_code [of c] by simp_all
  have "?n div 64 \<in> {2, 3}"
    using n zdiv_mono1 [of 128 ?n 64] byte_div(3) [of ?n] by auto
  moreover have "0 \<le> ?n mod 64" "?n mod 64 < 64" by simp_all
  moreover have "?n div 64 * 64 + ?n mod 64 = ?n" by simp
  ultimately show ?thesis using False by (auto simp: Let_def utf8_cont_def)
qed (simp add: Let_def)

lemma utf8_round_trip: "utf8_points (utf8_encode s) = Some (map of_char s)"
proof (induction s)
  case (Cons c s)
  have "utf8_encode (c # s) = utf8_char c @ utf8_encode s" by (simp add: utf8_encode_def)
  with Cons show ?case by (simp only: utf8_points_char) simp
qed (simp add: utf8_encode_def)

lemma utf8_sig_round_trip: "utf8_sig_points (utf8_encode s) = Some (map of_char s)"
proof -
  have "take 3 (utf8_encode s) \<noteq> [239, 187, 191]"
  proof (cases s)
    case (Cons c t)
    have "hd (utf8_char c) < 239" using char_code [of c] byte_div(3) [of "of_char c"] by (auto simp: Let_def)
    then show ?thesis using Cons by (auto simp: utf8_encode_def Let_def split: if_splits)
  qed (simp add: utf8_encode_def)
  then show ?thesis by (simp add: utf8_sig_points_def utf8_round_trip)
qed

lemma string_of_points_chars: "string_of_points (map of_char s) = Some s"
  using char_code by (simp add: string_of_points_def list_all_iff comp_def)

lemma strip_int_str: "strip (int_str i) = int_str i"
  by (rule strip_no_space) (auto dest!: int_str_chars, auto simp: is_space_def)

lemma strip_cents: "0 \<le> c \<Longrightarrow> strip (dec_str (Dec c (- 2))) = dec_str (Dec c (- 2))"
proof -
  assume "0 \<le> c"
  then obtain ip fp where "dec_str (Dec c (- 2)) = ip @ CHR ''.'' # fp" "list_all is_digit ip" "list_all is_digit fp"
    using dec_str_cents by blast
  moreover have "\<not> is_space (CHR ''.'')" by (simp add: is_space_def)
  ultimately show ?thesis by (intro strip_no_space) (auto simp: list_all_iff)
qed

lemma cents_length: "0 \<le> c \<Longrightarrow> length (dec_str (Dec c (- 2))) \<le> length (nat_str c) + 4"
  by (auto simp: dec_str_def Let_def)

section \<open>A file of requests\<close>

definition request_cells :: "product_create_request \<Rightarrow> string list" where
  "request_cells req =
     [cr_product_name req, cr_product_code req, dec_str (cr_price req), int_str (cr_stock req),
      keyword_text (cr_category req), int_str (cr_status req)]"

definition csv_file :: "product_create_request list \<Rightarrow> string" where
  "csv_file reqs = concat (map csv_write_row (expected_header # map request_cells reqs))"

definition exportable :: "product_create_request \<Rightarrow> bool" where
  "exportable req \<longleftrightarrow>
     product_create_request_ok req \<and> cr_category req \<noteq> None \<and> expo (cr_price req) = - 2 \<and> coeff (cr_price req) < 10 ^ 10 \<and>
     cr_stock req \<le> 2147483647 \<and> strip (cr_product_name req) = cr_product_name req \<and>
     strip (cr_product_code req) = cr_product_code req \<and> strip (keyword_text (cr_category req)) = keyword_text (cr_category req)"

lemma exportable_price:
  assumes "exportable req"
  obtains c where "cr_price req = Dec c (- 2)" and "0 < c" and "c < 10 ^ 10"
  using assms by (cases "cr_price req") (auto simp: exportable_def product_create_request_ok_def price_positive_def)

lemma small_int_str: "\<bar>i\<bar> \<le> 2147483647 \<Longrightarrow> length (int_str i) \<le> 11"
  using int_str_length [of i 9] by simp

lemma exportable_ints: "exportable req \<Longrightarrow> length (int_str (cr_stock req)) \<le> 11 \<and> length (int_str (cr_status req)) \<le> 11"
  by (intro conjI small_int_str) (auto simp: exportable_def product_create_request_ok_def)

lemma exportable_fit: "exportable req \<Longrightarrow> cells_fit (request_cells req)"
proof -
  assume e: "exportable req"
  then obtain c where c: "cr_price req = Dec c (- 2)" "0 < c" "c < 10 ^ 10" by (rule exportable_price)
  have "length (nat_str c) \<le> Suc 9" using c nat_str_length [of c 9] by simp
  then have "length (dec_str (cr_price req)) \<le> 14" using cents_length [of c] c by simp
  then show ?thesis using e exportable_ints [OF e]
    by (auto simp: cells_fit_def request_cells_def csv_field_limit_def exportable_def product_create_request_ok_def
        length_between_def keyword_text_def)
qed

lemma check_exported_row:
  assumes "exportable req"
  shows "check_row errs idx (request_cells req) = Inr req"
proof -
  obtain c where c: "cr_price req = Dec c (- 2)" "0 < c" "c < 10 ^ 10" using assms by (rule exportable_price)
  have "length (nat_str c) \<le> Suc 9" using c nat_str_length [of c 9] by simp
  then have "dec_in_range (Dec c (- 2))" using c by (simp add: dec_in_range_def dec_digits_def)
  then have d: "text_decimal (dec_str (Dec c (- 2))) = Some (Some (Dec c (- 2)))"
    using c dec_of_str_cents by (simp add: text_decimal_def)
  have i: "text_int (int_str (cr_stock req)) = Inr (cr_stock req)" "text_int (int_str (cr_status req)) = Inr (cr_status req)"
    using exportable_ints [OF assms] by (simp_all add: text_int_def int_of_str_int_str)
  have norm: "map strip (request_cells req) = request_cells req"
    using assms c strip_cents [of c] by (simp add: request_cells_def strip_int_str exportable_def)
  let ?f = "\<lparr>cf_product_name = cr_product_name req, cf_product_code = cr_product_code req, cf_price = Some (Dec c (- 2)),
      cf_stock = cr_stock req, cf_category = keyword_text (cr_category req), cf_status = cr_status req\<rparr>"
  have conv: "convert_row (request_cells req) = Inr ?f"
    using d i c by (simp add: convert_row_def request_cells_def eval_nat_numeral)
  have "validate_row ?f = Some req"
    using assms c by (cases req; cases "cr_category req")
      (auto simp: validate_row_def exportable_def keyword_text_def)
  moreover have "length (request_cells req) = length expected_header" by (simp add: request_cells_def expected_header_def)
  ultimately show ?thesis by (simp add: check_row_def norm conv Let_def)
qed

lemma check_exported_rows:
  "\<forall>req \<in> set reqs. exportable req \<Longrightarrow>
     fst (check_rows errs idx (map request_cells reqs)) = [] \<and> map snd (snd (check_rows errs idx (map request_cells reqs))) = reqs"
  by (induction reqs arbitrary: idx) (auto simp: check_exported_row case_prod_unfold)

lemma strip_header: "map strip expected_header = expected_header" "cells_fit expected_header"
  by (simp_all add: expected_header_def strip_def is_space_def cells_fit_def csv_field_limit_def)

lemma data_rows_exported:
  assumes "\<forall>req \<in> set reqs. exportable req"
  shows "csv_data_rows (csv_file reqs) = Inr (map request_cells reqs)"
proof -
  let ?rows = "expected_header # map request_cells reqs"
  have "csv_reader (csv_file reqs) = Inr ?rows"
    unfolding csv_file_def using assms strip_header(2) exportable_fit by (intro csv_round_trip) auto
  moreover have "filter (\<lambda>row. \<exists>cell \<in> set row. strip cell \<noteq> []) ?rows = ?rows"
  proof (subst filter_id_conv, intro ballI)
    fix row
    assume "row \<in> set ?rows"
    then consider "row = expected_header" | req where "req \<in> set reqs" "row = request_cells req" by auto
    then show "\<exists>cell \<in> set row. strip cell \<noteq> []"
    proof cases
      case 1
      then show ?thesis using strip_header(1) by (auto simp: expected_header_def)
    next
      case (2 req)
      then have "strip (cr_product_code req) = cr_product_code req" "cr_product_code req \<noteq> []"
        using assms by (auto simp: exportable_def product_create_request_ok_def length_between_def)
      then show ?thesis using 2 by (simp add: request_cells_def)
    qed
  qed
  ultimately show ?thesis by (simp add: csv_data_rows_def strip_header(1) Let_def)
qed

text \<open>
  C17: A UTF-8 CSV file written, with quoted cells, from valid product requests whose codes are
  new is imported without an error: the table gains exactly these products.
\<close>

theorem exported_file_is_imported:
  assumes "product_session E view up steady" and "equivp (pe_text_eq E)" and "steady (ss_db st)"
    and "view (ss_db st) = table_of rows n" and "product_table_ok (pe_text_eq E) rows"
    and "\<forall>req \<in> set reqs. exportable req \<and> \<not> code_taken E rows req"
    and "product_check (pe_text_eq E) (rows @ inserted n reqs) = None"
    and "endswith (lower_str filename) ''.csv''"
  shows "\<exists>run st'. import_products_from_csv E errs (Some filename) (utf8_encode (csv_file reqs)) = Some run \<and>
     run st = (Inr (import_result_of (int (length reqs)) (int (length reqs)) []), st') \<and>
     view (ss_db st') = table_of (rows @ inserted n reqs) (n + int (length reqs))"
proof -
  let ?data = "map request_cells reqs"
  have ex: "\<forall>req \<in> set reqs. exportable req" using assms(6) by blast
  have fn: "csv_filename_ok (Some filename) = Inr ()"
    using assms(8) by (auto simp: csv_filename_ok_def endswith_def lower_str_def)
  have "csv_file reqs \<noteq> []" by (simp add: csv_file_def csv_write_row_nonempty)
  then have ne: "utf8_encode (csv_file reqs) \<noteq> []"
    by (cases "csv_file reqs") (auto simp: utf8_encode_def Let_def)
  have fr: "csv_rows_of_file (Some filename) (utf8_encode (csv_file reqs)) = Some (Inr ?data)"
    using fn ne by (simp add: csv_rows_of_file_def utf8_sig_round_trip string_of_points_chars data_rows_exported [OF ex])
  obtain r st' where run: "import_data_rows E errs ?data st = (r, st')" by fastforce
  have "\<forall>it \<in> set (snd (check_rows errs 2 ?data)). \<not> code_taken E rows (snd it)"
    using check_exported_rows [OF ex, of errs 2] assms(6) by (metis imageI list.set_map)
  then have "filter (\<lambda>(i, req). \<not> code_taken E rows req) (snd (check_rows errs 2 ?data)) = snd (check_rows errs 2 ?data)"
    by (subst filter_id_conv) auto
  then have "new_items E rows (snd (check_rows errs 2 ?data)) = reqs"
    using check_exported_rows [OF ex, of errs 2] by (simp add: new_items_def)
  from import_runs(1) [OF assms(1-5) run this assms(7)]
  have "view (ss_db st') = table_of (rows @ inserted n reqs) (n + int (length reqs))"
    and "r = Inr (import_result_of (int (length reqs)) (int (length reqs)) [])"
    by auto
  then show ?thesis using fr run by (simp add: import_products_from_csv_def bind_prog_def)
qed

section \<open>Witnesses\<close>

definition shop_state :: "(ref_redis, product ref_db) service_state" where
  "shop_state = \<lparr>ss_redis = fresh_redis, ss_db = ref_product_db\<rparr>"

definition mouse_row :: "string list" where
  "mouse_row = [''Mouse'', '' P1002'', ''129.00'', ''7'', '''', ''1'']"

definition mouse_item :: product_create_request where
  "mouse_item = \<lparr>cr_product_name = ''Mouse'', cr_product_code = ''P1002'', cr_price = Dec 12900 (- 2), cr_stock = 7,
                 cr_category = Some [], cr_status = 1\<rparr>"

lemma check_mouse_row: "check_row errs i mouse_row = Inr mouse_item"
proof -
  have "strip '' P1002'' = ''P1002''" "strip ''129.00'' = ''129.00''" "strip ''Mouse'' = ''Mouse''" "strip ''7'' = ''7''"
      "strip ''1'' = ''1''" "strip [] = []"
    by code_simp+
  moreover have "text_decimal ''129.00'' = Some (Some (Dec 12900 (- 2)))" by code_simp
  moreover have "text_int ''7'' = Inr 7" "text_int ''1'' = Inr 1" by code_simp+
  ultimately show ?thesis
    by (simp add: check_row_def mouse_row_def expected_header_def convert_row_def validate_row_def mouse_item_def Let_def eval_nat_numeral
        product_create_request_ok_def length_between_def price_positive_def)
qed

lemma shop_facts: "rd_steady (ss_db shop_state)" "rd_table (ss_db shop_state) = table_of [keyboard] 2"
  "\<not> code_taken ref_product_env [keyboard] mouse_item" "exportable mouse_item"
  "product_check (=) ([keyboard] @ inserted 2 [mouse_item]) = None"
proof -
  show "exportable mouse_item"
    by (simp add: exportable_def mouse_item_def product_create_request_ok_def length_between_def price_positive_def keyword_text_def
        strip_def is_space_def)
  show "product_check (=) ([keyboard] @ inserted 2 [mouse_item]) = None"
    by (simp add: product_check_def product_columns_ok_def keyboard_def mouse_item_def product_coerce_def round_cents_def new_product_def)
qed (simp_all add: shop_state_def ref_product_facts code_taken_def keyboard_def mouse_item_def)

theorem import_outcome_witness:
  "\<exists>r st'. import_data_rows ref_product_env (\<lambda>_. PNone) [mouse_row, [''x'']] shop_state = (r, st') \<and>
     rd_table (ss_db st') = table_of ([keyboard] @ inserted 2 [mouse_item]) 3 \<and>
     (\<exists>res. r = Inr res \<and> imp_total res = 2 \<and> imp_imported res = 1 \<and> imp_failed res = 1)"
proof -
  let ?data = "[mouse_row, [''x'']]"
  obtain r st' where run: "import_data_rows ref_product_env (\<lambda>_. PNone) ?data shop_state = (r, st')" by fastforce
  have "check_row (\<lambda>_. PNone) 3 [''x''] = Inl (row_error 3 (''Column count mismatch: expected '' @ int_str 6 @ '', got '' @ int_str 1))"
    by (simp add: check_row_def expected_header_def)
  then have "[mouse_item] = new_items ref_product_env [keyboard] (snd (check_rows (\<lambda>_. PNone) 2 ?data))"
    using shop_facts(3) by (simp add: new_items_def check_mouse_row)
  from import_outcome [OF ref_ps.product_session_axioms _ shop_facts(1,2) _ run this] shop_facts(5) ref_product_facts run
  show ?thesis by auto
qed

theorem duplicate_codes_witness:
  "\<exists>e m st'. import_data_rows ref_product_env (\<lambda>_. PNone) [mouse_row, mouse_row] shop_state = (Inl e, st') \<and>
     rd_table (ss_db st') = table_of [keyboard] m"
proof -
  obtain r st' where run: "import_data_rows ref_product_env (\<lambda>_. PNone) ([] @ mouse_row # [] @ mouse_row # []) shop_state = (r, st')"
    by fastforce
  have "\<exists>e m. r = Inl e \<and> rd_table (ss_db st') = table_of [keyboard] m"
    by (rule duplicate_codes_fail_import [OF ref_ps.product_session_axioms _ shop_facts(1,2) _ _ _ _ shop_facts(3) run])
      (simp_all add: ref_product_facts check_mouse_row identity_equivp)
  then show ?thesis using run by auto
qed

theorem exported_file_witness:
  "\<exists>run st'. import_products_from_csv ref_product_env (\<lambda>_. PNone) (Some ''items.CSV'') (utf8_encode (csv_file [mouse_item])) = Some run \<and>
     run shop_state = (Inr (import_result_of 1 1 []), st') \<and>
     rd_table (ss_db st') = table_of ([keyboard] @ inserted 2 [mouse_item]) 3"
proof -
  have "endswith (lower_str ''items.CSV'') ''.csv''" by code_simp
  from exported_file_is_imported [OF ref_ps.product_session_axioms _ shop_facts(1,2) _ _ _ this, of "[mouse_item]" "\<lambda>_. PNone"]
    shop_facts ref_product_facts
  show ?thesis by simp
qed

end
