(* ===== verification/Py_Time.thy ===== *)
theory Py_Time
  imports Py_Json Py_Csv
begin

text \<open>
  What the notification service uses of the Python standard library for instants and text:
  \<^verbatim>\<open>datetime.fromtimestamp(t, timezone.utc)\<close> and \<^verbatim>\<open>datetime.isoformat()\<close>, and \<^verbatim>\<open>str\<close> of the values
  that JSON has. An instant is its number of microseconds since the epoch. The main result is
  \<open>instant_of_isoformat\<close>: the text of an instant denotes that instant.
\<close>

section \<open>The calendar\<close>

text \<open>The proleptic Gregorian calendar of \<^verbatim>\<open>datetime.py\<close>; day 1 is the first of January of year 1.\<close>

definition days_before_year :: "int \<Rightarrow> int" where
  "days_before_year year = (let y = year - 1 in y * 365 + y div 4 - y div 100 + y div 400)"

definition is_leap :: "int \<Rightarrow> bool" where
  "is_leap year \<longleftrightarrow> year mod 4 = 0 \<and> (year mod 100 \<noteq> 0 \<or> year mod 400 = 0)"

definition days_before_month :: "bool \<Rightarrow> int \<Rightarrow> int" where
  "days_before_month leap month =
     [0, 31, 59, 90, 120, 151, 181, 212, 243, 273, 304, 334] ! nat (month - 1) + (if 2 < month \<and> leap then 1 else 0)"

definition ymd2ord :: "int \<Rightarrow> int \<Rightarrow> int \<Rightarrow> int" where
  "ymd2ord year month day = days_before_year year + days_before_month (is_leap year) month + day"

text \<open>The month and day of the day \<open>n\<close> of a year, counted from 0.\<close>

definition month_day :: "bool \<Rightarrow> int \<Rightarrow> int \<times> int" where
  "month_day leap n =
     (let month = (n + 50) div 32
      in if n < days_before_month leap month
         then (month - 1, n - days_before_month leap (month - 1) + 1)
         else (month, n - days_before_month leap month + 1))"

definition ord2ymd :: "int \<Rightarrow> int \<times> int \<times> int" where
  "ord2ymd day =
     (let n = day - 1;
          n400 = n div 146097; n = n mod 146097;
          n100 = n div 36524; n = n mod 36524;
          n4 = n div 1461; n = n mod 1461;
          n1 = n div 365; n = n mod 365;
          year = n400 * 400 + 1 + n100 * 100 + n4 * 4 + n1
      in if n1 = 4 \<or> n100 = 4 then (year - 1, 12, 31)
         else (year, month_day (n1 = 3 \<and> (n4 \<noteq> 24 \<or> n100 = 3)) n))"

lemma month_day_all:
  "\<forall>leap \<in> set [True, False]. \<forall>n \<in> set (map int [0..<366]). leap \<or> n < 365 \<longrightarrow>
     (case month_day leap n of (m, d) \<Rightarrow>
        days_before_month leap m + d = n + 1 \<and> 1 \<le> m \<and> m \<le> 12 \<and> 1 \<le> d \<and> d \<le> 31)"
  by code_simp

lemma month_day_inverse:
  assumes "0 \<le> n" and "n < (if leap then 366 else 365)" and "month_day leap n = (m, d)"
  shows "days_before_month leap m + d = n + 1" and "1 \<le> m" and "m \<le> 12" and "1 \<le> d" and "d \<le> 31"
proof -
  have "n \<in> set (map int [0..<366])"
    using assms(1,2) by (auto simp: image_iff intro!: bexI [of _ "nat n"] split: if_splits)
  moreover have "leap \<in> set [True, False]" by simp
  ultimately have "days_before_month leap m + d = n + 1 \<and> 1 \<le> m \<and> m \<le> 12 \<and> 1 \<le> d \<and> d \<le> 31"
    using month_day_all assms(2,3) by (fastforce split: if_splits)
  then show "days_before_month leap m + d = n + 1" and "1 \<le> m" and "m \<le> 12" and "1 \<le> d" and "d \<le> 31"
    by simp_all
qed

text \<open>The years of a cycle of 400, by centuries, groups of four and single years.\<close>

lemma days_before_cycle:
  assumes "0 \<le> b" "b \<le> 3" "0 \<le> c" "c \<le> 24" "0 \<le> d" "d \<le> 3"
  shows "days_before_year (a * 400 + 1 + b * 100 + c * 4 + d) = a * 146097 + b * 36524 + c * 1461 + d * 365"
    and "is_leap (a * 400 + 1 + b * 100 + c * 4 + d) \<longleftrightarrow> d = 3 \<and> (c \<noteq> 24 \<or> b = 3)"
proof -
  let ?y = "a * 400 + b * 100 + c * 4 + d"
  have "?y div 4 = a * 100 + b * 25 + c" by (rule int_div_pos_eq [where r = d]) (use assms in simp_all)
  moreover have "?y div 100 = a * 4 + b" by (rule int_div_pos_eq [where r = "c * 4 + d"]) (use assms in simp_all)
  moreover have "?y div 400 = a" by (rule int_div_pos_eq [where r = "b * 100 + c * 4 + d"]) (use assms in simp_all)
  ultimately show "days_before_year (a * 400 + 1 + b * 100 + c * 4 + d) = a * 146097 + b * 36524 + c * 1461 + d * 365"
    by (simp add: days_before_year_def Let_def algebra_simps)
  have z: "(k * q + x) mod q = 0 \<longleftrightarrow> x = q" if "1 \<le> x" "x \<le> q" for k q x :: int
    using that by (cases "x = q") simp_all
  have m4: "(?y + 1) mod 4 = 0 \<longleftrightarrow> d + 1 = 4"
    using z [of "d + 1" 4 "a * 100 + b * 25 + c"] assms by (simp add: algebra_simps)
  have m100: "(?y + 1) mod 100 = 0 \<longleftrightarrow> c * 4 + d + 1 = 100"
    using z [of "c * 4 + d + 1" 100 "a * 4 + b"] assms by (simp add: algebra_simps)
  have m400: "(?y + 1) mod 400 = 0 \<longleftrightarrow> b * 100 + c * 4 + d + 1 = 400"
    using z [of "b * 100 + c * 4 + d + 1" 400 a] assms by (simp add: algebra_simps)
  have y1: "a * 400 + 1 + b * 100 + c * 4 + d = ?y + 1" by simp
  have "is_leap (a * 400 + 1 + b * 100 + c * 4 + d) \<longleftrightarrow>
      d + 1 = 4 \<and> (c * 4 + d + 1 \<noteq> 100 \<or> b * 100 + c * 4 + d + 1 = 400)"
    unfolding is_leap_def y1 m4 m100 m400 by (rule refl)
  also have "\<dots> \<longleftrightarrow> d = 3 \<and> (c \<noteq> 24 \<or> b = 3)" using assms by auto
  finally show "is_leap (a * 400 + 1 + b * 100 + c * 4 + d) \<longleftrightarrow> d = 3 \<and> (c \<noteq> 24 \<or> b = 3)" .
qed

lemma ord2ymd_inverse:
  assumes "ord2ymd n = (y, m, d)"
  shows "ymd2ord y m d = n" and "1 \<le> m" and "m \<le> 12" and "1 \<le> d" and "d \<le> 31"
    and "days_before_year y < n" and "n \<le> days_before_year y + (if is_leap y then 366 else 365)"
proof -
  define a where "a = (n - 1) div 146097"
  define r where "r = (n - 1) mod 146097"
  define b where "b = r div 36524"
  define s where "s = r mod 36524"
  define c where "c = s div 1461"
  define t where "t = s mod 1461"
  define e where "e = t div 365"
  define u where "u = t mod 365"
  have eqs: "n - 1 = 146097 * a + r" "r = 36524 * b + s" "s = 1461 * c + t" "t = 365 * e + u"
    by (simp_all add: a_def b_def c_def e_def u_def r_def s_def t_def)
  have bounds: "0 \<le> r" "r < 146097" "0 \<le> s" "s < 36524" "0 \<le> t" "t < 1461" "0 \<le> u" "u < 365"
    by (simp_all add: r_def s_def t_def u_def)
  have n: "n = a * 146097 + b * 36524 + c * 1461 + e * 365 + u + 1" using eqs by linarith
  have u: "0 \<le> u" "u < 365" and b: "0 \<le> b" "b \<le> 4" and c: "0 \<le> c" "c \<le> 24" and e: "0 \<le> e" "e \<le> 4"
    using eqs bounds by linarith+
  have b4: "b = 4 \<Longrightarrow> s = 0" and e4: "e = 4 \<Longrightarrow> u = 0" and c24: "e = 4 \<Longrightarrow> c \<noteq> 24"
    using eqs bounds by linarith+
  let ?y = "a * 400 + 1 + b * 100 + c * 4 + e"
  let ?leap = "e = 3 \<and> (c \<noteq> 24 \<or> b = 3)"
  have ord: "ord2ymd n = (if e = 4 \<or> b = 4 then (?y - 1, 12, 31) else (?y, month_day ?leap u))"
    by (simp add: ord2ymd_def Let_def a_def b_def c_def e_def u_def r_def s_def t_def)
  have "ymd2ord y m d = n \<and> 1 \<le> m \<and> m \<le> 12 \<and> 1 \<le> d \<and> d \<le> 31 \<and>
      days_before_year y < n \<and> n \<le> days_before_year y + (if is_leap y then 366 else 365)"
  proof (cases "e = 4 \<or> b = 4")
    case True
    then consider (four) "e = 4" "b \<noteq> 4" | (cent) "b = 4" by blast
    then show ?thesis
    proof cases
      case four
      have "c \<noteq> 24" using c24 four(1) by simp
      then have "days_before_year (?y - 1) = a * 146097 + b * 36524 + c * 1461 + 3 * 365" "is_leap (?y - 1)"
        using days_before_cycle [of b c 3 a] b c four by simp_all
      then show ?thesis
        using True assms ord n four e4 by (auto simp: ymd2ord_def days_before_month_def)
    next
      case cent
      have z: "c = 0" "e = 0" "u = 0" using b4 [OF cent] eqs bounds b c e by linarith+
      then have "days_before_year (?y - 1) = a * 146097 + 3 * 36524 + 24 * 1461 + 3 * 365" "is_leap (?y - 1)"
        using days_before_cycle [of 3 24 3 a] cent by simp_all
      then show ?thesis
        using True assms ord n cent z by (auto simp: ymd2ord_def days_before_month_def)
    qed
  next
    case False
    then have md: "y = ?y" "month_day ?leap u = (m, d)" using assms ord by simp_all
    have "u < (if ?leap then 366 else 365)" using u by simp
    from month_day_inverse [OF u(1) this md(2)]
    have "days_before_month ?leap m + d = u + 1 \<and> 1 \<le> m \<and> m \<le> 12 \<and> 1 \<le> d \<and> d \<le> 31" by blast
    moreover have "days_before_year y = a * 146097 + b * 36524 + c * 1461 + e * 365" "is_leap y \<longleftrightarrow> ?leap"
      using days_before_cycle [of b c e a] b c e False md(1) by simp_all
    ultimately show ?thesis using n u by (simp add: ymd2ord_def)
  qed
  then show "ymd2ord y m d = n" and "1 \<le> m" and "m \<le> 12" and "1 \<le> d" and "d \<le> 31"
    and "days_before_year y < n" and "n \<le> days_before_year y + (if is_leap y then 366 else 365)"
    by blast+
qed

lemma days_before_year_mono: "y \<le> z \<Longrightarrow> days_before_year y \<le> days_before_year z"
proof -
  assume le: "y \<le> z"
  have "(y - 1) div 4 \<le> (z - 1) div 4" "(y - 1) div 400 \<le> (z - 1) div 400" using le by (simp_all add: zdiv_mono1)
  moreover have "(z - 1) div 100 \<le> (y - 1) div 100 + (z - y)"
    using zdiv_mono1 [of "z - 1" "(y - 1) + (z - y) * 100" 100] le by simp
  ultimately show ?thesis using le by (simp add: days_before_year_def Let_def)
qed

lemma supported_years:
  assumes "ord2ymd n = (y, m, d)"
  shows "1 \<le> y \<longleftrightarrow> 1 \<le> n" and "y \<le> 9999 \<longleftrightarrow> n \<le> 3652059"
proof -
  note b = ord2ymd_inverse(6,7) [OF assms]
  have v: "days_before_year 1 = 0" "days_before_year 0 = - 366" "days_before_year 9998 = 3651329" "days_before_year 9999 = 3651694"
    "days_before_year 10000 = 3652059" "\<not> is_leap 9999"
    by (simp_all add: days_before_year_def is_leap_def)
  show "1 \<le> y \<longleftrightarrow> 1 \<le> n"
    using days_before_year_mono [of 1 y] days_before_year_mono [of y 0] b v by (cases "1 \<le> y") (auto split: if_splits)
  consider "y \<le> 9998" | "y = 9999" | "10000 \<le> y" by linarith
  then show "y \<le> 9999 \<longleftrightarrow> n \<le> 3652059"
    using days_before_year_mono [of y 9998] days_before_year_mono [of 10000 y] b v by cases (auto split: if_splits)
qed

section \<open>Instants\<close>

abbreviation epoch_ordinal :: int where
  "epoch_ordinal \<equiv> 719163"

abbreviation microsecond_day :: int where
  "microsecond_day \<equiv> 86400000000"

definition instant_date :: "int \<Rightarrow> int \<times> int \<times> int" where
  "instant_date us = ord2ymd (us div microsecond_day + epoch_ordinal)"

definition pad_int :: "nat \<Rightarrow> int \<Rightarrow> string" where
  "pad_int w n = replicate (w - length (nat_str n)) CHR ''0'' @ nat_str n"

text \<open>\<^verbatim>\<open>datetime.isoformat()\<close> of a UTC time.\<close>

definition isoformat :: "int \<Rightarrow> string" where
  "isoformat us =
     (case instant_date us of
        (y, m, d) \<Rightarrow>
          (let rest = us mod microsecond_day; secs = rest div 1000000; micro = rest mod 1000000
           in pad_int 4 y @ ''-'' @ pad_int 2 m @ ''-'' @ pad_int 2 d @ ''T'' @
              pad_int 2 (secs div 3600) @ '':'' @ pad_int 2 (secs div 60 mod 60) @ '':'' @ pad_int 2 (secs mod 60) @
              (if micro = 0 then [] else ''.'' @ pad_int 6 micro) @ ''+00:00''))"

text \<open>
  \<^verbatim>\<open>datetime.fromtimestamp(v, timezone.utc)\<close>. The fraction of a float is multiplied by a million in
  double precision and rounded half to even. Seconds beyond 64 bits, years beyond 32 bits and
  years outside 1 to 9999 are errors.
\<close>

definition float_microseconds :: "int \<Rightarrow> int \<Rightarrow> int" where
  "float_microseconds m e =
     (if 0 \<le> e then m * 2 ^ nat e * 1000000
      else (let den = 2 ^ nat (- e);
                p = \<bar>m\<bar> mod den * 1000000;
                k = nat (max 0 (bit_len p - 53));
                q = round_half_even p (2 ^ k) * 2 ^ k
            in sgn m * (\<bar>m\<bar> div den * 1000000 + round_half_even q den)))"

fun timestamp_microseconds :: "pyval \<Rightarrow> int res" where
  "timestamp_microseconds (PBool b) = Inr (if b then 1000000 else 0)"
| "timestamp_microseconds (PInt i) = Inr (i * 1000000)"
| "timestamp_microseconds (PFloat m e) = Inr (float_microseconds m e)"
| "timestamp_microseconds _ = Inl TypeError"

definition fromtimestamp :: "pyval \<Rightarrow> int res" where
  "fromtimestamp v =
     bind_res (timestamp_microseconds v) (\<lambda>us.
       (let secs = us div 1000000; year = fst (instant_date us)
        in if secs < - (2 ^ 63) \<or> 2 ^ 63 \<le> secs then Inl OverflowError
           else if year - 1900 < - (2 ^ 31) \<or> 2 ^ 31 \<le> year - 1900 then Inl OSError
           else if year < 1 \<or> 9999 < year then Inl ValueError
           else Inr us))"

section \<open>Texts of instants\<close>

text \<open>The instant a text of that form denotes.\<close>

definition instant_of :: "string \<Rightarrow> int" where
  "instant_of s =
     (let part = (\<lambda>i n. digits_val (take n (drop i s)))
      in (ymd2ord (part 0 4) (part 5 2) (part 8 2) - epoch_ordinal) * microsecond_day +
         ((part 11 2 * 60 + part 14 2) * 60 + part 17 2) * 1000000 +
         (if s ! 19 = CHR ''.'' then part 20 6 else 0))"

lemma pad_int_facts:
  assumes "0 \<le> n" and "n < 10 ^ w" and "0 < w"
  shows "length (pad_int w n) = w" and "digits_val (pad_int w n) = n"
proof -
  obtain k where k: "w = Suc k" using assms(3) by (cases w) auto
  then show "length (pad_int w n) = w"
    using nat_str_length [OF assms(1), of k] assms(2) by (simp add: pad_int_def)
  show "digits_val (pad_int w n) = n"
    using assms(1) by (simp add: pad_int_def digits_val_zeros)
qed

lemma day_parts:
  fixes r :: int
  assumes "0 \<le> r" and "r < microsecond_day"
  defines "secs \<equiv> r div 1000000"
  shows "0 \<le> secs div 3600" "secs div 3600 < 24" "0 \<le> secs div 60 mod 60" "secs div 60 mod 60 < 60"
    "0 \<le> secs mod 60" "secs mod 60 < 60"
    "((secs div 3600 * 60 + secs div 60 mod 60) * 60 + secs mod 60) * 1000000 + r mod 1000000 = r"
proof -
  define q where "q = r mod 1000000"
  define x where "x = secs mod 60"
  define k where "k = secs div 60"
  define y where "y = k mod 60"
  define h where "h = k div 60"
  have eqs: "r = 1000000 * secs + q" "secs = 60 * k + x" "k = 60 * h + y"
    by (simp_all add: secs_def q_def x_def k_def y_def h_def)
  have bounds: "0 \<le> q" "q < 1000000" "0 \<le> x" "x < 60" "0 \<le> y" "y < 60" by (simp_all add: q_def x_def y_def)
  have "secs div 3600 = h" by (simp add: h_def k_def zdiv_zmult2_eq [symmetric])
  moreover have "0 \<le> h" "h < 24" using eqs bounds assms(1,2) by linarith+
  moreover have "((h * 60 + y) * 60 + x) * 1000000 + q = r" using eqs by (simp add: algebra_simps)
  ultimately show "0 \<le> secs div 3600" "secs div 3600 < 24" "0 \<le> secs div 60 mod 60" "secs div 60 mod 60 < 60"
    "0 \<le> secs mod 60" "secs mod 60 < 60"
    "((secs div 3600 * 60 + secs div 60 mod 60) * 60 + secs mod 60) * 1000000 + r mod 1000000 = r"
    using bounds by (simp_all only: k_def [symmetric] x_def [symmetric] y_def [symmetric] q_def [symmetric])
qed

lemma instant_of_isoformat:
  assumes "instant_date us = (y, m, d)" and "1 \<le> y" and "y \<le> 9999"
  shows "instant_of (isoformat us) = us"
    and "length (isoformat us) = (if us mod 1000000 = 0 then 25 else 32)"
proof -
  define r where "r = us mod microsecond_day"
  define h where "h = r div 1000000 div 3600"
  define k where "k = r div 1000000 div 60 mod 60"
  define x where "x = r div 1000000 mod 60"
  define q where "q = r mod 1000000"
  have us: "us = microsecond_day * (us div microsecond_day) + r" and r: "0 \<le> r" "r < microsecond_day"
    by (simp_all add: r_def)
  have q: "0 \<le> q" "q < 1000000" "us mod 1000000 = q" by (simp_all add: q_def r_def mod_mod_cancel)
  note date = ord2ymd_inverse [OF assms(1) [unfolded instant_date_def]]
  note parts = day_parts [OF r, folded h_def k_def x_def q_def]
  note pads = pad_int_facts [of y 4] pad_int_facts [of m 2] pad_int_facts [of d 2] pad_int_facts [of h 2]
    pad_int_facts [of k 2] pad_int_facts [of x 2] pad_int_facts [of q 6]
  have lens: "length (pad_int 4 y) = 4" "length (pad_int 2 m) = 2" "length (pad_int 2 d) = 2" "length (pad_int 2 h) = 2"
      "length (pad_int 2 k) = 2" "length (pad_int 2 x) = 2" "length (pad_int 6 q) = 6"
    and vals: "digits_val (pad_int 4 y) = y" "digits_val (pad_int 2 m) = m" "digits_val (pad_int 2 d) = d"
      "digits_val (pad_int 2 h) = h" "digits_val (pad_int 2 k) = k" "digits_val (pad_int 2 x) = x" "digits_val (pad_int 6 q) = q"
    using pads assms(2,3) date(2-5) parts(1-6) q(1,2) by simp_all
  have iso: "isoformat us = pad_int 4 y @ ''-'' @ pad_int 2 m @ ''-'' @ pad_int 2 d @ ''T'' @ pad_int 2 h @ '':'' @
      pad_int 2 k @ '':'' @ pad_int 2 x @ (if q = 0 then [] else ''.'' @ pad_int 6 q) @ ''+00:00''"
    unfolding isoformat_def assms(1) Let_def prod.case r_def h_def k_def x_def q_def by (rule refl)
  show "length (isoformat us) = (if us mod 1000000 = 0 then 25 else 32)"
    by (simp add: iso lens q(3))
  have "instant_of (isoformat us) = (ymd2ord y m d - epoch_ordinal) * microsecond_day + ((h * 60 + k) * 60 + x) * 1000000 + q"
    by (cases "q = 0") (simp_all add: instant_of_def iso Let_def lens vals nth_append)
  then show "instant_of (isoformat us) = us"
    using us parts(7) date(1) by (simp add: algebra_simps)
qed

section \<open>Text of values\<close>

text \<open>
  \<^verbatim>\<open>repr\<close> of a double: the shortest decimal digits that read back as the same number and, of
  these, the closest, with an exponent below \<open>1e-4\<close> and from \<open>1e16\<close> on. Seventeen digits always
  suffice. The number is \<open>num / den\<close>, \<open>0 < num\<close>; \<open>decimal_point\<close> is the \<open>k\<close> with
  \<open>10 ^ (k - 1) \<le> num / den < 10 ^ k\<close>.
\<close>

definition decimal_point :: "int \<Rightarrow> int \<Rightarrow> int" where
  "decimal_point num den =
     (if den \<le> num then int (length (nat_str (num div den)))
      else (let j = length (nat_str den) - length (nat_str num)
            in if den \<le> num * 10 ^ j then 1 - int j else - int j))"

fun shortest_decimal :: "nat \<Rightarrow> int \<Rightarrow> int \<Rightarrow> int \<times> int \<Rightarrow> int \<times> int" where
  "shortest_decimal 0 num den v = (num div den, 0)"
| "shortest_decimal (Suc k) num den v =
     (let n = 17 - int k; x = decimal_point num den - n;
          a = (if 0 \<le> x then num else num * 10 ^ nat (- x));
          b = (if 0 \<le> x then den * 10 ^ nat x else den);
          lo = a div b; r = a mod b;
          reads = (\<lambda>c. double_of_decimal c x = PFloat (fst v) (snd v))
      in if reads lo \<and> (2 * r \<le> b \<or> \<not> reads (lo + 1)) then (lo, x)
         else if reads (lo + 1) then (lo + 1, x)
         else shortest_decimal k num den v)"

definition repr_digits :: "string \<Rightarrow> int \<Rightarrow> string" where
  "repr_digits ds point =
     (if - 4 < point \<and> point \<le> 16 then
        (if point \<le> 0 then ''0.'' @ replicate (nat (- point)) CHR ''0'' @ ds
         else if int (length ds) \<le> point then ds @ replicate (nat point - length ds) CHR ''0'' @ ''.0''
         else take (nat point) ds @ ''.'' @ drop (nat point) ds)
      else
        (let e = point - 1
         in take 1 ds @ (if 1 < length ds then ''.'' @ drop 1 ds else []) @ ''e'' @
            (if e < 0 then ''-'' else ''+'') @ pad_int 2 \<bar>e\<bar>))"

definition float_repr :: "int \<Rightarrow> int \<Rightarrow> string" where
  "float_repr m e =
     (if m = 0 then ''0.0''
      else (let num = (if 0 \<le> e then \<bar>m\<bar> * 2 ^ nat e else \<bar>m\<bar>);
                den = (if 0 \<le> e then 1 else 2 ^ nat (- e));
                (c, x) = shortest_decimal 17 num den (\<bar>m\<bar>, e);
                all = nat_str c;
                ds = rev (dropWhile (\<lambda>d. d = CHR ''0'') (rev all))
            in (if m < 0 then ''-'' else []) @ repr_digits ds (int (length all) + x)))"

text \<open>\<^verbatim>\<open>repr\<close> and \<^verbatim>\<open>str\<close> of the values that JSON has; there are no decimals and datetimes among them.\<close>

fun value_repr :: "pyval \<Rightarrow> string" where
  "value_repr PNone = ''None''"
| "value_repr (PBool b) = (if b then ''True'' else ''False'')"
| "value_repr (PInt i) = int_str i"
| "value_repr (PFloat m e) = float_repr m e"
| "value_repr (PStr s) = py_repr s"
| "value_repr (PList vs) = ''['' @ comma_join (map value_repr vs) @ '']''"
| "value_repr (PDict kvs) =
     ''{'' @ comma_join (map (\<lambda>kv. py_repr (fst kv) @ '': '' @ value_repr (snd kv)) kvs) @ ''}''"
| "value_repr _ = []"

definition py_str :: "pyval \<Rightarrow> string" where
  "py_str v = (case v of PStr s \<Rightarrow> s | _ \<Rightarrow> value_repr v)"

end
