(* ===== verification/Event_Audit.thy ===== *)
theory Event_Audit
  imports Notification
begin

text \<open>
  What the notification service guarantees. \<open>audit_store\<close> states what it relies on of MongoDB,
  \<open>event_broker\<close> what it relies on of RabbitMQ, and \<open>event_consumer\<close> joins the two; the results on the
  handler and on the consumer loop are proved in these locales. The abstract specification of the
  audit collection is \<open>event_trail\<close>: one document per message id, that of the first delivery.
  \<open>ref_notification_env\<close>, a broker that comes up after twelve seconds with an in-memory
  collection, meets the laws.
\<close>

section \<open>Timestamps\<close>

lemma year_bounds:
  assumes "- 62135596800 \<le> i" and "i < 253402300800"
  shows "1 \<le> fst (instant_date (i * 1000000))" "fst (instant_date (i * 1000000)) \<le> 9999"
proof -
  obtain y m d where d: "instant_date (i * 1000000) = (y, m, d)" by (metis prod_cases3)
  have e: "i * 1000000 div microsecond_day = i div 86400" by simp
  have "- 719162 \<le> i div 86400" "i div 86400 \<le> 2932896"
    using zdiv_mono1 [OF assms(1), of 86400] zdiv_mono1 [of i 253402300799 86400] assms(2) by simp_all
  then show "1 \<le> fst (instant_date (i * 1000000))" "fst (instant_date (i * 1000000)) \<le> 9999"
    using supported_years [OF d [unfolded instant_date_def e]] by (simp_all add: d)
qed

lemma year_bounds_iff:
  "1 \<le> fst (instant_date (i * 1000000)) \<and> fst (instant_date (i * 1000000)) \<le> 9999 \<longleftrightarrow>
     - 62135596800 \<le> i \<and> i < 253402300800"
proof
  obtain y m d where d: "instant_date (i * 1000000) = (y, m, d)" by (metis prod_cases3)
  have e: "i * 1000000 div microsecond_day = i div 86400" by simp
  assume "1 \<le> fst (instant_date (i * 1000000)) \<and> fst (instant_date (i * 1000000)) \<le> 9999"
  then have "- 719162 \<le> i div 86400" "i div 86400 \<le> 2932896"
    using supported_years [OF d [unfolded instant_date_def e]] by (simp_all add: d)
  then show "- 62135596800 \<le> i \<and> i < 253402300800" by auto
qed (simp add: year_bounds)

lemma normalize_numeric:
  assumes "timestamp_microseconds v = Inr us"
  shows "normalize_timestamp v = bind_res (fromtimestamp v) (\<lambda>us. Inr (PStr (isoformat us)))"
  using assms by (cases v) (simp_all add: normalize_timestamp_def)

lemma normalized_instant:
  assumes "timestamp_microseconds v = Inr us" and "normalize_timestamp v = Inr w"
  shows "w = PStr (isoformat us)" and "instant_of (isoformat us) = us"
    and "length (isoformat us) = (if us mod 1000000 = 0 then 25 else 32)"
proof -
  have *: "\<not> (fst (instant_date us) < 1 \<or> 9999 < fst (instant_date us))" "w = PStr (isoformat us)"
    using assms normalize_numeric [OF assms(1)]
    by (auto simp: fromtimestamp_def Let_def split: if_splits)
  then show "w = PStr (isoformat us)" by simp
  obtain y m d where d: "instant_date us = (y, m, d)" by (metis prod_cases3)
  with * have "1 \<le> y" "y \<le> 9999" by auto
  from instant_of_isoformat [OF d this]
  show "instant_of (isoformat us) = us" "length (isoformat us) = (if us mod 1000000 = 0 then 25 else 32)" .
qed

text \<open>
  C38: normalize_timestamp turns an integer between -62135596800 and 253402300799 into an ISO
  text of 25 characters that denotes that second, and raises an error for every other integer.
\<close>

theorem timestamp_bounds:
  "if - 62135596800 \<le> i \<and> i \<le> 253402300799
   then \<exists>s. normalize_timestamp (PInt i) = Inr (PStr s) \<and> instant_of s = i * 1000000 \<and> length s = 25
   else \<exists>e. normalize_timestamp (PInt i) = Inl e \<and> e \<in> {ValueError, OSError, OverflowError}"
proof (cases "- 62135596800 \<le> i \<and> i \<le> 253402300799")
  case True
  then have y: "1 \<le> fst (instant_date (i * 1000000))" "fst (instant_date (i * 1000000)) \<le> 9999"
    using year_bounds [of i] by simp_all
  have "- (2 ^ 63) \<le> i \<and> i < 2 ^ 63" using True by simp
  then have n: "normalize_timestamp (PInt i) = Inr (PStr (isoformat (i * 1000000)))"
    using y by (simp add: normalize_timestamp_def fromtimestamp_def Let_def)
  show ?thesis using True n normalized_instant(2,3) [OF _ n, of "i * 1000000"] by auto
next
  case False
  then have "\<not> (1 \<le> fst (instant_date (i * 1000000)) \<and> fst (instant_date (i * 1000000)) \<le> 9999)"
    using year_bounds_iff [of i] by auto
  then have "\<exists>e. normalize_timestamp (PInt i) = Inl e \<and> e \<in> {ValueError, OSError, OverflowError}"
    by (simp add: normalize_timestamp_def fromtimestamp_def Let_def not_le)
  with False show ?thesis by (simp only: if_False)
qed

section \<open>Records of events\<close>

fun payload_get :: "(string \<times> pyval) list \<Rightarrow> string list \<Rightarrow> pyval" where
  "payload_get kvs [] = PNone"
| "payload_get kvs (key # keys) = (case map_of kvs key of Some v \<Rightarrow> v | None \<Rightarrow> payload_get kvs keys)"

lemma payload_value_dict: "payload_value (PDict kvs) keys = Inr (payload_get kvs keys)"
proof (induction keys)
  case (Cons key keys)
  have "key \<in> fst ` set kvs \<longleftrightarrow> map_of kvs key \<noteq> None" by (simp add: map_of_eq_None_iff)
  then show ?case using Cons by (auto split: option.splits)
qed simp

declare payload_get.simps [simp del] payload_value.simps [simp del]

text \<open>
  A payload the service can record: an object whose message id, if it has one, is a string, and
  whose time of occurrence, if it is a number, is in the range of \<^verbatim>\<open>datetime\<close>.
\<close>

definition event_ok :: "pyval \<Rightarrow> bool" where
  "event_ok payload =
     (case payload of
        PDict kvs \<Rightarrow>
          (case payload_get kvs [''message_id'', ''messageId''] of PStr s \<Rightarrow> True | v \<Rightarrow> \<not> truthy v) \<and>
          (case normalize_timestamp (payload_get kvs [''occurred_at'', ''occurredAt'']) of Inl _ \<Rightarrow> False | Inr _ \<Rightarrow> True)
      | _ \<Rightarrow> False)"

definition doc_id :: "pyval \<Rightarrow> pyval option" where
  "doc_id doc = (case doc of PDict kvs \<Rightarrow> map_of kvs ''message_id'' | _ \<Rightarrow> None)"

lemma event_okE:
  assumes "event_ok payload"
  obtains kvs ts where "payload = PDict kvs" "normalize_timestamp (payload_get kvs [''occurred_at'', ''occurredAt'']) = Inr ts"
    "(\<exists>k. payload_get kvs [''message_id'', ''messageId''] = PStr k) \<or> \<not> truthy (payload_get kvs [''message_id'', ''messageId''])"
proof (cases payload)
  case (PDict kvs)
  then have "case normalize_timestamp (payload_get kvs [''occurred_at'', ''occurredAt'']) of Inl _ \<Rightarrow> False | Inr _ \<Rightarrow> True"
    and "case payload_get kvs [''message_id'', ''messageId''] of PStr s \<Rightarrow> True | v \<Rightarrow> \<not> truthy v"
    using assms by (simp_all add: event_ok_def)
  then show thesis
    using that PDict
    by (cases "normalize_timestamp (payload_get kvs [''occurred_at'', ''occurredAt''])";
        cases "payload_get kvs [''message_id'', ''messageId'']") auto
qed (use assms in \<open>simp_all add: event_ok_def\<close>)

lemma event_message_id:
  assumes "event_ok payload"
  shows "\<exists>k. audit_message_id payload rk = Inr (PStr k)"
  by (rule event_okE [OF assms]) (auto simp: audit_message_id_def payload_value_dict)

lemma event_log_record:
  assumes "event_ok payload"
  shows "\<exists>rec. build_log_record payload rk = Inr rec"
  by (rule event_okE [OF assms]) (simp add: build_log_record_def payload_value_dict Let_def)

lemma event_audit_record:
  assumes "event_ok payload" and "audit_message_id payload rk = Inr k"
  shows "\<exists>doc. build_audit_record payload rk c t = Inr doc \<and> doc_id doc = Some k \<and> py_getitem doc ''message_id'' = Inr k"
  by (rule event_okE [OF assms(1)])
    (use assms(2) in \<open>simp add: build_audit_record_def payload_value_dict Let_def doc_id_def\<close>)

section \<open>The audit collection\<close>

text \<open>
  The trail of events: one document per message id, the first that arrived. This is what an upsert
  with \<^verbatim>\<open>$setOnInsert\<close> on the message id does to a collection.
\<close>

definition record_once :: "string \<Rightarrow> pyval \<Rightarrow> pyval list \<Rightarrow> pyval list" where
  "record_once k doc docs = (if Some (PStr k) \<in> set (map doc_id docs) then docs else docs @ [doc])"

definition unique_ids :: "pyval list \<Rightarrow> bool" where
  "unique_ids docs \<longleftrightarrow> distinct (map doc_id docs)"

abbreviation set_on_insert :: "pyval \<Rightarrow> pyval" where
  "set_on_insert doc \<equiv> PDict [(CHR 0x24 # ''setOnInsert'', doc)]"

abbreviation select_id :: "string \<Rightarrow> pyval" where
  "select_id k \<equiv> PDict [(''message_id'', PStr k)]"

lemma unique_record_once: "unique_ids docs \<Longrightarrow> doc_id doc = Some (PStr k) \<Longrightarrow> unique_ids (record_once k doc docs)"
  by (auto simp: unique_ids_def record_once_def)

text \<open>
  What the service relies on: a reachable server performs the upsert; a call that fails, or whose
  reply is lost, has changed nothing or has performed the upsert; \<open>storable\<close> are the documents
  within the limits of BSON. The calls raise no \<^verbatim>\<open>KeyboardInterrupt\<close>.
\<close>

locale audit_store =
  fixes D :: "'m mongo_driver"
    and st :: notification_settings
    and docs :: "'m \<Rightarrow> pyval list"
    and up :: "'m \<Rightarrow> bool"
    and storable :: "pyval \<Rightarrow> bool"
  assumes client_up: "up m \<Longrightarrow> fst (md_client D (nt_mongo_uri st) (nt_mongo_timeout_ms st) m) = Inr () \<and>
        up (snd (md_client D (nt_mongo_uri st) (nt_mongo_timeout_ms st) m))"
    and client_docs: "docs (snd (md_client D uri ms m)) = docs m"
    and index_up: "up m \<Longrightarrow> unique_ids (docs m) \<Longrightarrow>
        fst (md_create_index D (audit_names st) ''message_id'' True m) = Inr () \<and>
        up (snd (md_create_index D (audit_names st) ''message_id'' True m))"
    and index_docs: "docs (snd (md_create_index D names field uniq m)) = docs m"
    and update_up: "up m \<Longrightarrow> storable doc \<Longrightarrow>
        fst (md_update_one D (audit_names st) (select_id k) (set_on_insert doc) True m) = Inr () \<and>
        up (snd (md_update_one D (audit_names st) (select_id k) (set_on_insert doc) True m))"
    and update_ok: "fst (md_update_one D (audit_names st) (select_id k) (set_on_insert doc) True m) = Inr u \<Longrightarrow>
        docs (snd (md_update_one D (audit_names st) (select_id k) (set_on_insert doc) True m)) = record_once k doc (docs m)"
    and update_any: "docs (snd (md_update_one D (audit_names st) (select_id k) (set_on_insert doc) True m))
        \<in> {docs m, record_once k doc (docs m)}"
    and no_interrupt: "fst (md_client D uri ms m) \<noteq> Inl KeyboardInterrupt"
      "fst (md_create_index D names field uniq m) \<noteq> Inl KeyboardInterrupt"
      "fst (md_update_one D names sel upd ups m) \<noteq> Inl KeyboardInterrupt"

locale audit_consumer = audit_store D "ne_settings E" docs up storable
  for E :: "('w, 'm) notification_env" and D :: "'m mongo_driver" and docs up storable +
  assumes installed: "ne_pymongo E = Some D"
    and enabled: "nt_mongo_enabled (ne_settings E)"
begin

abbreviation trail :: "('w, 'm) consumer_state \<Rightarrow> pyval list" where
  "trail s \<equiv> docs (nc_mongo s)"

lemma get_collection:
  "trail (snd (get_audit_collection E s)) = trail s \<and>
   nc_world (snd (get_audit_collection E s)) = nc_world s \<and>
   (case fst (get_audit_collection E s) of
      Inl e \<Rightarrow> e \<noteq> KeyboardInterrupt
    | Inr c \<Rightarrow> c = Some (D, audit_names (ne_settings E)))"
proof (cases "nc_audit_collection s")
  case True
  then show ?thesis using installed enabled by (simp add: get_audit_collection_def Let_def)
next
  case False
  obtain r1 m1 where c: "md_client D (nt_mongo_uri (ne_settings E)) (nt_mongo_timeout_ms (ne_settings E)) (nc_mongo s) = (r1, m1)"
    by fastforce
  obtain r2 m2 where i: "md_create_index D (audit_names (ne_settings E)) ''message_id'' True m1 = (r2, m2)"
    by fastforce
  have d: "docs m1 = trail s" "docs m2 = docs m1" using client_docs index_docs c i by (metis snd_conv)+
  have n: "r1 \<noteq> Inl KeyboardInterrupt" "r2 \<noteq> Inl KeyboardInterrupt" using no_interrupt(1,2) c i by (metis fst_conv)+
  show ?thesis
    using False installed enabled c i d n
    by (cases r1; cases r2) (simp_all add: get_audit_collection_def Let_def bind_prog_def on_mongo_def)
qed

lemma get_collection_up:
  assumes "up (nc_mongo s)" and "unique_ids (trail s)"
  obtains s' where "get_audit_collection E s = (Inr (Some (D, audit_names (ne_settings E))), s')"
    "up (nc_mongo s')" "trail s' = trail s" "nc_world s' = nc_world s"
proof (cases "nc_audit_collection s")
  case True
  then show ?thesis using that [of s] assms installed enabled by (simp add: get_audit_collection_def Let_def)
next
  case False
  obtain r1 m1 where c: "md_client D (nt_mongo_uri (ne_settings E)) (nt_mongo_timeout_ms (ne_settings E)) (nc_mongo s) = (r1, m1)"
    by fastforce
  obtain r2 m2 where i: "md_create_index D (audit_names (ne_settings E)) ''message_id'' True m1 = (r2, m2)"
    by fastforce
  have d: "docs m1 = trail s" "docs m2 = docs m1" using client_docs index_docs c i by (metis snd_conv)+
  have r1: "r1 = Inr ()" "up m1" using client_up [OF assms(1)] c by simp_all
  then have r2: "r2 = Inr ()" "up m2" using index_up [of m1] assms(2) d i by simp_all
  show ?thesis
    by (rule that [of "s\<lparr>nc_mongo_client := True, nc_audit_collection := True, nc_mongo := m2\<rparr>"])
      (use False installed enabled c i d r1 r2 in \<open>simp_all add: get_audit_collection_def Let_def bind_prog_def on_mongo_def\<close>)
qed

text \<open>Storing a document: nothing else of the world moves, and the trail takes at most that document.\<close>

lemma store_any:
  assumes "py_getitem doc ''message_id'' = Inr (PStr k)"
  shows "nc_world (snd (store_audit_record E doc s)) = nc_world s \<and>
    fst (store_audit_record E doc s) \<noteq> Inl KeyboardInterrupt \<and>
    trail (snd (store_audit_record E doc s)) \<in> {trail s, record_once k doc (trail s)}"
proof -
  obtain r s1 where g: "get_audit_collection E s = (r, s1)" by fastforce
  have s1: "trail s1 = trail s" "nc_world s1 = nc_world s" using get_collection [of s] g by simp_all
  show ?thesis
  proof (cases r)
    case (Inl e)
    then show ?thesis using get_collection [of s] g s1 by (simp add: store_audit_record_def)
  next
    case (Inr c)
    have c: "c = Some (D, audit_names (ne_settings E))" using get_collection [of s] g Inr by simp
    obtain r2 m2 where u: "md_update_one D (audit_names (ne_settings E)) (select_id k) (set_on_insert doc) True (nc_mongo s1) = (r2, m2)"
      by fastforce
    have "docs m2 \<in> {docs (nc_mongo s1), record_once k doc (docs (nc_mongo s1))}"
      using update_any [of k doc "nc_mongo s1"] u by simp
    moreover have "r2 \<noteq> Inl KeyboardInterrupt" using no_interrupt(3) u by (metis fst_conv)
    ultimately show ?thesis
      using g Inr c u s1 assms
      by (cases r2) (simp_all add: store_audit_record_def persist_audit_record_def bind_prog_def on_mongo_def log_info_def)
  qed
qed

lemma store_up:
  assumes "py_getitem doc ''message_id'' = Inr (PStr k)" and "up (nc_mongo s)" and "unique_ids (trail s)" and "storable doc"
  obtains s' where "store_audit_record E doc s = (Inr (), s')" "up (nc_mongo s')" "trail s' = record_once k doc (trail s)"
    "nc_world s' = nc_world s"
proof -
  obtain s1 where g: "get_audit_collection E s = (Inr (Some (D, audit_names (ne_settings E))), s1)"
    "up (nc_mongo s1)" "trail s1 = trail s" "nc_world s1 = nc_world s"
    using get_collection_up [OF assms(2,3)] .
  obtain r2 m2 where u: "md_update_one D (audit_names (ne_settings E)) (select_id k) (set_on_insert doc) True (nc_mongo s1) = (r2, m2)"
    by fastforce
  have r2: "r2 = Inr ()" "up m2" using update_up [OF g(2) assms(4), of k] u by simp_all
  moreover have "docs m2 = record_once k doc (trail s)" using update_ok [of k doc "nc_mongo s1" "()"] u r2 g by simp
  ultimately show thesis
    using that g u assms(1)
    by (fastforce simp: store_audit_record_def persist_audit_record_def bind_prog_def on_mongo_def log_info_def)
qed

end

section \<open>Handling a message\<close>

definition delivery_event :: "delivery \<Rightarrow> pyval option" where
  "delivery_event d =
     (case loads_body (dl_body d) of
        Some (Inr payload) \<Rightarrow> (if event_ok payload then Some payload else None)
      | _ \<Rightarrow> None)"

definition event_id :: "delivery \<Rightarrow> string" where
  "event_id d =
     (case map_option (\<lambda>p. audit_message_id p (dl_routing_key d)) (delivery_event d) of
        Some (Inr (PStr k)) \<Rightarrow> k
      | _ \<Rightarrow> [])"

definition audit_doc :: "delivery \<Rightarrow> int \<Rightarrow> pyval" where
  "audit_doc d t =
     (case map_option (\<lambda>p. build_audit_record p (dl_routing_key d) None t) (delivery_event d) of
        Some (Inr doc) \<Rightarrow> doc
      | _ \<Rightarrow> PNone)"

lemma delivery_eventD:
  assumes "delivery_event d = Some p"
  shows "event_ok p" and "on_message E d = Some (handle_payload E d p)"
  using assms by (auto simp: delivery_event_def on_message_def bind_prog_def fun_eq_iff split: option.splits sum.splits if_splits)

lemma audit_doc_facts:
  assumes "delivery_event d = Some p"
  shows "build_audit_record p (dl_routing_key d) None t = Inr (audit_doc d t)"
    and "doc_id (audit_doc d t) = Some (PStr (event_id d))"
    and "py_getitem (audit_doc d t) ''message_id'' = Inr (PStr (event_id d))"
proof -
  obtain k where k: "audit_message_id p (dl_routing_key d) = Inr (PStr k)"
    using event_message_id delivery_eventD(1) [OF assms] by blast
  obtain doc where "build_audit_record p (dl_routing_key d) None t = Inr doc" "doc_id doc = Some (PStr k)"
    "py_getitem doc ''message_id'' = Inr (PStr k)"
    using event_audit_record [OF delivery_eventD(1) [OF assms] k] by blast
  with k assms show "build_audit_record p (dl_routing_key d) None t = Inr (audit_doc d t)"
    and "doc_id (audit_doc d t) = Some (PStr (event_id d))"
    and "py_getitem (audit_doc d t) ''message_id'' = Inr (PStr (event_id d))"
    by (simp_all add: audit_doc_def event_id_def)
qed

text \<open>
  The handler up to the acknowledgement: the event is logged and the outcome of the storage is
  swallowed, whatever it is.
\<close>

lemma handle_payload_run:
  assumes "delivery_event d = Some p" and "s1 = s\<lparr>nc_log := nc_log s @ [NotificationEvent rec]\<rparr>"
    and "fst (store_audit_record E (audit_doc d (ne_now E (nc_world s))) s1) \<noteq> Inl KeyboardInterrupt"
    and "build_log_record p (dl_routing_key d) = Inr rec"
  shows "\<exists>lg. handle_payload E d p s = on_world (ne_basic_ack E (dl_delivery_tag d))
     ((snd (store_audit_record E (audit_doc d (ne_now E (nc_world s))) s1))\<lparr>nc_log := lg\<rparr>)"
proof -
  obtain r s2 where st: "store_audit_record E (audit_doc d (ne_now E (nc_world s))) s1 = (r, s2)" by fastforce
  have "handle_payload E d p s = bind_prog (try_except (store_audit_record E (audit_doc d (ne_now E (nc_world s)))) (log_info PersistFailed))
      (\<lambda>_. on_world (ne_basic_ack E (dl_delivery_tag d))) s1"
    using assms(2,4) audit_doc_facts(1) [OF assms(1)] by (simp add: handle_payload_def bind_prog_def log_info_def)
  also have "\<exists>lg. \<dots> = on_world (ne_basic_ack E (dl_delivery_tag d)) (s2\<lparr>nc_log := lg\<rparr>)"
  proof (cases r)
    case (Inl e)
    then have "e \<noteq> KeyboardInterrupt" using assms(3) st by simp
    with Inl st show ?thesis by (auto simp: bind_prog_def try_except_def log_info_def)
  next
    case (Inr u)
    with st show ?thesis by (intro exI [of _ "nc_log s2"]) (simp add: bind_prog_def try_except_def)
  qed
  finally show ?thesis using st by simp
qed

context audit_consumer
begin

lemma handle_any:
  assumes "delivery_event d = Some p" and "ne_basic_ack E (dl_delivery_tag d) (nc_world s) = (r, w)"
  shows "\<exists>s'. handle_payload E d p s = (r, s') \<and> nc_world s' = w \<and>
     trail s' \<in> {trail s, record_once (event_id d) (audit_doc d (ne_now E (nc_world s))) (trail s)}"
proof -
  obtain rec where rec: "build_log_record p (dl_routing_key d) = Inr rec"
    using event_log_record delivery_eventD(1) [OF assms(1)] by blast
  let ?s1 = "s\<lparr>nc_log := nc_log s @ [NotificationEvent rec]\<rparr>" and ?doc = "audit_doc d (ne_now E (nc_world s))"
  note store = store_any [OF audit_doc_facts(3) [OF assms(1)], of "ne_now E (nc_world s)" ?s1]
  obtain lg where "handle_payload E d p s =
      on_world (ne_basic_ack E (dl_delivery_tag d)) ((snd (store_audit_record E ?doc ?s1))\<lparr>nc_log := lg\<rparr>)"
    using handle_payload_run [OF assms(1) refl _ rec, of E] store by blast
  then show ?thesis using assms(2) store by (auto simp: on_world_def)
qed

lemma handle_up:
  assumes "delivery_event d = Some p" and "ne_basic_ack E (dl_delivery_tag d) (nc_world s) = (r, w)"
    and "up (nc_mongo s)" and "unique_ids (trail s)" and "storable (audit_doc d (ne_now E (nc_world s)))"
  shows "\<exists>s'. handle_payload E d p s = (r, s') \<and> nc_world s' = w \<and> up (nc_mongo s') \<and> unique_ids (trail s') \<and>
     trail s' = record_once (event_id d) (audit_doc d (ne_now E (nc_world s))) (trail s)"
proof -
  obtain rec where rec: "build_log_record p (dl_routing_key d) = Inr rec"
    using event_log_record delivery_eventD(1) [OF assms(1)] by blast
  let ?s1 = "s\<lparr>nc_log := nc_log s @ [NotificationEvent rec]\<rparr>" and ?doc = "audit_doc d (ne_now E (nc_world s))"
  obtain s2 where s2: "store_audit_record E ?doc ?s1 = (Inr (), s2)" "up (nc_mongo s2)"
      "trail s2 = record_once (event_id d) ?doc (trail s)" "nc_world s2 = nc_world s"
    using store_up [OF audit_doc_facts(3) [OF assms(1)], of ?s1 "ne_now E (nc_world s)"] assms(3-5) by auto
  obtain lg where "handle_payload E d p s = on_world (ne_basic_ack E (dl_delivery_tag d)) (s2\<lparr>nc_log := lg\<rparr>)"
    using handle_payload_run [OF assms(1) refl _ rec, of E s] s2(1) by auto
  then show ?thesis
    using assms(2) s2 unique_record_once [OF assms(4) audit_doc_facts(2) [OF assms(1)]] by (auto simp: on_world_def)
qed

end

section \<open>The broker\<close>

text \<open>
  What the consumer relies on, for a broker that can be reached from the time \<open>until\<close> on: a connection
  before is refused; later the calls succeed, the queue is delivered in order, and a delivered
  message counts as unacknowledged until its tag is acknowledged. Once the queue is empty the
  operator stops the process.
\<close>

locale event_broker =
  fixes E :: "('w, 'm) notification_env"
    and until :: int
    and waiting :: "'w \<Rightarrow> delivery list"
    and unacked :: "'w \<Rightarrow> delivery list"
  assumes refused: "ne_now E w < until \<Longrightarrow>
      \<exists>w'. ne_amqp E (BlockingConnection ps) w = (Inl AMQPConnectionError, w') \<and> ne_now E w \<le> ne_now E w' \<and>
        waiting w' = waiting w \<and> unacked w' = unacked w"
    and accepted: "until \<le> ne_now E w \<Longrightarrow>
      \<exists>w'. ne_amqp E c w = (Inr (), w') \<and> ne_now E w \<le> ne_now E w' \<and> waiting w' = waiting w \<and> unacked w' = unacked w"
    and delivered: "until \<le> ne_now E w \<Longrightarrow> waiting w = d # ds \<Longrightarrow>
      \<exists>w'. ne_next E w = (Inr (Some d), w') \<and> ne_now E w \<le> ne_now E w' \<and> waiting w' = ds \<and> unacked w' = unacked w @ [d]"
    and stopped: "until \<le> ne_now E w \<Longrightarrow> waiting w = [] \<Longrightarrow>
      \<exists>w'. ne_next E w = (Inl KeyboardInterrupt, w') \<and> waiting w' = [] \<and> unacked w' = unacked w"
    and acked: "until \<le> ne_now E w \<Longrightarrow>
      \<exists>w'. ne_basic_ack E tag w = (Inr (), w') \<and> ne_now E w \<le> ne_now E w' \<and> waiting w' = waiting w \<and>
        unacked w' = filter (\<lambda>d. dl_delivery_tag d \<noteq> tag) (unacked w)"
    and slept: "0 \<le> n \<Longrightarrow>
      \<exists>w'. ne_sleep E n w = (Inr (), w') \<and> ne_now E w + n * 1000000 \<le> ne_now E w' \<and> waiting w' = waiting w \<and>
        unacked w' = unacked w"
begin

definition reachable :: "('w, 'm) consumer_state \<Rightarrow> bool" where
  "reachable s \<longleftrightarrow> until \<le> ne_now E (nc_world s)"

text \<open>Steps that keep the queue, the database and a reachable broker.\<close>

definition quiet :: "('w, 'm) consumer_state \<Rightarrow> ('w, 'm) consumer_state \<Rightarrow> bool" where
  "quiet s s' \<longleftrightarrow> (reachable s \<longrightarrow> reachable s') \<and> nc_mongo s' = nc_mongo s \<and>
     waiting (nc_world s') = waiting (nc_world s) \<and> unacked (nc_world s') = unacked (nc_world s)"

lemma quiet_trans: "quiet s t \<Longrightarrow> quiet t u \<Longrightarrow> quiet s u"
  by (auto simp: quiet_def)

definition passes :: "(('w, 'm) consumer_state, unit) prog \<Rightarrow> bool" where
  "passes m \<longleftrightarrow> (\<forall>s. reachable s \<longrightarrow> (\<exists>s'. m s = (Inr (), s') \<and> quiet s s'))"

lemma passes_bind: "passes m \<Longrightarrow> passes n \<Longrightarrow> passes (bind_prog m (\<lambda>_. n))"
  unfolding passes_def by (metis bind_prog_Inr quiet_def quiet_trans)

lemma passes_basic: "passes (return_prog ())" "passes (log_info e)" "passes (on_world (ne_amqp E c))"
proof -
  show "passes (on_world (ne_amqp E c))"
    using accepted [of _ c] by (fastforce simp: passes_def on_world_def quiet_def reachable_def)
qed (simp_all add: passes_def quiet_def log_info_def reachable_def)

lemma passes_binds: "passes (bind_queues E keys)"
proof (induction keys)
  case Nil
  show ?case unfolding bind_queues.simps by (rule passes_basic)
next
  case (Cons key keys)
  then show ?case unfolding bind_queues.simps by (intro passes_bind passes_basic)
qed

lemma opens: "passes (open_consumer E)"
  unfolding open_consumer_def Let_def by (intro passes_bind passes_basic passes_binds)

lemma open_refused:
  assumes "\<not> reachable s"
  shows "\<exists>s'. open_consumer E s = (Inl AMQPConnectionError, s') \<and> quiet s s' \<and> ne_now E (nc_world s) \<le> ne_now E (nc_world s')"
  using refused [of "nc_world s" "build_connection_parameters (ne_settings E)"] assms
  by (auto simp: open_consumer_def Let_def on_world_def bind_prog_def quiet_def reachable_def not_le)

lemma retries:
  assumes "0 \<le> nt_reconnect_seconds (ne_settings E)"
  shows "\<exists>s'. wait_and_retry E s = (Inr (), s') \<and> quiet s s' \<and>
     ne_now E (nc_world s) + nt_reconnect_seconds (ne_settings E) * 1000000 \<le> ne_now E (nc_world s')"
  using slept [OF assms, of "nc_world s"] assms
  by (auto simp: wait_and_retry_def bind_prog_def log_info_def on_world_def quiet_def reachable_def)

lemma invalid_body_raises:
  assumes "reachable s" and "waiting (nc_world s) = d # ds" and "unacked (nc_world s) = us"
    and "loads_body (dl_body d) = Some (Inl e)"
  shows "\<exists>s'. consume_once E (Suc n) s = Some (Inl e, s') \<and> waiting (nc_world s') = ds \<and> unacked (nc_world s') = us @ [d]"
proof -
  obtain s1 where s1: "open_consumer E s = (Inr (), s1)" "quiet s s1"
    using opens assms(1) by (auto simp: passes_def)
  obtain w where w: "ne_next E (nc_world s1) = (Inr (Some d), w)" "waiting w = ds" "unacked w = us @ [d]"
    using delivered [of "nc_world s1" d ds] s1(2) assms(1-3) by (auto simp: quiet_def reachable_def)
  have "on_message E d = Some (\<lambda>s. (Inl e, s))"
    using assms(4) by (simp add: on_message_def bind_prog_def fun_eq_iff)
  with s1(1) w show ?thesis by (simp add: consume_once_def on_world_def)
qed

end

text \<open>The trail of a list of deliveries with the times of their consumption.\<close>

definition event_trail :: "(delivery \<times> int) list \<Rightarrow> pyval list \<Rightarrow> pyval list" where
  "event_trail = fold (\<lambda>(d, t). record_once (event_id d) (audit_doc d t))"

definition recordable :: "(pyval \<Rightarrow> bool) \<Rightarrow> delivery \<Rightarrow> bool" where
  "recordable storable d \<longleftrightarrow> delivery_event d \<noteq> None \<and> (\<forall>t. storable (audit_doc d t))"

locale event_consumer = audit_consumer E D docs up storable + event_broker E until waiting unacked
  for E :: "('w, 'm) notification_env" and D docs up storable until waiting unacked
begin

definition ready :: "('w, 'm) consumer_state \<Rightarrow> bool" where
  "ready s \<longleftrightarrow> up (nc_mongo s) \<and> unique_ids (trail s) \<and> unacked (nc_world s) = [] \<and>
     (\<forall>d \<in> set (waiting (nc_world s)). recordable storable d)"

lemma ready_quiet: "ready s \<Longrightarrow> quiet s s' \<Longrightarrow> ready s'"
  by (simp add: ready_def quiet_def)

lemma consumes_one:
  assumes "reachable s" and "ready s" and "waiting (nc_world s) = d # ds"
  shows "\<exists>s' t. start_consuming E (Suc n) s = start_consuming E n s' \<and> reachable s' \<and> ready s' \<and> waiting (nc_world s') = ds \<and>
     trail s' = record_once (event_id d) (audit_doc d t) (trail s)"
proof -
  obtain w where w: "ne_next E (nc_world s) = (Inr (Some d), w)" "until \<le> ne_now E w" "waiting w = ds" "unacked w = [d]"
    using delivered [of "nc_world s" d ds] assms by (fastforce simp: reachable_def ready_def)
  obtain w' where w': "ne_basic_ack E (dl_delivery_tag d) w = (Inr (), w')" "until \<le> ne_now E w'" "waiting w' = ds" "unacked w' = []"
    using acked [OF w(2), of "dl_delivery_tag d"] w by fastforce
  obtain p where p: "delivery_event d = Some p" "\<forall>t. storable (audit_doc d t)"
    using assms(2,3) by (auto simp: ready_def recordable_def)
  obtain s' where s': "handle_payload E d p (s\<lparr>nc_world := w\<rparr>) = (Inr (), s')" "nc_world s' = w'" "up (nc_mongo s')"
      "unique_ids (trail s')" "trail s' = record_once (event_id d) (audit_doc d (ne_now E w)) (trail s)"
    using handle_up [OF p(1), of "s\<lparr>nc_world := w\<rparr>" "Inr ()" w'] w' p(2) assms(2) by (auto simp: ready_def)
  have "start_consuming E (Suc n) s = start_consuming E n s'"
    using w(1) s'(1) delivery_eventD(2) [OF p(1), of E] by (simp add: on_world_def)
  then show ?thesis
    using s' w' assms(2,3) by (auto simp: reachable_def ready_def)
qed

lemma consumes_all:
  assumes "reachable s" and "ready s"
  shows "\<exists>s' ts. start_consuming E (Suc (length (waiting (nc_world s)) + j)) s = Some (Inl KeyboardInterrupt, s') \<and>
     waiting (nc_world s') = [] \<and> unacked (nc_world s') = [] \<and> length ts = length (waiting (nc_world s)) \<and>
     trail s' = event_trail (zip (waiting (nc_world s)) ts) (trail s)"
  using assms
proof (induction "waiting (nc_world s)" arbitrary: s)
  case Nil
  obtain w where "ne_next E (nc_world s) = (Inl KeyboardInterrupt, w)" "waiting w = []" "unacked w = []"
    using stopped [of "nc_world s"] Nil by (auto simp: reachable_def ready_def)
  with Nil(1) show ?case by (auto simp: on_world_def event_trail_def)
next
  case (Cons d ds)
  obtain s1 t where s1: "start_consuming E (Suc (Suc (length ds + j))) s = start_consuming E (Suc (length ds + j)) s1" "reachable s1" "ready s1"
      "waiting (nc_world s1) = ds" "trail s1 = record_once (event_id d) (audit_doc d t) (trail s)"
    using consumes_one [OF Cons.prems Cons.hyps(2) [symmetric]] by blast
  obtain s' ts where "start_consuming E (Suc (length ds + j)) s1 = Some (Inl KeyboardInterrupt, s')"
      "waiting (nc_world s') = []" "unacked (nc_world s') = []" "length ts = length ds" "trail s' = event_trail (zip ds ts) (trail s1)"
    using Cons.hyps(1) [OF s1(4) [symmetric] s1(2,3)] s1(4) by auto
  with s1 have "start_consuming E (Suc (length (d # ds) + j)) s = Some (Inl KeyboardInterrupt, s') \<and>
     waiting (nc_world s') = [] \<and> unacked (nc_world s') = [] \<and> length (t # ts) = length (d # ds) \<and>
     trail s' = event_trail (zip (d # ds) (t # ts)) (trail s)"
    by (simp add: event_trail_def)
  then show ?case unfolding Cons.hyps(2) [symmetric] by blast
qed

lemma consumes_once:
  assumes "reachable s" and "ready s"
  shows "\<exists>s' ts. consume_once E (Suc (length (waiting (nc_world s)) + j)) s = Some (Inl KeyboardInterrupt, s') \<and>
     waiting (nc_world s') = [] \<and> unacked (nc_world s') = [] \<and> length ts = length (waiting (nc_world s)) \<and>
     trail s' = event_trail (zip (waiting (nc_world s)) ts) (trail s)"
proof -
  obtain s1 where s1: "open_consumer E s = (Inr (), s1)" "quiet s s1"
    using opens assms(1) by (auto simp: passes_def)
  then have "reachable s1" "ready s1" using assms ready_quiet by (auto simp: quiet_def)
  note all = consumes_all [OF this, of j]
  have "consume_once E n s = start_consuming E n s1" for n using s1(1) by (simp add: consume_once_def)
  moreover have "waiting (nc_world s1) = waiting (nc_world s)" "trail s1 = trail s" using s1(2) by (simp_all add: quiet_def)
  ultimately show ?thesis using all by (simp only:)
qed

text \<open>Every retry costs a connection attempt and brings the end of the outage closer.\<close>

lemma consumes_after_outage:
  assumes "until \<le> ne_now E (nc_world s) + int k * (nt_reconnect_seconds (ne_settings E) * 1000000)"
    and "0 \<le> nt_reconnect_seconds (ne_settings E)" and "ready s"
  shows "\<exists>s' ts. consume_forever E (Suc (length (waiting (nc_world s)) + k)) s = Some (Inr (), s') \<and>
     waiting (nc_world s') = [] \<and> unacked (nc_world s') = [] \<and> length ts = length (waiting (nc_world s)) \<and>
     trail s' = event_trail (zip (waiting (nc_world s)) ts) (trail s)"
  using assms
proof (induction k arbitrary: s)
  case 0
  then have "reachable s" by (simp add: reachable_def)
  from consumes_once [OF this 0(3), of 0] show ?case by (auto simp: log_info_def)
next
  case (Suc k)
  show ?case
  proof (cases "reachable s")
    case True
    from consumes_once [OF this Suc.prems(3), of "Suc k"] show ?thesis by (auto simp: log_info_def)
  next
    case False
    obtain s1 where s1: "open_consumer E s = (Inl AMQPConnectionError, s1)" "quiet s s1" "ne_now E (nc_world s) \<le> ne_now E (nc_world s1)"
      using open_refused [OF False] by blast
    obtain s2 where s2: "wait_and_retry E s1 = (Inr (), s2)" "quiet s1 s2"
        "ne_now E (nc_world s1) + nt_reconnect_seconds (ne_settings E) * 1000000 \<le> ne_now E (nc_world s2)"
      using retries [OF Suc.prems(2)] by blast
    have q: "quiet s s2" using s1(2) s2(2) quiet_trans by blast
    have "until \<le> ne_now E (nc_world s2) + int k * (nt_reconnect_seconds (ne_settings E) * 1000000)"
      using Suc.prems(1) s1(3) s2(3) by (simp add: algebra_simps)
    note later = Suc.IH [OF this Suc.prems(2) ready_quiet [OF Suc.prems(3) q]]
    have "consume_forever E (Suc n) s = consume_forever E n s2" for n
      using s1(1) s2(1) by (simp add: consume_once_def)
    moreover have "waiting (nc_world s2) = waiting (nc_world s)" "trail s2 = trail s" using q by (simp_all add: quiet_def)
    ultimately show ?thesis using later by (simp only: add_Suc_right)
  qed
qed

end

section \<open>What a trail records\<close>

lemma record_once_facts:
  assumes "doc_id doc = Some (PStr k)"
  shows "Some (PStr k) \<in> set (map doc_id (record_once k doc docs))"
    and "\<exists>new. record_once k doc docs = docs @ new"
  using assms by (auto simp: record_once_def)

lemma event_trail_records:
  assumes "length ts = length ds" and "\<forall>d \<in> set ds. delivery_event d \<noteq> None" and "unique_ids docs"
  shows "unique_ids (event_trail (zip ds ts) docs) \<and> (\<exists>new. event_trail (zip ds ts) docs = docs @ new) \<and>
     (\<forall>d \<in> set ds. Some (PStr (event_id d)) \<in> set (map doc_id (event_trail (zip ds ts) docs)))"
  using assms
proof (induction ts ds arbitrary: docs rule: list_induct2)
  case Nil
  then show ?case by (simp add: event_trail_def)
next
  case (Cons t ts d ds)
  have id: "doc_id (audit_doc d t) = Some (PStr (event_id d))"
    using audit_doc_facts(2) Cons.prems(1) by auto
  let ?docs = "record_once (event_id d) (audit_doc d t) docs"
  have tr: "event_trail (zip (d # ds) (t # ts)) docs = event_trail (zip ds ts) ?docs" by (simp add: event_trail_def)
  from Cons.IH [of ?docs] Cons.prems unique_record_once [OF _ id]
  have "unique_ids (event_trail (zip ds ts) ?docs)" "\<exists>new. event_trail (zip ds ts) ?docs = ?docs @ new"
    "\<forall>d \<in> set ds. Some (PStr (event_id d)) \<in> set (map doc_id (event_trail (zip ds ts) ?docs))" by auto
  then show ?case using record_once_facts [OF id, of docs] unfolding tr by auto
qed

section \<open>The service\<close>

text \<open>
  C8: With a reachable MongoDB, handling a valid order event is a step of the abstract audit
  trail: the document of the event is added unless its message id is already recorded, ids stay
  unique, and the message is acknowledged.
\<close>

theorem on_message_records_once:
  assumes "audit_consumer E D docs up storable" and "recordable storable d"
    and "up (nc_mongo s)" and "unique_ids (docs (nc_mongo s))"
    and "ne_basic_ack E (dl_delivery_tag d) (nc_world s) = (Inr (), w)"
  shows "\<exists>run s'. on_message E d = Some run \<and> run s = (Inr (), s') \<and> nc_world s' = w \<and> up (nc_mongo s') \<and>
     docs (nc_mongo s') = record_once (event_id d) (audit_doc d (ne_now E (nc_world s))) (docs (nc_mongo s)) \<and>
     unique_ids (docs (nc_mongo s'))"
proof -
  obtain p where p: "delivery_event d = Some p" "storable (audit_doc d (ne_now E (nc_world s)))"
    using assms(2) by (auto simp: recordable_def)
  from audit_consumer.handle_up [OF assms(1) p(1) assms(5,3,4) p(2)] delivery_eventD(2) [OF p(1), of E]
  show ?thesis by auto
qed

text \<open>
  C36: A valid event is acknowledged exactly once even when MongoDB fails at any point; the
  trail then gains its document or stays as it was, and a redelivery of a recorded event never
  changes the trail.
\<close>

theorem message_acknowledged_whatever_the_store_does:
  assumes "audit_consumer E D docs up storable" and "delivery_event d \<noteq> None"
    and "ne_basic_ack E (dl_delivery_tag d) (nc_world s) = (r, w)"
  shows "\<exists>run s'. on_message E d = Some run \<and> run s = (r, s') \<and> nc_world s' = w \<and>
     docs (nc_mongo s') \<in> {docs (nc_mongo s), record_once (event_id d) (audit_doc d (ne_now E (nc_world s))) (docs (nc_mongo s))} \<and>
     (Some (PStr (event_id d)) \<in> set (map doc_id (docs (nc_mongo s))) \<longrightarrow> docs (nc_mongo s') = docs (nc_mongo s))"
proof -
  obtain p where p: "delivery_event d = Some p" using assms(2) by blast
  have "Some (PStr (event_id d)) \<in> set (map doc_id (docs (nc_mongo s))) \<Longrightarrow> record_once (event_id d) doc (docs (nc_mongo s)) = docs (nc_mongo s)"
    for doc by (simp add: record_once_def)
  with audit_consumer.handle_any [OF assms(1) p assms(3)] delivery_eventD(2) [OF p, of E]
  show ?thesis by auto
qed

text \<open>
  C15: When RabbitMQ is away for any time and then delivers a queue of valid events,
  consume_forever reconnects, records every event of the queue exactly once, acknowledges all of
  them and returns when it is interrupted.
\<close>

theorem outage_is_survived:
  assumes "event_consumer E D docs up storable until waiting unacked"
    and "0 < nt_reconnect_seconds (ne_settings E)"
    and "up (nc_mongo s)" and "unique_ids (docs (nc_mongo s))" and "unacked (nc_world s) = []"
    and "ds = waiting (nc_world s)" and "\<forall>d \<in> set ds. recordable storable d"
  shows "\<exists>n s' ts. consume_forever E n s = Some (Inr (), s') \<and> waiting (nc_world s') = [] \<and> unacked (nc_world s') = [] \<and>
     length ts = length ds \<and> docs (nc_mongo s') = event_trail (zip ds ts) (docs (nc_mongo s)) \<and> unique_ids (docs (nc_mongo s')) \<and>
     (\<exists>new. docs (nc_mongo s') = docs (nc_mongo s) @ new) \<and>
     (\<forall>d \<in> set ds. Some (PStr (event_id d)) \<in> set (map doc_id (docs (nc_mongo s'))))"
proof -
  define k where "k = nat (until - ne_now E (nc_world s))"
  have "int k * 1 \<le> int k * (nt_reconnect_seconds (ne_settings E) * 1000000)"
    using assms(2) by (intro mult_left_mono) linarith+
  moreover have "until - ne_now E (nc_world s) \<le> int k" by (simp add: k_def)
  ultimately have k: "until \<le> ne_now E (nc_world s) + int k * (nt_reconnect_seconds (ne_settings E) * 1000000)"
    by linarith
  have "event_consumer.ready docs up storable waiting unacked s"
    using assms by (simp add: event_consumer.ready_def)
  from event_consumer.consumes_after_outage [OF assms(1) k _ this]
  obtain s' ts where run: "consume_forever E (Suc (length ds + k)) s = Some (Inr (), s')"
    "waiting (nc_world s') = []" "unacked (nc_world s') = []" "length ts = length ds"
    "docs (nc_mongo s') = event_trail (zip ds ts) (docs (nc_mongo s))"
    using assms(2,6) by auto
  moreover have "\<forall>d \<in> set ds. delivery_event d \<noteq> None" using assms(7) by (simp add: recordable_def)
  ultimately show ?thesis using event_trail_records [OF run(4) _ assms(4)] by metis
qed

text \<open>
  C37: A message whose body is not UTF-8 or not JSON ends consume_forever with that exception:
  the message stays unacknowledged and the rest of the queue is not consumed.
\<close>

theorem invalid_body_stops_consumer:
  assumes "event_broker E until waiting unacked" and "until \<le> ne_now E (nc_world s)"
    and "waiting (nc_world s) = d # ds" and "loads_body (dl_body d) = Some (Inl e)"
  shows "\<exists>s'. consume_forever E (Suc n) s = Some (Inl e, s') \<and> waiting (nc_world s') = ds \<and>
     unacked (nc_world s') = unacked (nc_world s) @ [d] \<and> e \<in> {UnicodeDecodeError, JSONDecodeError}"
proof -
  have e: "e \<in> {UnicodeDecodeError, JSONDecodeError}"
    using assms(4) by (auto simp: loads_body_def split: option.splits if_splits)
  moreover have "event_broker.reachable E until s"
    using assms(1,2) by (simp add: event_broker.reachable_def)
  ultimately show ?thesis
    using event_broker.invalid_body_raises [OF assms(1) _ assms(3) refl assms(4), of n] by auto
qed

theorem index_creation_is_not_retried:
  assumes "nt_mongo_enabled (ne_settings E)" and "ne_pymongo E = Some D" and "\<not> nc_audit_collection s"
    and "md_client D (nt_mongo_uri (ne_settings E)) (nt_mongo_timeout_ms (ne_settings E)) (nc_mongo s) = (Inr (), m1)"
    and "md_create_index D (audit_names (ne_settings E)) ''message_id'' True m1 = (Inl e, m2)"
  shows "\<exists>s'. get_audit_collection E s = (Inl e, s') \<and> nc_mongo s' = m2 \<and>
     get_audit_collection E s' = (Inr (Some (D, audit_names (ne_settings E))), s')"
  using assms by (simp add: get_audit_collection_def Let_def bind_prog_def on_mongo_def)

section \<open>A reference world\<close>

record ref_mongo =
  rm_docs :: "pyval list"
  rm_up :: bool

definition ref_upsert :: "pyval \<Rightarrow> pyval \<Rightarrow> (ref_mongo, unit) prog" where
  "ref_upsert sel upd m =
     (if \<not> rm_up m then (Inl PyMongoError, m)
      else (case (sel, upd) of
              (PDict [(_, PStr k)], PDict [(_, doc)]) \<Rightarrow> (Inr (), m\<lparr>rm_docs := record_once k doc (rm_docs m)\<rparr>)
            | _ \<Rightarrow> (Inl PyMongoError, m)))"

definition ref_driver :: "ref_mongo mongo_driver" where
  "ref_driver =
     \<lparr>md_client = (\<lambda>uri ms m. (Inr (), m)),
      md_create_index = (\<lambda>names field uniq m.
         if rm_up m \<and> unique_ids (rm_docs m) then (Inr (), m) else (Inl PyMongoError, m)),
      md_update_one = (\<lambda>names sel upd ups. ref_upsert sel upd)\<rparr>"

record ref_world =
  rw_now :: int
  rw_waiting :: "delivery list"
  rw_unacked :: "delivery list"

text \<open>The broker of this world comes up twelve seconds after the epoch.\<close>

abbreviation rw_until :: int where "rw_until \<equiv> 12000000"

definition rw_call :: "amqp_call \<Rightarrow> (ref_world, unit) prog" where
  "rw_call c w = (if rw_now w < rw_until then (Inl AMQPConnectionError, w) else (Inr (), w))"

definition rw_next :: "(ref_world, delivery option) prog" where
  "rw_next w =
     (case rw_waiting w of
        [] \<Rightarrow> (Inl KeyboardInterrupt, w)
      | d # ds \<Rightarrow> (Inr (Some d), w\<lparr>rw_waiting := ds, rw_unacked := rw_unacked w @ [d]\<rparr>))"

definition rw_ack :: "int \<Rightarrow> (ref_world, unit) prog" where
  "rw_ack tag w = (Inr (), w\<lparr>rw_unacked := filter (\<lambda>d. dl_delivery_tag d \<noteq> tag) (rw_unacked w)\<rparr>)"

definition rw_sleep :: "int \<Rightarrow> (ref_world, unit) prog" where
  "rw_sleep n w = (if n < 0 then (Inl ValueError, w) else (Inr (), w\<lparr>rw_now := rw_now w + n * 1000000\<rparr>))"

definition ref_settings :: notification_settings where
  "ref_settings =
     (case load_settings [''NOTIFICATION_SERVICE_MONGO_ENABLED'' \<mapsto> ''True''] of
        Inr st \<Rightarrow> st)"

definition ref_notification_env :: "(ref_world, ref_mongo) notification_env" where
  "ref_notification_env =
     \<lparr>ne_settings = ref_settings, ne_pymongo = Some ref_driver, ne_amqp = rw_call, ne_next = rw_next,
      ne_basic_ack = rw_ack, ne_sleep = rw_sleep, ne_now = rw_now\<rparr>"

lemma ref_settings_facts: "nt_mongo_enabled ref_settings" "nt_reconnect_seconds ref_settings = 5"
proof -
  have "int_of_str ''5672'' = Some 5672" "int_of_str ''5'' = Some 5" "int_of_str ''3000'' = Some 3000" "lower_str ''True'' = ''true''"
    by code_simp+
  then show "nt_mongo_enabled ref_settings" "nt_reconnect_seconds ref_settings = 5"
    by (simp_all add: ref_settings_def load_settings_def getenv_int_def getenv_def)
qed

interpretation ref_nc: event_consumer ref_notification_env ref_driver rm_docs rm_up "\<lambda>_. True" rw_until rw_waiting rw_unacked
  by unfold_locales
    (auto simp: ref_driver_def ref_upsert_def ref_notification_env_def ref_settings_facts rw_call_def rw_next_def rw_ack_def rw_sleep_def
      split: prod.splits if_splits pyval.splits list.splits)

definition created_event :: delivery where
  "created_event =
     \<lparr>dl_delivery_tag = 1, dl_routing_key = ''order.created'',
      dl_body = map of_char (json_text (PDict [(''messageId'', PStr ''m-1''), (''orderNo'', PStr ''ORD-1''),
                                              (''occurredAt'', PInt 1774964218)]))\<rparr>"

definition broken_event :: delivery where
  "broken_event = \<lparr>dl_delivery_tag = 2, dl_routing_key = ''order.created'', dl_body = map of_char ''{broken''\<rparr>"

definition ref_consumer :: "int \<Rightarrow> delivery list \<Rightarrow> bool \<Rightarrow> (ref_world, ref_mongo) consumer_state" where
  "ref_consumer t ds b =
     \<lparr>nc_mongo_client = False, nc_audit_collection = False, nc_log = [],
      nc_world = \<lparr>rw_now = t, rw_waiting = ds, rw_unacked = []\<rparr>, nc_mongo = \<lparr>rm_docs = [], rm_up = b\<rparr>\<rparr>"

lemma created_event_facts: "delivery_event created_event \<noteq> None" "event_id created_event = ''m-1''"
  by code_simp+

lemma broken_event_body: "loads_body (dl_body broken_event) = Some (Inl JSONDecodeError)"
  by code_simp

theorem on_message_records_once_witness:
  "\<exists>run s'. on_message ref_notification_env created_event = Some run \<and> run (ref_consumer 0 [] True) = (Inr (), s') \<and>
     rm_docs (nc_mongo s') = [audit_doc created_event 0]"
proof -
  obtain run s' where "on_message ref_notification_env created_event = Some run" "run (ref_consumer 0 [] True) = (Inr (), s')"
    "rm_docs (nc_mongo s') = record_once (event_id created_event)
       (audit_doc created_event (ne_now ref_notification_env (nc_world (ref_consumer 0 [] True)))) (rm_docs (nc_mongo (ref_consumer 0 [] True)))"
    using on_message_records_once [OF ref_nc.audit_consumer_axioms, of created_event "ref_consumer 0 [] True"] created_event_facts
    by (auto simp: recordable_def ref_consumer_def unique_ids_def ref_notification_env_def rw_ack_def)
  then show ?thesis by (auto simp: record_once_def ref_consumer_def ref_notification_env_def)
qed

theorem message_acknowledged_witness:
  "\<exists>run s'. on_message ref_notification_env created_event = Some run \<and>
     run (ref_consumer 0 [] False) = (Inr (), s')"
proof -
  obtain w where "ne_basic_ack ref_notification_env (dl_delivery_tag created_event) (nc_world (ref_consumer 0 [] False)) = (Inr (), w)"
    by (simp add: ref_notification_env_def rw_ack_def)
  from message_acknowledged_whatever_the_store_does [OF ref_nc.audit_consumer_axioms created_event_facts(1) this]
  show ?thesis by blast
qed

theorem outage_is_survived_witness:
  "\<exists>n s'. consume_forever ref_notification_env n (ref_consumer 0 [created_event, created_event] True) = Some (Inr (), s') \<and>
     Some (PStr ''m-1'') \<in> set (map doc_id (rm_docs (nc_mongo s')))"
proof -
  let ?s = "ref_consumer 0 [created_event, created_event] True"
  have w: "rw_waiting (nc_world ?s) = [created_event, created_event]" by (simp add: ref_consumer_def)
  have "\<forall>d \<in> set (rw_waiting (nc_world ?s)). recordable (\<lambda>_. True) d"
    using created_event_facts(1) by (simp add: w recordable_def)
  from outage_is_survived [OF ref_nc.event_consumer_axioms _ _ _ _ refl this] created_event_facts(2) w
  show ?thesis by (fastforce simp: ref_consumer_def unique_ids_def ref_notification_env_def ref_settings_facts)
qed

theorem invalid_body_witness:
  "\<exists>s'. consume_forever ref_notification_env 1 (ref_consumer 20000000 [broken_event, created_event] True) = Some (Inl JSONDecodeError, s') \<and>
     rw_unacked (nc_world s') = [broken_event]"
proof -
  let ?s = "ref_consumer 20000000 [broken_event, created_event] True"
  have "rw_until \<le> ne_now ref_notification_env (nc_world ?s)" "rw_waiting (nc_world ?s) = [broken_event, created_event]"
    by (simp_all add: ref_consumer_def ref_notification_env_def)
  from invalid_body_stops_consumer [OF ref_nc.event_broker_axioms this broken_event_body, of 0]
  show ?thesis by (auto simp: ref_consumer_def)
qed

theorem index_not_retried_witness:
  "\<exists>s'. get_audit_collection ref_notification_env (ref_consumer 0 [] False) = (Inl PyMongoError, s') \<and>
     fst (get_audit_collection ref_notification_env s') = Inr (Some (ref_driver, audit_names ref_settings))"
proof -
  have s: "ne_settings ref_notification_env = ref_settings" "ne_pymongo ref_notification_env = Some ref_driver"
    by (simp_all add: ref_notification_env_def)
  have "\<exists>s'. get_audit_collection ref_notification_env (ref_consumer 0 [] False) = (Inl PyMongoError, s') \<and>
      nc_mongo s' = \<lparr>rm_docs = [], rm_up = False\<rparr> \<and>
      get_audit_collection ref_notification_env s' = (Inr (Some (ref_driver, audit_names (ne_settings ref_notification_env))), s')"
    by (rule index_creation_is_not_retried [where ?m1.0 = "\<lparr>rm_docs = [], rm_up = False\<rparr>"])
      (simp_all add: s ref_settings_facts ref_consumer_def ref_driver_def)
  then show ?thesis by (auto simp: s)
qed

end
