(* ===== verification/Py_Values.thy ===== *)
theory Py_Values
  imports Py_Time Py_Decimal
begin

text \<open>
  Operations of Python on values that come from \<^verbatim>\<open>json.loads\<close>, as the smoke-test scripts use them:
  \<^verbatim>\<open>==\<close>, \<^verbatim>\<open>len\<close>, indexing, slicing, iteration, \<^verbatim>\<open>.get\<close>, sets, \<^verbatim>\<open>sorted\<close>, \<^verbatim>\<open>json.dumps\<close> and \<^verbatim>\<open>float(str)\<close>.
  There are no decimals and datetimes among these values. The main result is that \<^verbatim>\<open>==\<close> against a
  string is equality of strings, and that printing agrees with \<open>json_text\<close> on the values without floats.
\<close>

section \<open>Equality and order\<close>

text \<open>A number as \<open>m * 2 ^ e\<close>; booleans are numbers.\<close>

fun py_number :: "pyval \<Rightarrow> (int \<times> int) option" where
  "py_number (PBool b) = Some (if b then 1 else 0, 0)"
| "py_number (PInt i) = Some (i, 0)"
| "py_number (PFloat m e) = Some (m, e)"
| "py_number _ = None"

text \<open>Both numbers over the smaller of the two exponents.\<close>

definition number_le :: "int \<times> int \<Rightarrow> int \<times> int \<Rightarrow> bool" where
  "number_le a b =
     (let e = min (snd a) (snd b)
      in fst a * 2 ^ nat (snd a - e) \<le> fst b * 2 ^ nat (snd b - e))"

definition number_eq :: "int \<times> int \<Rightarrow> int \<times> int \<Rightarrow> bool" where
  "number_eq a b \<longleftrightarrow> number_le a b \<and> number_le b a"

text \<open>\<^verbatim>\<open>v == w\<close>: dictionaries are equal when they bind the same keys to equal values, in any order.\<close>

fun py_eq :: "pyval \<Rightarrow> pyval \<Rightarrow> bool"
  and py_eq_list :: "pyval list \<Rightarrow> pyval list \<Rightarrow> bool"
  and py_eq_items :: "(string \<times> pyval) list \<Rightarrow> (string \<times> pyval) list \<Rightarrow> bool" where
  "py_eq (PList vs) (PList ws) = py_eq_list vs ws"
| "py_eq (PDict kvs) (PDict kws) = (length kvs = length kws \<and> py_eq_items kvs kws)"
| "py_eq v w =
     (case (py_number v, py_number w) of
        (Some a, Some b) \<Rightarrow> number_eq a b
      | _ \<Rightarrow> v = w)"
| "py_eq_list [] [] = True"
| "py_eq_list (v # vs) (w # ws) = (py_eq v w \<and> py_eq_list vs ws)"
| "py_eq_list _ _ = False"
| "py_eq_items [] kws = True"
| "py_eq_items ((k, v) # kvs) kws =
     ((case map_of kws k of None \<Rightarrow> False | Some w \<Rightarrow> py_eq v w) \<and> py_eq_items kvs kws)"

fun str_le :: "string \<Rightarrow> string \<Rightarrow> bool" where
  "str_le [] t = True"
| "str_le (c # s) [] = False"
| "str_le (c # s) (d # t) =
     ((of_char c :: int) < of_char d \<or> c = d \<and> str_le s t)"

text \<open>\<^verbatim>\<open>v <= w\<close> on values that can be compared: two numbers or two strings.\<close>

definition py_le :: "pyval \<Rightarrow> pyval \<Rightarrow> bool" where
  "py_le v w =
     (case (v, w) of
        (PStr s, PStr t) \<Rightarrow> str_le s t
      | _ \<Rightarrow> (case (py_number v, py_number w) of (Some a, Some b) \<Rightarrow> number_le a b | _ \<Rightarrow> False))"

definition is_str_value :: "pyval \<Rightarrow> bool" where
  "is_str_value v = (case v of PStr _ \<Rightarrow> True | _ \<Rightarrow> False)"

section \<open>Containers\<close>

fun py_len :: "pyval \<Rightarrow> int res" where
  "py_len (PList vs) = Inr (int (length vs))"
| "py_len (PDict kvs) = Inr (int (length kvs))"
| "py_len (PStr s) = Inr (int (length s))"
| "py_len _ = Inl TypeError"

text \<open>\<^verbatim>\<open>v[0]\<close>: a dictionary of JSON has no integer keys.\<close>

fun py_first :: "pyval \<Rightarrow> pyval res" where
  "py_first (PList vs) = (case vs of [] \<Rightarrow> Inl IndexError | v # _ \<Rightarrow> Inr v)"
| "py_first (PStr s) = (case s of [] \<Rightarrow> Inl IndexError | c # _ \<Rightarrow> Inr (PStr [c]))"
| "py_first (PDict kvs) = Inl (KeyErrorOf ''0'')"
| "py_first _ = Inl TypeError"

text \<open>\<^verbatim>\<open>v[:n]\<close>; a slice is a key that no dictionary of JSON has.\<close>

fun py_prefix :: "nat \<Rightarrow> pyval \<Rightarrow> pyval res" where
  "py_prefix n (PList vs) = Inr (PList (take n vs))"
| "py_prefix n (PStr s) = Inr (PStr (take n s))"
| "py_prefix n (PDict kvs) = Inl (KeyErrorOf (''slice(None, '' @ int_str (int n) @ '', None)''))"
| "py_prefix n _ = Inl TypeError"

text \<open>The values that \<^verbatim>\<open>for item in v\<close> goes through.\<close>

fun py_iter :: "pyval \<Rightarrow> pyval list res" where
  "py_iter (PList vs) = Inr vs"
| "py_iter (PStr s) = Inr (map (\<lambda>c. PStr [c]) s)"
| "py_iter (PDict kvs) = Inr (map (\<lambda>kv. PStr (fst kv)) kvs)"
| "py_iter _ = Inl TypeError"

text \<open>\<^verbatim>\<open>v.get(key)\<close>.\<close>

fun py_get :: "pyval \<Rightarrow> string \<Rightarrow> pyval res" where
  "py_get (PDict kvs) key = Inr (case map_of kvs key of None \<Rightarrow> PNone | Some v \<Rightarrow> v)"
| "py_get _ key = Inl AttributeError"

text \<open>A comprehension over \<open>vs\<close> whose element expression is \<open>f\<close>.\<close>

fun map_res :: "('a \<Rightarrow> 'b res) \<Rightarrow> 'a list \<Rightarrow> 'b list res" where
  "map_res f [] = Inr []"
| "map_res f (v # vs) = bind_res (f v) (\<lambda>w. bind_res (map_res f vs) (\<lambda>ws. Inr (w # ws)))"

section \<open>Sets\<close>

text \<open>The hash of a list or a dictionary is a \<^verbatim>\<open>TypeError\<close>.\<close>

fun py_hashed :: "pyval \<Rightarrow> pyval res" where
  "py_hashed (PList vs) = Inl TypeError"
| "py_hashed (PDict kvs) = Inl TypeError"
| "py_hashed v = Inr v"

text \<open>A set is the list of its members in the order they came, of equal members the first.\<close>

definition set_insert :: "pyval list \<Rightarrow> pyval \<Rightarrow> pyval list" where
  "set_insert vs v = (if list_ex (py_eq v) vs then vs else vs @ [v])"

definition set_of_list :: "pyval list \<Rightarrow> pyval list" where
  "set_of_list vs = foldl set_insert [] vs"

definition py_in_set :: "pyval \<Rightarrow> pyval list \<Rightarrow> bool res" where
  "py_in_set v vs = bind_res (py_hashed v) (\<lambda>v. Inr (list_ex (py_eq v) vs))"

fun insert_by_le :: "pyval \<Rightarrow> pyval list \<Rightarrow> pyval list" where
  "insert_by_le v [] = [v]"
| "insert_by_le v (w # ws) = (if py_le v w then v # w # ws else w # insert_by_le v ws)"

text \<open>
  \<^verbatim>\<open>sorted\<close> of a set. Its members are pairwise different, so that the order does not depend on the
  order of iteration; members that cannot be compared are a \<^verbatim>\<open>TypeError\<close>, whichever pair meets first.
\<close>

definition py_sorted :: "pyval list \<Rightarrow> pyval list res" where
  "py_sorted vs =
     (if length vs \<le> 1 \<or> list_all is_str_value vs \<or> list_all (\<lambda>v. py_number v \<noteq> None) vs
      then Inr (foldr insert_by_le vs []) else Inl TypeError)"

section \<open>Text\<close>

text \<open>\<^verbatim>\<open>json.dumps\<close>, floats included.\<close>

fun dumps_text :: "pyval \<Rightarrow> string" where
  "dumps_text (PFloat m e) = float_repr m e"
| "dumps_text (PList vs) = ''['' @ comma_join (map dumps_text vs) @ '']''"
| "dumps_text (PDict kvs) =
     ''{'' @ comma_join (map (\<lambda>kv. json_str (fst kv) @ '': '' @ dumps_text (snd kv)) kvs) @ ''}''"
| "dumps_text v = json_text v"

text \<open>
  \<^verbatim>\<open>float(s)\<close> of a decimal literal, in which an underscore stands between two digits. The words
  \<^verbatim>\<open>inf\<close> and \<^verbatim>\<open>nan\<close> are not among the literals of the model.
\<close>

fun underscores_between :: "bool \<Rightarrow> string \<Rightarrow> bool" where
  "underscores_between after_digit [] = True"
| "underscores_between after_digit (c # s) =
     (if c = CHR ''_''
      then after_digit \<and> (case s of d # _ \<Rightarrow> is_digit d | [] \<Rightarrow> False) \<and> underscores_between False s
      else underscores_between (is_digit c) s)"

definition float_of_str :: "string \<Rightarrow> pyval res" where
  "float_of_str s =
     (if underscores_between False (strip s)
      then (case dec_of_str s of Some d \<Rightarrow> Inr (double_of_decimal (coeff d) (expo d)) | None \<Rightarrow> Inl ValueError)
      else Inl ValueError)"

section \<open>Lemmas\<close>

lemma py_eq_str [simp]: "py_eq v (PStr s) \<longleftrightarrow> v = PStr s"
  by (cases v) auto

declare py_eq.simps [simp del]

lemma py_eq_list_strs [simp]: "py_eq_list vs (map PStr ss) \<longleftrightarrow> vs = map PStr ss"
proof (induction ss arbitrary: vs)
  case Nil
  then show ?case by (cases vs) auto
next
  case (Cons s ss)
  then show ?case by (cases vs) auto
qed

lemma dumps_text_json: "json_ok v \<Longrightarrow> dumps_text v = json_text v"
proof (induction v rule: dumps_text.induct)
  case (2 vs)
  then have "map dumps_text vs = map json_text vs" by (auto simp: list_all_iff)
  then show ?case by (simp only: dumps_text.simps json_text.simps)
next
  case (3 kvs)
  then have "map (\<lambda>kv. json_str (fst kv) @ '': '' @ dumps_text (snd kv)) kvs =
      map (\<lambda>kv. json_str (fst kv) @ '': '' @ json_text (snd kv)) kvs" by (auto simp: list_all_iff)
  then show ?case by (simp only: dumps_text.simps json_text.simps)
qed simp_all

lemma map_res_eq_Inr: "map_res f vs = Inr ws \<longleftrightarrow> list_all2 (\<lambda>v w. f v = Inr w) vs ws"
proof (induction vs arbitrary: ws)
  case Nil
  then show ?case by auto
next
  case (Cons v vs)
  then show ?case by (cases ws) (auto simp: bind_res_eq_Inr)
qed

end
