(* ===== verification/Smoke_Checks.thy ===== *)
theory Smoke_Checks
  imports Smoke_Tests
begin

text \<open>
  The smoke tests as programs: what a run that ends with success shows about the system under test
  (\<open>phase2_success_evidence\<close>, \<open>checkout_success_evidence\<close>, \<open>rabbitmq_success_evidence\<close>), the outcome of the payment
  loop, and a bound on what the checkout test asks of any system. \<open>ref_smoke_env\<close> is an environment
  for concrete runs.
\<close>

named_theorems call_rules \<open>how many requests a program makes, and which\<close>

section \<open>Replies\<close>

text \<open>The status and the payload a script reads from a reply.\<close>

fun http_answer :: "'w smoke_env \<Rightarrow> http_reply \<Rightarrow> (int \<times> pyval) option" where
  "http_answer X (Response code body) = (case loads X body of Inl e \<Rightarrow> None | Inr v \<Rightarrow> Some (code, v))"
| "http_answer X (HTTPError code body) =
     (case bind_res body (loads_or_raw X) of Inl e \<Rightarrow> None | Inr v \<Rightarrow> Some (code, v))"

lemma urlopen_sk_calls: "urlopen X req s = (r, s') \<Longrightarrow> sk_calls s' = sk_calls s @ [Sent req r]"
  by (auto simp: urlopen_def split: prod.splits)

lemma urlopen_bind_Inr:
  assumes "bind_prog (urlopen X req) f s = (Inr y, s')"
  obtains reply s1 where "f reply s1 = (Inr y, s')" "sk_calls s1 = sk_calls s @ [Sent req (Inr reply)]"
  using assms by (auto simp: bind_prog_eq_Inr dest: urlopen_sk_calls)

lemma phase1_request_Inr:
  assumes "phase1_request X method path data token sts s = (Inr cv, s')"
  obtains reply where "http_answer X reply = Some cv"
    "sk_calls s' = sk_calls s @ [Sent (bearer_request (phase1_base_url X @ path) method data token) (Inr reply)]"
proof (rule urlopen_bind_Inr [OF assms [unfolded phase1_request_def]])
  fix reply s1
  assume k: "(case reply of Response code body \<Rightarrow> lift_res (bind_res (loads X body) (\<lambda>v. Inr (code, v)))
      | HTTPError code body \<Rightarrow> bind_prog (lift_res (bind_res body (loads_or_raw X))) (\<lambda>parsed. if code \<notin> set sts then raise_prog (http_failure method path code parsed)
               else return_prog (code, parsed))) s1 = (Inr cv, s')"
    and "sk_calls s1 = sk_calls s @ [Sent (bearer_request (phase1_base_url X @ path) method data token) (Inr reply)]"
  then show thesis
    using that [of reply] by (cases reply) (auto simp: bind_prog_eq_Inr bind_res_eq_Inr Let_def split: if_splits)
qed

text \<open>The requests of the two scripts that ask for one status.\<close>

definition strict_answer :: "'w smoke_env \<Rightarrow> string \<Rightarrow> string \<Rightarrow> int \<Rightarrow> http_reply \<Rightarrow> ('w smoke_state, int \<times> pyval) prog" where
  "strict_answer X method path expect_status reply =
     (case reply of
        Response code body \<Rightarrow>
          bind_prog (lift_res (loads X body)) (\<lambda>payload.
            if code \<noteq> expect_status then raise_prog (unexpected_status method path code expect_status payload)
            else return_prog (code, payload))
      | HTTPError code body \<Rightarrow>
          bind_prog (lift_res (bind_res body (loads_or_raw X))) (\<lambda>payload.
            if code \<noteq> expect_status then raise_prog (http_failure method path code payload)
            else return_prog (code, payload)))"

lemma strict_requests:
  "phase2_request X method path data token st =
     bind_prog (urlopen X (bearer_request (phase2_base_url X @ path) method data token)) (strict_answer X method path st)"
  "mongodb_request C X method path data token st =
     bind_prog (urlopen X (bearer_request (mc_base_url C @ path) method data token)) (strict_answer X method path st)"
  by (simp_all add: phase2_request_def mongodb_request_def strict_answer_def [abs_def])

lemma strict_answer_Inr:
  "strict_answer X method path st reply s = (Inr cv, s') \<longleftrightarrow> fst cv = st \<and> http_answer X reply = Some cv \<and> s' = s"
  by (cases reply; cases cv) (auto simp: strict_answer_def bind_prog_eq_Inr Let_def split: if_splits sum.splits)

lemma phase2_request_Inr:
  assumes "phase2_request X method path data token st s = (Inr cv, s')"
  obtains reply v where "cv = (st, v)" "http_answer X reply = Some (st, v)"
    "sk_calls s' = sk_calls s @ [Sent (bearer_request (phase2_base_url X @ path) method data token) (Inr reply)]"
  using assms [unfolded strict_requests] by (elim urlopen_bind_Inr) (cases cv; auto simp: strict_answer_Inr)

lemma mongodb_request_Inr:
  assumes "mongodb_request C X method path data token st s = (Inr cv, s')"
  obtains reply v where "cv = (st, v)" "http_answer X reply = Some (st, v)"
    "sk_calls s' = sk_calls s @ [Sent (bearer_request (mc_base_url C @ path) method data token) (Inr reply)]"
  using assms [unfolded strict_requests] by (elim urlopen_bind_Inr) (cases cv; auto simp: strict_answer_Inr)

lemma rabbitmq_request_Inr:
  assumes "rabbitmq_request X base_url method path data headers s = (Inr cv, s')"
  obtains code body v where "cv = (code, v)" "loads X body = Inr v"
    "sk_calls s' = sk_calls s @ [Sent (header_request (base_url @ path) method data headers) (Inr (Response code body))]"
proof (rule urlopen_bind_Inr [OF assms [unfolded rabbitmq_request_def]])
  fix reply s1
  assume "(case reply of Response code body \<Rightarrow> lift_res (bind_res (loads X body) (\<lambda>v. Inr (code, v)))
      | HTTPError code body \<Rightarrow> bind_prog (lift_res (bind_res body (loads_or_raw X))) (\<lambda>payload.
          raise_prog (http_failure method (base_url @ path) code payload))) s1 = (Inr cv, s')"
    and "sk_calls s1 = sk_calls s @ [Sent (header_request (base_url @ path) method data headers) (Inr reply)]"
  then show thesis
    using that by (cases reply) (auto simp: bind_prog_eq_Inr bind_res_eq_Inr)
qed

lemma expect_that_Inr:
  "expect_that label c d s = (Inr u, s') \<Longrightarrow> c = Inr True \<and> sk_calls s' = sk_calls s"
  by (auto simp: expect_that_def expect_def bind_prog_eq_Inr print_line_def split: if_splits)

lemma path_is_True [simp]: "path_is v ks t = Inr True \<longleftrightarrow> py_path v ks = Inr (PStr t)"
  by (auto simp: path_is_def bind_res_eq_Inr)

lemma print_line_calls [simp]: "sk_calls (snd (print_line line s)) = sk_calls s" "fst (print_line line s) = Inr ()"
  by (simp_all add: print_line_def)

lemma bind_progE:
  assumes "bind_prog m f s = (Inr y, s2)"
  obtains x s1 where "m s = (Inr x, s1)" "f x s1 = (Inr y, s2)"
  using assms by (auto simp: bind_prog_eq_Inr)

lemma print_line_Inr: "print_line line s = (Inr u, s') \<Longrightarrow> sk_calls s' = sk_calls s"
  by (auto simp: print_line_def)

lemma run_main_0: "run_main X r = (0, s') \<longleftrightarrow> r = (Inr (), s')"
  by (auto simp: run_main_def split: prod.splits sum.splits if_splits)


lemma lift_bindE:
  assumes "bind_prog (lift_res r) f s = (Inr y, s2)"
  obtains x where "r = Inr x" "f x s = (Inr y, s2)"
  using assms by (auto simp: bind_prog_eq_Inr)

lemma expect_bindE:
  assumes "bind_prog (expect_that label c d) f s = (Inr y, s2)"
  obtains s1 where "c = Inr True" "sk_calls s1 = sk_calls s" "f () s1 = (Inr y, s2)"
  using assms by (elim bind_progE) (auto dest!: expect_that_Inr)

lemma print_bindE:
  assumes "bind_prog (print_line line) f s = (Inr y, s2)"
  obtains s1 where "sk_calls s1 = sk_calls s" "f () s1 = (Inr y, s2)"
  using assms by (elim bind_progE) (auto dest!: print_line_Inr)

lemma phase2_bindE:
  assumes "bind_prog (phase2_request X method path data token st) (\<lambda>(c, v). f c v) s = (Inr y, s2)"
  obtains reply v s1 where "http_answer X reply = Some (st, v)"
    "sk_calls s1 = sk_calls s @ [Sent (bearer_request (phase2_base_url X @ path) method data token) (Inr reply)]"
    "f st v s1 = (Inr y, s2)"
  using assms by (elim bind_progE phase2_request_Inr) auto

lemma phase2_login_bindE:
  assumes "bind_prog (phase2_login X user pw) f s = (Inr y, s2)"
  obtains reply v d s1 where "http_answer X reply = Some (200, v)"
    "sk_calls s1 = sk_calls s @ [Sent (bearer_request (phase2_base_url X @ ''/api/auth/login'') ''POST'' (credentials user pw) PNone) (Inr reply)]"
    "py_getitem v ''data'' = Inr d" "f d s1 = (Inr y, s2)"
  using assms unfolding phase2_login_def
  by (elim bind_progE phase2_request_Inr) (auto elim!: bind_progE)

lemmas script_elims = lift_bindE expect_bindE print_bindE print_line_Inr [elim_format]

lemma bind_res_Inr_id [simp]: "bind_res r Inr = r"
  by (cases r) simp_all

lemma len_check:
  "bind_res r (\<lambda>items. bind_res (py_len items) (\<lambda>n. Inr (n = k))) = Inr True \<longleftrightarrow> bind_res r py_len = Inr k"
  by (auto simp: bind_res_eq_Inr)

lemma time_millis_Inr: "time_millis X s = (Inr ms, s') \<Longrightarrow> sk_calls s' = sk_calls s"
  by (auto simp: time_millis_def time_now_def bind_prog_eq_Inr split: prod.splits)

text \<open>The body of the request for a new order.\<close>

definition order_data :: "string \<Rightarrow> pyval \<Rightarrow> pyval" where
  "order_data request_no product_id =
     PDict [(''request_no'', PStr request_no), (''product_id'', product_id), (''quantity'', PInt 1)]"


section \<open>Sessions\<close>

abbreviation phase2_call :: "'w smoke_env \<Rightarrow> string \<Rightarrow> string \<Rightarrow> pyval \<Rightarrow> pyval \<Rightarrow> http_reply \<Rightarrow> outside_call" where
  "phase2_call X method path data token reply \<equiv>
     Sent (bearer_request (phase2_base_url X @ path) method data token) (Inr reply)"

text \<open>
  C26: The session smoke test exits with 0 only after seven requests: the token of a login was
  accepted, then refused as revoked with 401 after its own logout, and a second login gave a
  token that reads the profile and two products.
\<close>

theorem phase2_success_evidence:
  assumes "phase2_script X s = (0, s')"
  shows "\<exists>r1 r2 r3 r4 r5 r6 r7 v1 v2 v3 v4 v5 v6 v7 token1 token2.
     sk_calls s' = sk_calls s @
       [phase2_call X ''POST'' ''/api/auth/login'' (credentials ''john_smith'' ''User@123'') PNone r1,
        phase2_call X ''GET'' ''/api/users/me'' PNone token1 r2,
        phase2_call X ''POST'' ''/api/auth/logout'' (PDict []) token1 r3,
        phase2_call X ''GET'' ''/api/users/me'' PNone token1 r4,
        phase2_call X ''POST'' ''/api/auth/login'' (credentials ''john_smith'' ''User@123'') PNone r5,
        phase2_call X ''GET'' ''/api/users/me'' PNone token2 r6,
        phase2_call X ''GET'' ''/api/products?page=1&size=2'' PNone token2 r7] \<and>
     map (http_answer X) [r1, r2, r3, r4, r5, r6, r7] =
       map Some [(200, v1), (200, v2), (200, v3), (401, v4), (200, v5), (200, v6), (200, v7)] \<and>
     py_path v1 [''data'', ''access_token''] = Inr token1 \<and> py_path v1 [''data'', ''role''] = Inr (PStr ''USER'') \<and>
     py_path v2 [''data'', ''username''] = Inr (PStr ''john_smith'') \<and>
     py_path v3 [''message''] = Inr (PStr ''signed out'') \<and>
     py_path v4 [''detail''] = Inr (PStr ''Access token has been revoked'') \<and>
     py_path v5 [''data'', ''access_token''] = Inr token2 \<and> truthy token2 \<and>
     py_path v6 [''data'', ''username''] = Inr (PStr ''john_smith'') \<and>
     bind_res (py_path v7 [''data'', ''items'']) py_len = Inr 2"
proof -
  have main: "phase2_main X s = (Inr (), s')"
    using assms(1) by (simp add: phase2_script_def run_main_0)
  show ?thesis
    using main unfolding phase2_main_def
    apply (elim script_elims phase2_bindE phase2_login_bindE)
    apply (intro exI conjI)
    apply (simp only: append_assoc append_Cons append_Nil)
    apply (simp only: list.map)
    apply (simp_all add: len_check del: sum.case bearer_request_def)
    done
qed

section \<open>Checkout\<close>

abbreviation phase1_call :: "'w smoke_env \<Rightarrow> string \<Rightarrow> string \<Rightarrow> pyval \<Rightarrow> pyval \<Rightarrow> http_reply res \<Rightarrow> outside_call" where
  "phase1_call X method path data token r \<equiv> Sent (bearer_request (phase1_base_url X @ path) method data token) r"

lemma phase1_request_calls:
  "\<exists>r. sk_calls (snd (phase1_request X method path data token sts s)) = sk_calls s @ [phase1_call X method path data token r]"
proof -
  obtain r s1 where u: "urlopen X (bearer_request (phase1_base_url X @ path) method data token) s = (r, s1)" by fastforce
  have "sk_calls (snd (phase1_request X method path data token sts s)) = sk_calls s1"
    using u by (cases r) (auto simp: phase1_request_def bind_prog_def Let_def split: http_reply.splits sum.splits prod.splits)
  with urlopen_sk_calls [OF u] show ?thesis by auto
qed

text \<open>What a run of \<^verbatim>\<open>pay_order\<close> did: some attempts that timed out, each followed by a pause, then at most one more.\<close>

definition pay_call :: "'w smoke_env \<Rightarrow> pyval \<Rightarrow> pyval \<Rightarrow> http_reply res \<Rightarrow> outside_call" where
  "pay_call X token order_id r =
     Sent (bearer_request (phase1_base_url X @ ''/api/orders/'' @ py_str order_id @ ''/pay'') ''POST'' PNone token) r"

definition timed_out_attempts :: "'w smoke_env \<Rightarrow> pyval \<Rightarrow> pyval \<Rightarrow> http_reply list \<Rightarrow> outside_call list" where
  "timed_out_attempts X token order_id replies =
     concat (map (\<lambda>reply. [pay_call X token order_id (Inr reply), Slept (PInt 1)]) replies)"

definition paid :: "'w smoke_env \<Rightarrow> http_reply \<Rightarrow> pyval \<Rightarrow> bool" where
  "paid X reply payload \<longleftrightarrow>
     (\<exists>code v. http_answer X reply = Some (code, v) \<and> code \<noteq> 504 \<and> py_getitem v ''data'' = Inr payload \<and>
        py_getitem payload ''status_label'' = Inr (PStr ''PAID_PENDING_APPROVAL''))"

abbreviation retries_exhausted :: "pyval \<Rightarrow> py_exc" where
  "retries_exhausted order_id \<equiv> RuntimeError (''Pay order failed after 5 retries: id='' @ py_str order_id)"

lemma pay_attempts_outcome:
  assumes "pay_attempts X token order_id attempts s = (r, s')"
  shows "\<exists>replies rest.
     sk_calls s' = sk_calls s @ timed_out_attempts X token order_id replies @ map (pay_call X token order_id) rest \<and>
     list_all (\<lambda>reply. \<exists>v. http_answer X reply = Some (504, v)) replies \<and>
     (case r of
        Inr payload \<Rightarrow> length replies < length attempts \<and> (\<exists>reply. rest = [Inr reply] \<and> paid X reply payload)
      | Inl e \<Rightarrow> length replies < length attempts \<and> (\<exists>x. rest = [x]) \<or>
          length replies \<le> length attempts \<and> rest = [] \<and> (\<exists>w. fst (se_sleep X (PInt 1) w) = Inl e) \<or>
          length replies = length attempts \<and> rest = [] \<and> e = retries_exhausted order_id)"
  using assms
proof (induction attempts arbitrary: s)
  case Nil
  then show ?case by (auto simp: timed_out_attempts_def intro!: exI [of _ "[]"])
next
  case (Cons a attempts)
  let ?req = "phase1_request X ''POST'' (''/api/orders/'' @ py_str order_id @ ''/pay'') PNone token [200, 504]"
  let ?call = "pay_call X token order_id"
  obtain q s1 where q: "?req s = (q, s1)" by fastforce
  show ?case
  proof (cases q)
    case (Inl e)
    then have "r = Inl e" "s' = s1" using Cons.prems q by auto
    moreover obtain x where "sk_calls s1 = sk_calls s @ [?call x]"
      using phase1_request_calls [of X "''POST''" "''/api/orders/'' @ py_str order_id @ ''/pay''" PNone token "[200, 504]" s] q
      by (auto simp: pay_call_def)
    ultimately show ?thesis
      by (intro exI [of _ "[]"] exI [of _ "[x]"]) (simp add: timed_out_attempts_def)
  next
    case (Inr cv)
    obtain code v where cv: "cv = (code, v)" by fastforce
    from q Inr cv obtain reply where reply: "http_answer X reply = Some (code, v)" "sk_calls s1 = sk_calls s @ [?call (Inr reply)]"
      by (auto simp: pay_call_def elim: phase1_request_Inr)
    show ?thesis
    proof (cases "code = 504")
      case True
      obtain p w where w: "se_sleep X (PInt 1) (sk_world s1) = (p, w)" by fastforce
      show ?thesis
      proof (cases p)
        case (Inl e)
        then have "r = Inl e" "sk_calls s' = sk_calls s @ [?call (Inr reply), Slept (PInt 1)]"
          using Cons.prems q \<open>q = Inr cv\<close> cv True w reply(2) by (auto simp: print_line_def time_sleep_def bind_prog_def)
        moreover have "\<exists>w. fst (se_sleep X (PInt 1) w) = Inl e" using w Inl by (metis fst_conv)
        ultimately show ?thesis
          by (intro exI [of _ "[reply]"] exI [of _ "[]"]) (use reply(1) True in \<open>simp add: timed_out_attempts_def\<close>)
      next
        case slept: (Inr u)
      obtain s2 where s2: "pay_attempts X token order_id attempts s2 = (r, s')" "sk_calls s2 = sk_calls s @ [?call (Inr reply), Slept (PInt 1)]"
        using Cons.prems q \<open>q = Inr cv\<close> slept cv True w reply(2) by (auto simp: print_line_def time_sleep_def bind_prog_def)
      from Cons.IH [OF s2(1)] obtain replies rest where
        "sk_calls s' = sk_calls s2 @ timed_out_attempts X token order_id replies @ map ?call rest"
        "list_all (\<lambda>reply. \<exists>v. http_answer X reply = Some (504, v)) replies"
        "case r of Inr payload \<Rightarrow> length replies < length attempts \<and> (\<exists>reply. rest = [Inr reply] \<and> paid X reply payload)
           | Inl e \<Rightarrow> length replies < length attempts \<and> (\<exists>x. rest = [x]) \<or>
               length replies \<le> length attempts \<and> rest = [] \<and> (\<exists>w. fst (se_sleep X (PInt 1) w) = Inl e) \<or>
               length replies = length attempts \<and> rest = [] \<and> e = retries_exhausted order_id"
        by blast
      then show ?thesis
        by (intro exI [of _ "reply # replies"] exI [of _ rest])
          (use s2(2) reply(1) True in \<open>auto simp: timed_out_attempts_def split: sum.splits\<close>)
      qed
    next
      case False
      have "sk_calls s' = sk_calls s1 \<and> (\<forall>payload. r = Inr payload \<longrightarrow> paid X reply payload)"
        using Cons.prems q Inr cv False reply(1)
        by (auto simp: paid_def bind_prog_def expect_that_def expect_def print_line_def path_is_def bind_res_eq_Inr
            split: sum.splits prod.splits if_splits)
      then show ?thesis
        by (intro exI [of _ "[]"] exI [of _ "[Inr reply]"])
          (use reply in \<open>auto simp: timed_out_attempts_def split: sum.splits\<close>)
    qed
  qed
qed

text \<open>
  C23: pay_order tries at most five times, again only after a 504 and a pause of a second; it
  returns exactly a payload labelled PAID_PENDING_APPROVAL of its last attempt, and five
  time-outs end in its RuntimeError.
\<close>

theorem pay_order_outcome:
  assumes "pay_order X token order_id s = (r, s')"
  shows "\<exists>replies rest.
     sk_calls s' = sk_calls s @ timed_out_attempts X token order_id replies @ map (pay_call X token order_id) rest \<and>
     list_all (\<lambda>reply. \<exists>v. http_answer X reply = Some (504, v)) replies \<and>
     (case r of
        Inr payload \<Rightarrow> length replies < 5 \<and> (\<exists>reply. rest = [Inr reply] \<and> paid X reply payload)
      | Inl e \<Rightarrow>
          length replies < 5 \<and> (\<exists>x. rest = [x]) \<or>
          length replies \<le> 5 \<and> rest = [] \<and> (\<exists>w. fst (se_sleep X (PInt 1) w) = Inl e) \<or>
          length replies = 5 \<and> rest = [] \<and> e = retries_exhausted order_id)"
proof -
  have "length [1, 2, 3, 4, 5 :: int] = 5" by simp
  with pay_attempts_outcome [OF assms [unfolded pay_order_def]] show ?thesis by (simp only:)
qed

section \<open>How much a script asks of the system\<close>

text \<open>Every call satisfies \<open>P\<close>, and at most \<open>n\<close> of them are requests.\<close>

definition is_request :: "outside_call \<Rightarrow> bool" where
  "is_request c = (case c of Sent _ _ \<Rightarrow> True | _ \<Rightarrow> False)"

definition calls_only :: "(outside_call \<Rightarrow> bool) \<Rightarrow> nat \<Rightarrow> ('w smoke_state, 'a) prog \<Rightarrow> bool" where
  "calls_only P n m \<longleftrightarrow>
     (\<forall>s. \<exists>calls. sk_calls (snd (m s)) = sk_calls s @ calls \<and> list_all P calls \<and> length (filter is_request calls) \<le> n)"

lemma calls_silent: "(\<And>s. sk_calls (snd (m s)) = sk_calls s) \<Longrightarrow> calls_only P 0 m"
  by (simp add: calls_only_def)

lemma calls_one: "(\<And>s. \<exists>c. P c \<and> sk_calls (snd (m s)) = sk_calls s @ [c]) \<Longrightarrow> calls_only P 1 m"
  unfolding calls_only_def by (metis length_filter_le length_Cons list.size(3) One_nat_def list.pred_inject)

lemma calls_bind [call_rules]:
  assumes "calls_only P n m" and "\<And>x. calls_only P k (f x)"
  shows "calls_only P (n + k) (bind_prog m f)"
  unfolding calls_only_def
proof
  fix s
  obtain r s1 where m: "m s = (r, s1)" by fastforce
  from assms(1) m obtain c1 where c1: "sk_calls s1 = sk_calls s @ c1" "list_all P c1" "length (filter is_request c1) \<le> n"
    unfolding calls_only_def by (metis snd_conv)
  show "\<exists>calls. sk_calls (snd (bind_prog m f s)) = sk_calls s @ calls \<and> list_all P calls \<and> length (filter is_request calls) \<le> n + k"
  proof (cases r)
    case (Inl e)
    then show ?thesis using m c1 by (auto simp: bind_prog_def)
  next
    case (Inr x)
    from assms(2) [of x] obtain c2 where "sk_calls (snd (f x s1)) = sk_calls s1 @ c2" "list_all P c2" "length (filter is_request c2) \<le> k"
      unfolding calls_only_def by blast
    with Inr m c1 show ?thesis by (intro exI [of _ "c1 @ c2"]) (simp add: bind_prog_def)
  qed
qed

lemma calls_simple [call_rules]:
  "calls_only P 0 (lift_res r)" "calls_only P 0 (return_prog x)" "calls_only P 0 (raise_prog e)"
  "calls_only P 0 (print_line line)" "calls_only P 0 (expect_that label c d)" "calls_only P 0 (time_millis X)"
  by (rule calls_silent, auto simp: expect_that_def expect_def time_millis_def time_now_def print_line_def bind_prog_def
      split: sum.splits prod.splits)+

lemma calls_mono: "calls_only P n m \<Longrightarrow> n \<le> k \<Longrightarrow> calls_only P k m"
  unfolding calls_only_def by (meson le_trans)

lemma calls_pair [call_rules]: "(\<And>a b. calls_only P n (f a b)) \<Longrightarrow> calls_only P n (case p of (a, b) \<Rightarrow> f a b)"
  by (cases p) simp

text \<open>The calls of the checkout script: requests below its base URL and pauses of a second.\<close>

definition checkout_call :: "'w smoke_env \<Rightarrow> outside_call \<Rightarrow> bool" where
  "checkout_call X c \<longleftrightarrow>
     (\<exists>method path data token r. c = phase1_call X method path data token r) \<or> c = Slept (PInt 1)"

lemma calls_phase1_request [call_rules]: "calls_only (checkout_call X) 1 (phase1_request X method path data token sts)"
proof (rule calls_one)
  fix s
  obtain r where "sk_calls (snd (phase1_request X method path data token sts s)) = sk_calls s @ [phase1_call X method path data token r]"
    using phase1_request_calls by blast
  moreover have "checkout_call X (phase1_call X method path data token r)"
    unfolding checkout_call_def by blast
  ultimately show "\<exists>c. checkout_call X c \<and> sk_calls (snd (phase1_request X method path data token sts s)) = sk_calls s @ [c]"
    by blast
qed

lemma calls_sleep [call_rules]: "calls_only (checkout_call X) 0 (time_sleep X (PInt 1))"
  unfolding calls_only_def
  by (auto simp: time_sleep_def checkout_call_def is_request_def split: prod.splits intro!: exI [of _ "[Slept (PInt 1)]"])

lemma calls_if [call_rules]:
  "calls_only P n m \<Longrightarrow> calls_only P k m' \<Longrightarrow> calls_only P (max n k) (if b then m else m')"
  by (auto intro: calls_mono)

lemma calls_create_order [call_rules]: "calls_only (checkout_call X) 1 (phase1_create_order X token product_id sfx)"
  unfolding phase1_create_order_def by (rule calls_mono, (rule call_rules)+, simp)

lemma calls_pay_attempts: "calls_only (checkout_call X) (length attempts) (pay_attempts X token order_id attempts)"
proof (induction attempts)
  case Nil
  then show ?case by (simp only: pay_attempts.simps list.size) (rule call_rules)
next
  case (Cons a attempts)
  show ?case
    unfolding pay_attempts.simps by (rule calls_mono, (rule call_rules Cons.IH)+, simp)
qed

lemma calls_pay_order [call_rules]: "calls_only (checkout_call X) 5 (pay_order X token order_id)"
  unfolding pay_order_def by (rule calls_mono [OF calls_pay_attempts]) simp

lemma calls_phase1_main: "calls_only (checkout_call X) 21 (phase1_main X)"
  unfolding phase1_main_def phase1_start_def phase1_cancel_flow_def phase1_approve_flow_def phase1_reject_flow_def phase1_listings_def
  by (rule calls_mono, (rule call_rules)+, simp)

theorem checkout_test_is_bounded:
  "\<exists>code s' calls. phase1_script X s = (code, s') \<and> sk_calls s' = sk_calls s @ calls \<and> list_all (checkout_call X) calls \<and>
     length (filter is_request calls) \<le> 21 \<and> code \<in> {0, 1, 130}"
proof -
  obtain r s1 where m: "phase1_main X s = (r, s1)" by fastforce
  with calls_phase1_main obtain calls where "sk_calls s1 = sk_calls s @ calls" "list_all (checkout_call X) calls"
    "length (filter is_request calls) \<le> 21"
    unfolding calls_only_def by (metis snd_conv)
  with m show ?thesis
    by (auto simp: phase1_script_def run_main_def split: sum.splits)
qed

lemma phase1_bindE:
  assumes "bind_prog (phase1_request X method path data token sts) (\<lambda>(c, v). f c v) s = (Inr y, s2)"
  obtains reply c v s1 where "http_answer X reply = Some (c, v)"
    "sk_calls s1 = sk_calls s @ [phase1_call X method path data token (Inr reply)]" "f c v s1 = (Inr y, s2)"
  using assms by (elim bind_progE phase1_request_Inr) (auto split: prod.splits)

lemma phase1_create_order_bindE:
  assumes "bind_prog (phase1_create_order X token product_id sfx) f s = (Inr y, s2)"
  obtains reply c v ms order s1 where "http_answer X reply = Some (c, v)"
    "sk_calls s1 = sk_calls s @ [phase1_call X ''POST'' ''/api/orders''
        (order_data (''SMOKE-'' @ int_str ms @ ''-'' @ sfx) product_id) token (Inr reply)]"
    "py_getitem v ''data'' = Inr order" "f order s1 = (Inr y, s2)"
  using assms unfolding phase1_create_order_def order_data_def
  by (elim bind_progE) (auto elim!: bind_progE phase1_request_Inr dest!: time_millis_Inr split: prod.splits)

definition paid_order :: "'w smoke_env \<Rightarrow> pyval \<Rightarrow> pyval \<Rightarrow> outside_call list \<Rightarrow> bool" where
  "paid_order X token order_id calls \<longleftrightarrow>
     (\<exists>replies reply payload.
        calls = timed_out_attempts X token order_id replies @ [pay_call X token order_id (Inr reply)] \<and>
        length replies < 5 \<and> list_all (\<lambda>reply. \<exists>v. http_answer X reply = Some (504, v)) replies \<and> paid X reply payload)"

lemma pay_bindE:
  assumes "bind_prog (pay_order X token order_id) f s = (Inr y, s2)"
  obtains calls payload s1 where "paid_order X token order_id calls" "sk_calls s1 = sk_calls s @ calls"
    "f payload s1 = (Inr y, s2)"
proof -
  from assms obtain payload s1 where p: "pay_order X token order_id s = (Inr payload, s1)" "f payload s1 = (Inr y, s2)"
    by (elim bind_progE)
  from pay_attempts_outcome [OF p(1) [unfolded pay_order_def]] obtain replies reply where
    "sk_calls s1 = sk_calls s @ timed_out_attempts X token order_id replies @ [pay_call X token order_id (Inr reply)]"
    "list_all (\<lambda>reply. \<exists>v. http_answer X reply = Some (504, v)) replies" "length replies < 5" "paid X reply payload"
    by auto
  with that p(2) show thesis unfolding paid_order_def by blast
qed

lemma expect_end: "expect_that label c d s = (Inr u, s') \<Longrightarrow> (c = Inr True \<Longrightarrow> sk_calls s' = sk_calls s \<Longrightarrow> P) \<Longrightarrow> P"
  by (auto dest: expect_that_Inr)

lemma return_end: "return_prog x s = (Inr y, s') \<Longrightarrow> (x = y \<Longrightarrow> s' = s \<Longrightarrow> P) \<Longrightarrow> P"
  by simp

lemmas checkout_elims = script_elims phase1_bindE phase1_create_order_bindE pay_bindE expect_end return_end

text \<open>What the calls of each flow of the checkout test show when the flow succeeds.\<close>

definition started :: "'w smoke_env \<Rightarrow> pyval \<Rightarrow> pyval \<Rightarrow> pyval \<Rightarrow> outside_call list \<Rightarrow> bool" where
  "started X user_token admin_token product_id calls \<longleftrightarrow>
     (\<exists>r1 r2 r3 c1 c2 c3 v1 v2 v3.
        calls = [phase1_call X ''POST'' ''/api/auth/login'' (credentials ''john_smith'' ''User@123'') PNone (Inr r1),
                 phase1_call X ''POST'' ''/api/auth/login'' (credentials ''admin'' ''Admin@123'') PNone (Inr r2),
                 phase1_call X ''GET'' ''/api/products?page=1&size=3'' PNone PNone (Inr r3)] \<and>
        map (http_answer X) [r1, r2, r3] = map Some [(c1, v1), (c2, v2), (c3, v3)] \<and>
        py_path v1 [''data'', ''access_token''] = Inr user_token \<and> py_path v1 [''data'', ''role''] = Inr (PStr ''USER'') \<and>
        py_path v2 [''data'', ''access_token''] = Inr admin_token \<and> py_path v2 [''data'', ''role''] = Inr (PStr ''ADMIN'') \<and>
        bind_res (py_path v3 [''data'', ''items'']) (\<lambda>items. bind_res (py_first items) (\<lambda>item. py_getitem item ''id'')) = Inr product_id)"

definition order_created :: "'w smoke_env \<Rightarrow> pyval \<Rightarrow> pyval \<Rightarrow> pyval \<Rightarrow> pyval \<Rightarrow> outside_call \<Rightarrow> bool" where
  "order_created X user_token product_id order order_id call \<longleftrightarrow>
     (\<exists>request_no reply code v.
        call = phase1_call X ''POST'' ''/api/orders'' (order_data request_no product_id) user_token (Inr reply) \<and>
        http_answer X reply = Some (code, v) \<and> py_getitem v ''data'' = Inr order \<and> py_getitem order ''id'' = Inr order_id \<and>
        py_getitem order ''status_label'' = Inr (PStr ''PAYING''))"

definition answered_status :: "'w smoke_env \<Rightarrow> outside_call \<Rightarrow> url_request \<Rightarrow> string \<Rightarrow> bool" where
  "answered_status X call req label \<longleftrightarrow>
     (\<exists>reply code v. call = Sent req (Inr reply) \<and> http_answer X reply = Some (code, v) \<and>
        py_path v [''data'', ''status_label''] = Inr (PStr label))"

definition listed :: "'w smoke_env \<Rightarrow> pyval \<Rightarrow> pyval \<Rightarrow> pyval \<Rightarrow> pyval \<Rightarrow> outside_call list \<Rightarrow> bool" where
  "listed X user_token admin_token approved rejected calls \<longleftrightarrow>
     (\<exists>r1 r2 c1 c2 v1 v2 latest ids.
        calls = [phase1_call X ''GET'' ''/api/orders/my?page=1&size=5'' PNone user_token (Inr r1),
                 phase1_call X ''GET'' ''/api/admin/orders?page=1&size=10&status=0'' PNone admin_token (Inr r2)] \<and>
        http_answer X r1 = Some (c1, v1) \<and> http_answer X r2 = Some (c2, v2) \<and>
        latest_statuses v1 = Inr latest \<and> take 3 latest = [PStr ''REJECTED'', PStr ''SHIPPING'', PStr ''CANCELLED''] \<and>
        pending_ids_of v2 = Inr ids \<and> neither_pending approved rejected ids = Inr True)"

abbreviation order_request :: "'w smoke_env \<Rightarrow> string \<Rightarrow> pyval \<Rightarrow> string \<Rightarrow> pyval \<Rightarrow> pyval \<Rightarrow> url_request" where
  "order_request X pre order_id action data token \<equiv>
     bearer_request (phase1_base_url X @ pre @ py_str order_id @ action) ''POST'' data token"

lemma start_evidence:
  assumes "phase1_start X s = (Inr (user_token, admin_token, product_id), s1)"
  shows "\<exists>calls. sk_calls s1 = sk_calls s @ calls \<and> started X user_token admin_token product_id calls"
  using assms unfolding phase1_start_def started_def
  apply (elim checkout_elims)
  apply (intro exI conjI)
  apply (simp only: append_assoc append_Cons append_Nil)
  apply (rule refl)
  apply (simp only: list.map)
  apply (simp_all del: sum.case bearer_request_def)
  done

lemma cancel_evidence:
  assumes "phase1_cancel_flow X user_token product_id s = (Inr u, s1)"
  shows "\<exists>order i a b. sk_calls s1 = sk_calls s @ [a, b] \<and> order_created X user_token product_id order i a \<and>
     answered_status X b (order_request X ''/api/orders/'' i ''/cancel'' PNone user_token) ''CANCELLED''"
  using assms unfolding phase1_cancel_flow_def order_created_def answered_status_def
  by (elim checkout_elims) fastforce

lemma approve_evidence:
  assumes "phase1_approve_flow X user_token admin_token product_id s = (Inr order, s1)"
  shows "\<exists>i a pay b. sk_calls s1 = sk_calls s @ a # pay @ [b] \<and> order_created X user_token product_id order i a \<and>
     paid_order X user_token i pay \<and>
     answered_status X b (order_request X ''/api/admin/orders/'' i ''/approve'' PNone admin_token) ''SHIPPING''"
  using assms unfolding phase1_approve_flow_def order_created_def answered_status_def
  by (elim checkout_elims) fastforce

lemma reject_evidence:
  assumes "phase1_reject_flow X user_token admin_token product_id s = (Inr order, s1)"
  shows "\<exists>i a pay b. sk_calls s1 = sk_calls s @ a # pay @ [b] \<and> order_created X user_token product_id order i a \<and>
     paid_order X user_token i pay \<and>
     answered_status X b (order_request X ''/api/admin/orders/'' i ''/reject''
       (PDict [(''reject_reason'', PStr ''Inventory risk needs review'')]) admin_token) ''REJECTED''"
  using assms unfolding phase1_reject_flow_def order_created_def answered_status_def
  by (elim checkout_elims) fastforce

lemma py_eq_strings: "py_eq (PList vs) (PList [PStr a, PStr b, PStr c]) \<longleftrightarrow> vs = [PStr a, PStr b, PStr c]"
  using py_eq_list_strs [of vs "[a, b, c]"] by (simp add: py_eq.simps(1))

lemma listings_evidence:
  assumes "phase1_listings X user_token admin_token approved rejected s = (Inr u, s1)"
  shows "\<exists>calls. sk_calls s1 = sk_calls s @ calls \<and> listed X user_token admin_token approved rejected calls"
  using assms unfolding phase1_listings_def listed_def py_eq_strings
  apply (elim checkout_elims)
  apply (intro exI conjI)
  apply (simp only: append_assoc append_Cons append_Nil)
  apply (rule refl)
  apply simp_all
  done

text \<open>
  C22: The checkout smoke test exits with 0 only after three orders of one product were answered
  as PAYING, one then CANCELLED, two paid for and then SHIPPING and REJECTED, and the listings
  showed this and no reviewed order as pending.
\<close>

theorem checkout_success_evidence:
  assumes "phase1_script X s = (0, s')"
  shows "\<exists>user admin product_id o1 o2 o3 i1 i2 i3 signed a1 b1 a2 pay2 b2 a3 pay3 b3 lists.
     sk_calls s' = sk_calls s @ signed @ [a1, b1] @ a2 # pay2 @ [b2] @ a3 # pay3 @ [b3] @ lists \<and>
     started X user admin product_id signed \<and>
     order_created X user product_id o1 i1 a1 \<and>
     answered_status X b1 (order_request X ''/api/orders/'' i1 ''/cancel'' PNone user) ''CANCELLED'' \<and>
     order_created X user product_id o2 i2 a2 \<and> paid_order X user i2 pay2 \<and>
     answered_status X b2 (order_request X ''/api/admin/orders/'' i2 ''/approve'' PNone admin) ''SHIPPING'' \<and>
     order_created X user product_id o3 i3 a3 \<and> paid_order X user i3 pay3 \<and>
     answered_status X b3 (order_request X ''/api/admin/orders/'' i3 ''/reject''
       (PDict [(''reject_reason'', PStr ''Inventory risk needs review'')]) admin) ''REJECTED'' \<and>
     listed X user admin o2 o3 lists"
proof -
  have "phase1_main X s = (Inr (), s')"
    using assms by (simp add: phase1_script_def run_main_0)
  then obtain user admin product_id approved rejected s1 s2 s3 s4 s5 where
    run: "phase1_start X s = (Inr (user, admin, product_id), s1)" "phase1_cancel_flow X user product_id s1 = (Inr (), s2)"
      "phase1_approve_flow X user admin product_id s2 = (Inr approved, s3)"
      "phase1_reject_flow X user admin product_id s3 = (Inr rejected, s4)"
      "phase1_listings X user admin approved rejected s4 = (Inr (), s5)" and last: "sk_calls s' = sk_calls s5"
    unfolding phase1_main_def by (auto elim!: bind_progE dest!: print_line_Inr split: prod.splits)
  from start_evidence [OF run(1)] cancel_evidence [OF run(2)] approve_evidence [OF run(3)] reject_evidence [OF run(4)]
    listings_evidence [OF run(5)] last
  show ?thesis by (elim exE conjE) (intro exI conjI, simp only: append_assoc append_Cons append_Nil, assumption+)
qed

section \<open>Order events\<close>

abbreviation order_service_call ::
  "'w smoke_env \<Rightarrow> string \<Rightarrow> pyval \<Rightarrow> (string \<times> string) list \<Rightarrow> string res \<Rightarrow> int \<Rightarrow> outside_call" where
  "order_service_call X path data headers body code \<equiv>
     Sent (header_request (rabbitmq_order_url X @ path) ''POST'' data headers) (Inr (Response code body))"

lemma rabbitmq_bindE:
  assumes "bind_prog (rabbitmq_request X base_url method path data headers) (\<lambda>(c, v). f c v) s = (Inr y, s2)"
  obtains code body v s1 where "loads X body = Inr v"
    "sk_calls s1 = sk_calls s @ [Sent (header_request (base_url @ path) method data headers) (Inr (Response code body))]"
    "f code v s1 = (Inr y, s2)"
  using assms by (elim bind_progE rabbitmq_request_Inr) auto

lemma rabbitmq_create_order_bindE:
  assumes "bind_prog (rabbitmq_create_order X product_id sfx) f s = (Inr y, s2)"
  obtains code body v ms order s1 where "loads X body = Inr v"
    "sk_calls s1 = sk_calls s @ [order_service_call X ''/orders'' (order_data (''DEV-RMQ-'' @ int_str ms @ ''-'' @ sfx) product_id)
        USER_HEADERS body code]"
    "py_getitem v ''data'' = Inr order" "f order s1 = (Inr y, s2)"
  using assms unfolding rabbitmq_create_order_def order_data_def
  by (elim bind_progE) (auto elim!: bind_progE rabbitmq_request_Inr dest!: time_millis_Inr)

lemma print_event_bindE:
  assumes "bind_prog (print_event pre order) f s = (Inr y, s2)"
  obtains s1 where "sk_calls s1 = sk_calls s" "f () s1 = (Inr y, s2)"
  using assms unfolding print_event_def by (elim bind_progE) (auto elim!: bind_progE dest!: print_line_Inr)

definition rabbitmq_created :: "'w smoke_env \<Rightarrow> pyval \<Rightarrow> pyval \<Rightarrow> pyval \<Rightarrow> outside_call \<Rightarrow> bool" where
  "rabbitmq_created X product_id order order_id call \<longleftrightarrow>
     (\<exists>request_no body code v.
        call = order_service_call X ''/orders'' (order_data request_no product_id) USER_HEADERS body code \<and>
        loads X body = Inr v \<and> py_getitem v ''data'' = Inr order \<and> py_getitem order ''id'' = Inr order_id \<and>
        py_getitem order ''status_label'' = Inr (PStr ''PENDING_APPROVAL''))"

lemma rabbitmq_createdI:
  "loads X body = Inr v \<Longrightarrow> py_getitem v ''data'' = Inr order \<Longrightarrow> path_is order [''status_label''] ''PENDING_APPROVAL'' = Inr True \<Longrightarrow>
     py_getitem order ''id'' = Inr i \<Longrightarrow>
     rabbitmq_created X product_id order i (order_service_call X ''/orders'' (order_data request_no product_id) USER_HEADERS body code)"
  by (auto simp: rabbitmq_created_def)

lemma answered_statusI:
  "loads X body = Inr v \<Longrightarrow> path_is v [''data'', ''status_label''] label = Inr True \<Longrightarrow> req' = req \<Longrightarrow>
     answered_status X (Sent req' (Inr (Response code body))) req label"
  by (simp add: answered_status_def)

theorem rabbitmq_success_evidence:
  assumes "rabbitmq_script X s = (0, s')"
  shows "\<exists>products product_id o1 o2 o3 i1 i2 i3 a1 b1 a2 b2 a3 b3.
     sk_calls s' = sk_calls s @ [products] @ [a1] @ [b1] @ [a2] @ [b2] @ [a3] @ [b3] \<and>
     rabbitmq_created X product_id o1 i1 a1 \<and>
     answered_status X b1 (header_request (rabbitmq_order_url X @ ''/orders/'' @ py_str i1 @ ''/cancel'') ''POST'' PNone USER_HEADERS) ''CANCELLED'' \<and>
     rabbitmq_created X product_id o2 i2 a2 \<and>
     answered_status X b2 (header_request (rabbitmq_order_url X @ ''/admin/orders/'' @ py_str i2 @ ''/approve'') ''POST'' (PDict []) ADMIN_HEADERS) ''APPROVED'' \<and>
     rabbitmq_created X product_id o3 i3 a3 \<and>
     answered_status X b3 (header_request (rabbitmq_order_url X @ ''/admin/orders/'' @ py_str i3 @ ''/reject'') ''POST''
       (PDict [(''reject_reason'', PStr ''Sandbox RabbitMQ smoke test'')]) ADMIN_HEADERS) ''REJECTED''"
proof -
  have main: "rabbitmq_main X s = (Inr (), s')"
    using assms by (simp add: rabbitmq_script_def run_main_0)
  show ?thesis
    using main unfolding rabbitmq_main_def
    apply (elim checkout_elims rabbitmq_bindE rabbitmq_create_order_bindE print_event_bindE)
    apply (intro exI conjI)
    apply (simp only: append_assoc)
    apply (rule rabbitmq_createdI answered_statusI; (assumption | rule refl))+
    done
qed

section \<open>A reference environment\<close>

text \<open>
  An HTTP server with prepared replies, a clock that only pauses move, and commands whose output
  depends on the time alone.
\<close>

type_synonym smoke_world = "http_reply list \<times> int"

definition ref_smoke_env :: "(string list \<Rightarrow> int \<Rightarrow> string) \<Rightarrow> smoke_world smoke_env" where
  "ref_smoke_env output =
     \<lparr>se_getenv = (\<lambda>_. None),
      se_urlopen = (\<lambda>_ (replies, t). case replies of [] \<Rightarrow> (Inl OSError, ([], t)) | r # rs \<Rightarrow> (Inr r, (rs, t))),
      se_time = (\<lambda>(replies, t). (t, (replies, t))),
      se_sleep = (\<lambda>secs (replies, t). case timestamp_microseconds secs of
          Inl e \<Rightarrow> (Inl e, (replies, t))
        | Inr us \<Rightarrow> (if us < 0 then (Inl ValueError, (replies, t)) else (Inr (), (replies, t + us)))),
      se_run = (\<lambda>cmd (replies, t). (Inr \<lparr>cp_returncode = 0, cp_stdout = output cmd t, cp_stderr = []\<rparr>, (replies, t))),
      se_exc_text = (\<lambda>_. []), se_json = (\<lambda>_. Inl JSONDecodeError)\<rparr>"

abbreviation quiet_env :: "smoke_world smoke_env" where
  "quiet_env \<equiv> ref_smoke_env (\<lambda>_ _. [])"

definition ref_smoke_state :: "http_reply list \<Rightarrow> smoke_world smoke_state" where
  "ref_smoke_state replies = \<lparr>sk_stdout = [], sk_stderr = [], sk_calls = [], sk_world = (replies, 0)\<rparr>"

definition json_reply :: "int \<Rightarrow> pyval \<Rightarrow> http_reply" where
  "json_reply code v =
     (if 200 \<le> code \<and> code < 300 then Response code (Inr (json_text v)) else HTTPError code (Inr (json_text v)))"

definition data_reply :: "(string \<times> pyval) list \<Rightarrow> http_reply" where
  "data_reply kvs = json_reply 200 (PDict [(''data'', PDict kvs)])"

definition login_reply :: "string \<Rightarrow> string \<Rightarrow> http_reply" where
  "login_reply token role = data_reply [(''access_token'', PStr token), (''role'', PStr role)]"

definition status_reply :: "int \<Rightarrow> string \<Rightarrow> http_reply" where
  "status_reply i label = data_reply [(''id'', PInt i), (''status_label'', PStr label)]"

definition session_replies :: "http_reply list" where
  "session_replies =
     [login_reply ''t1'' ''USER'', data_reply [(''username'', PStr ''john_smith'')],
      json_reply 200 (PDict [(''message'', PStr ''signed out'')]),
      json_reply 401 (PDict [(''detail'', PStr ''Access token has been revoked'')]),
      login_reply ''t2'' ''USER'', data_reply [(''username'', PStr ''john_smith'')],
      data_reply [(''items'', PList [PDict [], PDict []])]]"

definition checkout_replies :: "http_reply list" where
  "checkout_replies =
     [login_reply ''t1'' ''USER'', login_reply ''t2'' ''ADMIN'', data_reply [(''items'', PList [PDict [(''id'', PInt 1)]])],
      status_reply 1 ''PAYING'', status_reply 1 ''CANCELLED'',
      status_reply 2 ''PAYING'', json_reply 504 (PDict []), status_reply 2 ''PAID_PENDING_APPROVAL'', status_reply 2 ''SHIPPING'',
      status_reply 3 ''PAYING'', status_reply 3 ''PAID_PENDING_APPROVAL'', status_reply 3 ''REJECTED'',
      data_reply [(''items'', PList (map (\<lambda>label. PDict [(''status_label'', PStr label)]) [''REJECTED'', ''SHIPPING'', ''CANCELLED'']))],
      data_reply [(''items'', PList [PDict [(''id'', PInt 4)]])]]"

lemma session_run: "fst (phase2_script quiet_env (ref_smoke_state session_replies)) = 0"
  by code_simp

lemma checkout_run: "fst (phase1_script quiet_env (ref_smoke_state checkout_replies)) = 0"
  by code_simp

lemma pay_run: "fst (pay_order quiet_env (PStr ''t'') (PInt 2) (ref_smoke_state [json_reply 504 (PDict []), status_reply 2 ''PAID_PENDING_APPROVAL''])) =
   Inr (PDict [(''id'', PInt 2), (''status_label'', PStr ''PAID_PENDING_APPROVAL'')])"
  by code_simp

theorem phase2_success_witness:
  "\<exists>s'. phase2_script quiet_env (ref_smoke_state session_replies) = (0, s') \<and> length (sk_calls s') = 7"
proof -
  obtain s' where run: "phase2_script quiet_env (ref_smoke_state session_replies) = (0, s')"
    using session_run by (metis prod.collapse)
  with phase2_success_evidence [OF run] show ?thesis by (auto simp: ref_smoke_state_def)
qed

theorem checkout_success_witness:
  "\<exists>s' a rest user admin product_id order order_id signed.
     phase1_script quiet_env (ref_smoke_state checkout_replies) = (0, s') \<and> sk_calls s' = signed @ a # rest \<and>
     started quiet_env user admin product_id signed \<and> order_created quiet_env user product_id order order_id a"
proof -
  obtain s' where run: "phase1_script quiet_env (ref_smoke_state checkout_replies) = (0, s')"
    using checkout_run by (metis prod.collapse)
  from checkout_success_evidence [OF run] obtain user admin product_id order order_id signed a b rest where
    "sk_calls s' = signed @ [a, b] @ rest" "started quiet_env user admin product_id signed"
    "order_created quiet_env user product_id order order_id a"
    by (auto simp: ref_smoke_state_def)
  with run show ?thesis by (intro exI [of _ s'] exI [of _ a] exI [of _ "b # rest"] exI conjI) simp_all
qed

theorem pay_order_witness:
  "\<exists>s' payload replies reply.
     pay_order quiet_env (PStr ''t'') (PInt 2) (ref_smoke_state [json_reply 504 (PDict []), status_reply 2 ''PAID_PENDING_APPROVAL'']) =
       (Inr payload, s') \<and>
     sk_calls s' = timed_out_attempts quiet_env (PStr ''t'') (PInt 2) replies @ [pay_call quiet_env (PStr ''t'') (PInt 2) (Inr reply)] \<and>
     length replies < 5 \<and> paid quiet_env reply payload"
proof -
  obtain payload s' where run: "pay_order quiet_env (PStr ''t'') (PInt 2)
      (ref_smoke_state [json_reply 504 (PDict []), status_reply 2 ''PAID_PENDING_APPROVAL'']) = (Inr payload, s')"
    using pay_run by (metis prod.collapse)
  from pay_order_outcome [OF run] run show ?thesis by (fastforce simp: ref_smoke_state_def)
qed

end
