(* ===== verification/Sessions.thy ===== *)
theory Sessions
  imports Gateway User_Service
begin

text \<open>
  Tokens of the user service at the gateway: the settings both have to share, and the answer of
  the gateway to a token in terms of the revocation list in Redis.
\<close>

definition gateway_shares :: "'r gateway_env \<Rightarrow> ('r, 'd) user_env \<Rightarrow> bool" where
  "gateway_shares G E \<longleftrightarrow>
     ge_jwt G = ue_jwt E \<and> ge_redis G = ue_redis E \<and> gw_redis_enabled (ge_settings G) \<and>
     gw_jwt_secret (ge_settings G) = us_jwt_secret (ue_settings E) \<and>
     gw_jwt_algorithm (ge_settings G) = us_jwt_algorithm (ue_settings E)"

lemma gw_user_of_token:
  assumes "fst (gw_is_token_blacklisted G token s) = b" and "token \<noteq> []"
  shows "fst (gw_get_current_user G (Some (bearer token)) s) =
     (if b then Inl (http_error 401 ''Access token has been revoked'')
      else bind_res (fst (gw_decode_token G token s)) (\<lambda>u. Inr (Some u)))"
  using assms
  by (auto simp: gw_get_current_user_def bind_prog_def gw_decode_token_def bind_res_def
      split: prod.splits sum.splits option.splits)

lemma gw_answer_cong:
  assumes "fst (gw_is_token_blacklisted G token s1) = fst (gw_is_token_blacklisted G token s2)"
  shows "fst (gw_get_current_user G (Some (bearer token)) s1) = fst (gw_get_current_user G (Some (bearer token)) s2)"
proof (cases "token = []")
  case True
  then show ?thesis by (simp add: gw_get_current_user_def)
next
  case False
  have "fst (gw_decode_token G token s1) = fst (gw_decode_token G token s2)"
    using assms by (auto simp: gw_decode_token_def split: prod.splits bool.splits option.splits)
  then show ?thesis using gw_user_of_token [OF assms False] gw_user_of_token [OF refl False, of G s2] by simp
qed

lemma gw_blacklisted_view:
  assumes "user_redis E view clock up steady elapse" and "gateway_shares G E" and "steady s"
  shows "fst (gw_is_token_blacklisted G token s) = (\<exists>v e. view s (us_blacklist_key token) = Some (RStr v, e))"
proof -
  note srv = user_redis.axioms(1) [OF assms(1)]
  show ?thesis
    using implements_up(1) [OF redis_server.get_law [OF srv] redis_server.steady_up [OF srv assms(3)], of "us_blacklist_key token"] assms(2)
    by (auto simp: gw_is_token_blacklisted_def gw_safe_execute_def gw_get_redis_client_def gateway_shares_def
        safe_execute_Some case_prod_unfold ks_get_def gw_blacklist_key_def us_blacklist_key_def
        split: option.splits rvalue.splits sum.splits)
qed

lemma ref_gateway_shares: "gateway_shares ref_gateway_env ref_user_env"
  by (simp add: gateway_shares_def ref_gateway_env_def ref_user_env_def gateway_default_settings_def
      user_default_settings_def)

end
