(* ===== verification/Web.thy ===== *)
theory Web
  imports Gateway Product_Routes
begin

text \<open>
  The web framework around the endpoints: what the services rely on of FastAPI, Starlette and
  httpx when a request reaches an endpoint and its result becomes a response.

  The framework is not part of the repository: it is the parameter \<open>W :: web_lib\<close>, and the locale
  \<open>web_framework\<close> states the documented behaviour the properties use. The order in which
  routes are tried, and the responses for exceptions, are written out in \<open>dispatch\<close> and
  \<open>error_response\<close>. \<open>ref_web\<close> shows that the laws can be met.
\<close>

section \<open>Paths and route templates\<close>

text \<open>The segments of a path: \<^verbatim>\<open>path.split("/")\<close>.\<close>

fun split_path :: "string \<Rightarrow> string list" where
  "split_path [] = [[]]"
| "split_path (c # cs) =
     (if c = CHR ''/'' then [] # split_path cs
      else (case split_path cs of [] \<Rightarrow> [[c]] | s # ss \<Rightarrow> (c # s) # ss))"

fun join_path :: "string list \<Rightarrow> string" where
  "join_path [] = []"
| "join_path [s] = s"
| "join_path (s # t # ss) = s @ CHR ''/'' # join_path (t # ss)"

text \<open>
  The segment \<open>{name}\<close> of a template takes any non-empty segment of the path, \<open>{path:path}\<close> at
  the end takes the rest of the path, and every other segment takes only itself.
\<close>

definition is_param :: "string \<Rightarrow> bool" where
  "is_param t = (t \<noteq> [] \<and> hd t = CHR ''{'' \<and> last t = CHR ''}'')"

definition param_name :: "string \<Rightarrow> string" where
  "param_name t = butlast (tl t)"

type_synonym path_params = "(string \<times> string) list"

fun match_segments :: "string list \<Rightarrow> string list \<Rightarrow> path_params option" where
  "match_segments [] [] = Some []"
| "match_segments (t # ts) (s # ss) =
     (if t = ''{path:path}'' \<and> ts = [] then Some [(''path'', join_path (s # ss))]
      else if is_param t
      then (if s = [] then None else map_option (\<lambda>ps. (param_name t, s) # ps) (match_segments ts ss))
      else if t = s then match_segments ts ss else None)"
| "match_segments _ _ = None"

text \<open>A path without the segments \<^verbatim>\<open>.\<close> and \<^verbatim>\<open>..\<close>, which URL libraries resolve.\<close>

definition no_dot_segments :: "string \<Rightarrow> bool" where
  "no_dot_segments path = list_all (\<lambda>s. s \<noteq> ''.'' \<and> s \<noteq> ''..'') (split_path path)"

text \<open>
  The path component of the path text of a URL, up to the first \<^verbatim>\<open>?\<close> or \<^verbatim>\<open>#\<close>; and the part of
  it before the first escape.
\<close>

definition url_path :: "string \<Rightarrow> string" where
  "url_path path = takeWhile (\<lambda>c. c \<noteq> CHR ''?'' \<and> c \<noteq> CHR ''#'') path"

definition literal_part :: "string \<Rightarrow> string" where
  "literal_part path = takeWhile (\<lambda>c. c \<noteq> CHR ''%'') (url_path path)"

text \<open>Without a newline at the end: Python's \<^verbatim>\<open>$\<close> also matches before one.\<close>

definition chomp :: "string \<Rightarrow> string" where
  "chomp s = (if s \<noteq> [] \<and> last s = CHR 0x0A then butlast s else s)"

definition plain_char :: "char \<Rightarrow> bool" where
  "plain_char c = (c \<in> set ''abcdefghijklmnopqrstuvwxyz0123456789-_/'')"

text \<open>The query string of names and values, and the target of a request with that query.\<close>

fun query_text :: "(string \<times> string) list \<Rightarrow> string" where
  "query_text [] = []"
| "query_text [(k, v)] = k @ CHR ''='' # v"
| "query_text ((k, v) # kv # kvs) = k @ CHR ''='' # v @ CHR ''&'' # query_text (kv # kvs)"

definition request_target :: "string \<Rightarrow> (string \<times> string) list \<Rightarrow> string" where
  "request_target path kvs = (if kvs = [] then path else path @ CHR ''?'' # query_text kvs)"

definition plain_pairs :: "(string \<times> string) list \<Rightarrow> bool" where
  "plain_pairs kvs = list_all (\<lambda>(k, v). k \<noteq> [] \<and> v \<noteq> [] \<and> list_all plain_char k \<and> list_all plain_char v) kvs"

section \<open>The framework\<close>

record cors_options =
  co_allow_origins :: "string list"
  co_allow_credentials :: bool
  co_allow_methods :: "string list"
  co_allow_headers :: "string list"

text \<open>
  \<^item> \<open>wl_match\<close>: whether a route template matches a path, and the values of its parameters;
  \<^item> \<open>wl_target\<close>: path and query parameters of a request target, decoded;
  \<^item> \<open>wl_body\<close>: the JSON value of a request body, \<open>None\<close> for an empty body, an exception for
    invalid JSON;
  \<^item> \<open>wl_upload\<close>: name and bytes of the uploaded file of a form;
  \<^item> \<open>wl_int\<close>, \<open>wl_bool\<close>, \<open>wl_pydantic\<close>: pydantic on query and path strings and on JSON values;
  \<^item> \<open>wl_render\<close>, \<open>wl_datetime\<close>: the JSON text of a response, and of a date in it;
  \<^item> \<open>wl_invalid\<close>: the error list of a validation error;
  \<^item> \<open>wl_page\<close>: the pages of the framework itself (documentation, metrics, slash redirects);
  \<^item> \<open>wl_deliver\<close>: the path the server sees when httpx requests a URL with that path text: httpx
    takes the text up to a \<^verbatim>\<open>?\<close> or \<^verbatim>\<open>#\<close>, resolves dot segments, and escapes what needs escaping but
    leaves the escapes that are there, and uvicorn decodes all of them; \<open>None\<close> when httpx refuses
    the URL;
  \<^item> \<open>wl_cors\<close>: the CORS middleware: its own answer to a preflight request, and what it does to
    other responses.
\<close>

record web_lib =
  wl_match :: "string \<Rightarrow> string \<Rightarrow> path_params option"
  wl_target :: "string \<Rightarrow> string \<times> (string \<times> string) list"
  wl_body :: "(string \<times> string) list \<Rightarrow> string \<Rightarrow> pyval option res"
  wl_upload :: "(string \<times> string) list \<Rightarrow> string \<Rightarrow> (string option \<times> int list) option"
  wl_int :: "string \<Rightarrow> int option"
  wl_bool :: "string \<Rightarrow> bool option"
  wl_pydantic :: pydantic
  wl_render :: "pyval \<Rightarrow> string"
  wl_datetime :: "int \<Rightarrow> string"
  wl_invalid :: "http_request \<Rightarrow> pyval"
  wl_page :: "http_request \<Rightarrow> upstream_response"
  wl_deliver :: "string \<Rightarrow> string option"
  wl_cors :: "cors_options \<Rightarrow> http_request \<Rightarrow> http_response option \<times> (http_response \<Rightarrow> http_response)"

locale web_framework =
  pydantic_json "wl_pydantic W" for W :: web_lib +
  assumes match_law: "CHR 0x0A \<notin> set path \<Longrightarrow> wl_match W t path = match_segments (split_path t) (split_path path)"
    and match_newline:
      "wl_match W t path \<noteq> None \<Longrightarrow>
         match_segments (split_path t) (split_path path) \<noteq> None \<or> match_segments (split_path t) (split_path (chomp path)) \<noteq> None"
    and target_law:
      "list_all plain_char path \<Longrightarrow> plain_pairs kvs \<Longrightarrow> wl_target W (request_target path kvs) = (path, kvs)"
    and body_law:
      "header_get hs ''content-type'' = Some ''application/json'' \<Longrightarrow> is_ascii text \<Longrightarrow> json_loads text = Some v \<Longrightarrow>
         wl_body W hs text = Inr (Some v)"
    and body_empty: "wl_body W hs [] = Inr None"
    and int_law: "length (int_str i) \<le> 4300 \<Longrightarrow> wl_int W (int_str i) = Some i"
    and render_law: "json_ok v \<Longrightarrow> json_loads (wl_render W v) = Some v"
    and deliver_law:
      "no_dot_segments (url_path path) \<Longrightarrow> wl_deliver W path = Some p \<Longrightarrow> startswith p (literal_part path)"
    and deliver_plain:
      "no_dot_segments path \<Longrightarrow> list_all plain_char path \<Longrightarrow>
         wl_deliver W path = Some path"
    and cors_law: "header_get (rq_headers request) ''origin'' = None \<Longrightarrow> wl_cors W options request = (None, id)"

text \<open>A reference framework; its parser of request targets does not decode escapes.\<close>

fun split_at :: "char \<Rightarrow> string \<Rightarrow> string list" where
  "split_at sp [] = [[]]"
| "split_at sp (c # cs) =
     (if c = sp then [] # split_at sp cs
      else (case split_at sp cs of [] \<Rightarrow> [[c]] | s # ss \<Rightarrow> (c # s) # ss))"

definition ref_target :: "string \<Rightarrow> string \<times> (string \<times> string) list" where
  "ref_target target =
     (case partition_str (CHR ''?'') target of
        (path, sp, query) \<Rightarrow>
          (path, if query = [] then []
                 else map (\<lambda>kv. case partition_str (CHR ''='') kv of (k, sp, v) \<Rightarrow> (k, v)) (split_at (CHR ''&'') query)))"

text \<open>Dot segments are resolved from left to right.\<close>

fun resolve_dots :: "string list \<Rightarrow> string list \<Rightarrow> string list" where
  "resolve_dots out [] = out"
| "resolve_dots out (s # ss) =
     (if s = ''.'' then resolve_dots out ss
      else if s = ''..'' then resolve_dots (if out = [] \<or> out = [[]] then out else butlast out) ss
      else resolve_dots (out @ [s]) ss)"

text \<open>Escapes are decoded one by one.\<close>

fun unquote :: "string \<Rightarrow> string" where
  "unquote (c # a # b # cs) =
     (case (if c = CHR ''%'' then (hex_val a, hex_val b) else (None, None)) of
        (Some x, Some y) \<Rightarrow> char_of (16 * x + y) # unquote cs
      | _ \<Rightarrow> c # unquote (a # b # cs))"
| "unquote cs = cs"

definition ref_deliver :: "string \<Rightarrow> string option" where
  "ref_deliver path =
     (let q = url_path path
      in Some (unquote (if no_dot_segments q then q else join_path (resolve_dots [] (split_path q)))))"

lemma unquote_literal: "startswith (unquote s) (takeWhile (\<lambda>c. c \<noteq> CHR ''%'') s)"
  by (induction s rule: unquote.induct) auto

lemma unquote_same: "CHR ''%'' \<notin> set s \<Longrightarrow> unquote s = s"
  by (induction s rule: unquote.induct) auto

lemma ref_deliver_law:
  "no_dot_segments (url_path path) \<Longrightarrow> ref_deliver path = Some p \<Longrightarrow> startswith p (literal_part path)"
  using unquote_literal by (auto simp: ref_deliver_def literal_part_def)

lemma ref_deliver_plain:
  assumes "no_dot_segments path" and "list_all plain_char path"
  shows "ref_deliver path = Some path"
proof -
  have "\<not> plain_char (CHR ''?'')" "\<not> plain_char (CHR ''#'')" "\<not> plain_char (CHR ''%'')" by (simp_all add: plain_char_def)
  then have "CHR ''?'' \<notin> set path" "CHR ''#'' \<notin> set path" "CHR ''%'' \<notin> set path"
    using assms(2) unfolding list_all_iff by metis+
  moreover from this have "url_path path = path" unfolding url_path_def by (subst takeWhile_eq_all_conv) blast
  ultimately show ?thesis using assms(1) by (simp add: ref_deliver_def unquote_same)
qed

lemma ref_deliver_decodes: "ref_deliver ''/products/%31'' = Some ''/products/1''"
  by code_simp

lemma split_at_free: "sp \<notin> set s \<Longrightarrow> split_at sp s = [s]" "sp \<notin> set s \<Longrightarrow> split_at sp (s @ sp # t) = s # split_at sp t"
  by (induction s) auto

lemma plain_char_free: "list_all plain_char s \<Longrightarrow> CHR ''?'' \<notin> set s \<and> CHR ''='' \<notin> set s \<and> CHR ''&'' \<notin> set s"
proof -
  have "\<not> plain_char (CHR ''?'')" "\<not> plain_char (CHR ''='')" "\<not> plain_char (CHR ''&'')" by (simp_all add: plain_char_def)
  moreover assume "list_all plain_char s"
  ultimately show ?thesis unfolding list_all_iff by metis
qed

lemma partition_at: "c \<notin> set s \<Longrightarrow> partition_str c (s @ c # t) = (s, [c], t)" "c \<notin> set s \<Longrightarrow> partition_str c s = (s, [], [])"
  by (induction s) (auto simp: partition_str_def)

lemma query_pairs:
  "plain_pairs kvs \<Longrightarrow> kvs \<noteq> [] \<Longrightarrow> query_text kvs \<noteq> [] \<and>
     map (\<lambda>kv. case partition_str (CHR ''='') kv of (k, sp, v) \<Rightarrow> (k, v)) (split_at (CHR ''&'') (query_text kvs)) = kvs"
proof (induction kvs rule: query_text.induct)
  case (2 k v)
  then show ?case using plain_char_free [of k] plain_char_free [of v]
    by (auto simp: plain_pairs_def split_at_free partition_at)
next
  case (3 k v kv kvs)
  have free: "CHR ''&'' \<notin> set (k @ CHR ''='' # v)" "CHR ''='' \<notin> set k"
    using 3(2) plain_char_free [of k] plain_char_free [of v] by (auto simp: plain_pairs_def)
  have q: "query_text ((k, v) # kv # kvs) = (k @ CHR ''='' # v) @ CHR ''&'' # query_text (kv # kvs)" by simp
  have "plain_pairs (kv # kvs)" using 3(2) by (simp add: plain_pairs_def)
  with 3(1) show ?case unfolding q split_at_free(2) [OF free(1)] by (simp add: partition_at(1) [OF free(2)])
qed simp

lemma ref_target_law: "list_all plain_char path \<Longrightarrow> plain_pairs kvs \<Longrightarrow> ref_target (request_target path kvs) = (path, kvs)"
  using query_pairs [of kvs] plain_char_free [of path]
  by (cases "kvs = []") (simp_all add: ref_target_def request_target_def partition_at)

definition ref_web :: web_lib where
  "ref_web =
     \<lparr>wl_match = (\<lambda>t path. match_segments (split_path t) (split_path path)),
      wl_target = ref_target,
      wl_body = (\<lambda>hs text. if text = [] then Inr None
         else if header_get hs ''content-type'' = Some ''application/json''
         then (case json_loads text of None \<Rightarrow> Inl RequestValidationError | Some v \<Rightarrow> Inr (Some v))
         else Inr (Some (PStr text))),
      wl_upload = (\<lambda>hs text. None),
      wl_int = int_of_str,
      wl_bool = (\<lambda>s. if s = ''true'' then Some True else if s = ''false'' then Some False else None),
      wl_pydantic = ref_pydantic,
      wl_render = json_text,
      wl_datetime = int_str,
      wl_invalid = (\<lambda>request. PList []),
      wl_page = (\<lambda>request. \<lparr>ur_status = 200, ur_headers = [], ur_content = []\<rparr>),
      wl_deliver = ref_deliver,
      wl_cors = (\<lambda>options request. (None, id))\<rparr>"

lemma json_loads_empty: "json_loads [] = None"
  by code_simp

interpretation ref_web: web_framework ref_web
  by unfold_locales
    (auto simp: ref_web_def ref_deliver_law ref_deliver_plain ref_pydantic_def ref_target_law json_loads_empty int_of_str_int_str
      json_dumps_def intro!: json_loads_dumps)

section \<open>Routes\<close>

text \<open>A route: its methods, its template and its endpoint.\<close>

datatype 'e route = Route (route_methods: "string list") (route_template: string) (route_endpoint: 'e)

datatype 'e dispatch = Routed 'e path_params | MethodNotAllowed | SlashRedirect | NoRoute

text \<open>The first route with that method whose template matches.\<close>

fun find_route :: "web_lib \<Rightarrow> 'e route list \<Rightarrow> string \<Rightarrow> string \<Rightarrow> ('e \<times> path_params) option" where
  "find_route W [] method path = None"
| "find_route W (Route methods t e # routes) method path =
     (case wl_match W t path of
        Some ps \<Rightarrow> (if method \<in> set methods then Some (e, ps) else find_route W routes method path)
      | None \<Rightarrow> find_route W routes method path)"

definition path_known :: "web_lib \<Rightarrow> 'e route list \<Rightarrow> string \<Rightarrow> bool" where
  "path_known W routes path = list_ex (\<lambda>r. wl_match W (route_template r) path \<noteq> None) routes"

text \<open>\<^verbatim>\<open>path.rstrip("/")\<close> for a path that ends with a slash, otherwise \<^verbatim>\<open>path + "/"\<close>.\<close>

definition toggle_slash :: "string \<Rightarrow> string" where
  "toggle_slash path =
     (if endswith path ''/'' then rev (dropWhile (\<lambda>c. c = CHR ''/'') (rev path)) else path @ ''/'')"

definition dispatch :: "web_lib \<Rightarrow> 'e route list \<Rightarrow> string \<Rightarrow> string \<Rightarrow> 'e dispatch" where
  "dispatch W routes method path =
     (case find_route W routes method path of
        Some (e, ps) \<Rightarrow> Routed e ps
      | None \<Rightarrow>
          (if path_known W routes path then MethodNotAllowed
           else if path \<noteq> ''/'' \<and> path_known W routes (toggle_slash path) then SlashRedirect
           else NoRoute))"

text \<open>The routes an application has besides its own: the documentation pages and the metrics.\<close>

datatype 'e app_endpoint = Framework | Own 'e

definition fastapi_docs :: "'e app_endpoint route list" where
  "fastapi_docs =
     [Route [''GET'', ''HEAD''] ''/openapi.json'' Framework, Route [''GET'', ''HEAD''] ''/docs'' Framework,
      Route [''GET'', ''HEAD''] ''/docs/oauth2-redirect'' Framework, Route [''GET'', ''HEAD''] ''/redoc'' Framework]"

definition own_routes :: "'e route list \<Rightarrow> 'e app_endpoint route list" where
  "own_routes routes = map (\<lambda>r. Route (route_methods r) (route_template r) (Own (route_endpoint r))) routes"

definition metrics_route :: "'e app_endpoint route" where
  "metrics_route = Route [''GET''] ''/metrics'' Framework"

section \<open>Responses\<close>

definition json_response :: "web_lib \<Rightarrow> int \<Rightarrow> pyval \<Rightarrow> upstream_response" where
  "json_response W status v =
     (let text = wl_render W v
      in \<lparr>ur_status = status,
          ur_headers = [(''content-length'', int_str (int (length text))), (''content-type'', ''application/json'')],
          ur_content = text\<rparr>)"

definition error_detail :: "pyval \<Rightarrow> pyval" where
  "error_detail v = PDict [(''detail'', v)]"

definition error_response :: "web_lib \<Rightarrow> http_request \<Rightarrow> py_exc \<Rightarrow> upstream_response" where
  "error_response W request e =
     (case e of
        HTTPException status v \<Rightarrow> json_response W status (error_detail v)
      | RequestValidationError \<Rightarrow> json_response W 422 (error_detail (wl_invalid W request))
      | _ \<Rightarrow>
          \<lparr>ur_status = 500,
           ur_headers = [(''content-length'', ''21''), (''content-type'', ''text/plain; charset=utf-8'')],
           ur_content = ''Internal Server Error''\<rparr>)"

text \<open>The JSON form of \<^verbatim>\<open>ApiResponse\<close>, by alias.\<close>

definition api_json :: "web_lib \<Rightarrow> ('a \<Rightarrow> pyval) \<Rightarrow> 'a api_response \<Rightarrow> pyval" where
  "api_json W dump resp =
     PDict [(''code'', PInt (ar_code resp)),
            (''message'', PStr (ar_message resp)),
            (''data'', json_opt dump (ar_data resp)),
            (''traceId'', PStr (ar_trace_id resp)),
            (''timestamp'', PStr (wl_datetime W (ar_timestamp resp)))]"

definition send ::
  "web_lib \<Rightarrow> http_request \<Rightarrow> ('a \<Rightarrow> pyval) \<Rightarrow> ('s, 'a api_response) prog \<Rightarrow> 's \<Rightarrow> upstream_response \<times> 's" where
  "send W request dump m s =
     (case m s of
        (Inr resp, s') \<Rightarrow> (json_response W 200 (api_json W dump resp), s')
      | (Inl e, s') \<Rightarrow> (error_response W request e, s'))"

text \<open>A probe answers a dictionary of strings.\<close>

definition send_probe :: "web_lib \<Rightarrow> (string \<times> string) list \<Rightarrow> 's \<Rightarrow> upstream_response \<times> 's" where
  "send_probe W d s = (json_response W 200 (PDict (map (\<lambda>(k, v). (k, PStr v)) d)), s)"

definition respond_dispatch ::
  "web_lib \<Rightarrow> 'e app_endpoint route list \<Rightarrow> ('e \<Rightarrow> path_params \<Rightarrow> http_request \<Rightarrow> 's \<Rightarrow> upstream_response \<times> 's) \<Rightarrow>
     http_request \<Rightarrow> 's \<Rightarrow> upstream_response \<times> 's" where
  "respond_dispatch W routes call request s =
     (case dispatch W routes (rq_method request) (rq_path request) of
        Routed (Own e) ps \<Rightarrow> call e ps request s
      | Routed Framework ps \<Rightarrow> (wl_page W request, s)
      | MethodNotAllowed \<Rightarrow> (error_response W request (http_error 405 ''Method Not Allowed''), s)
      | SlashRedirect \<Rightarrow> (wl_page W request, s)
      | NoRoute \<Rightarrow> (error_response W request (http_error 404 ''Not Found''), s))"

section \<open>Parameters\<close>

text \<open>
  Parameters are converted after the dependencies of the endpoint have run (\<open>dep\<close>), except that
  invalid JSON is refused first; a parameter that cannot be converted is a validation error.
\<close>

definition with_params :: "('s, unit) prog \<Rightarrow> 'p option \<Rightarrow> ('p \<Rightarrow> ('s, 'a) prog) \<Rightarrow> ('s, 'a) prog" where
  "with_params dep params run =
     (case params of
        None \<Rightarrow> bind_prog dep (\<lambda>_. raise_prog RequestValidationError)
      | Some p \<Rightarrow> run p)"

definition with_body ::
  "web_lib \<Rightarrow> http_request \<Rightarrow> ('s, unit) prog \<Rightarrow> (pyval option \<Rightarrow> 'p option) \<Rightarrow> ('p \<Rightarrow> ('s, 'a) prog) \<Rightarrow> ('s, 'a) prog" where
  "with_body W request dep decode run =
     (case wl_body W (rq_headers request) (rq_body request) of
        Inl e \<Rightarrow> raise_prog e
      | Inr v \<Rightarrow> with_params dep (decode v) run)"

definition path_int :: "web_lib \<Rightarrow> path_params \<Rightarrow> string \<Rightarrow> int option" where
  "path_int W ps name = Option.bind (map_of ps name) (wl_int W)"

definition query_value :: "(string \<Rightarrow> 'a option) \<Rightarrow> 'a \<Rightarrow> http_request \<Rightarrow> string \<Rightarrow> 'a option" where
  "query_value conv dflt request name =
     (case map_of (rev (rq_query request)) name of None \<Rightarrow> Some dflt | Some s \<Rightarrow> conv s)"

definition result_option :: "'a res \<Rightarrow> 'a option" where
  "result_option r = (case r of Inl e \<Rightarrow> None | Inr x \<Rightarrow> Some x)"

definition body_fields :: "((string \<times> pyval) list \<Rightarrow> 'p res) \<Rightarrow> pyval option \<Rightarrow> 'p option" where
  "body_fields parse v =
     (case v of Some (PDict d) \<Rightarrow> result_option (parse d) | _ \<Rightarrow> None)"

definition header :: "http_request \<Rightarrow> string \<Rightarrow> string option" where
  "header request name = header_get (rq_headers request) name"

end
