(* ===== verification/Applications.thy ===== *)
theory Applications
  imports Web Csv_Import
begin

text \<open>
  The applications of the user service and of the product service (\<^verbatim>\<open>main.py\<close>): their routes in
  the order in which they are registered (\<^verbatim>\<open>api/routes.py\<close>), and the way from a request to
  the endpoint and back: path, query, header and body parameters, and the JSON of the results.
\<close>

section \<open>The user service\<close>

datatype user_endpoint =
    U_health | U_ready | U_live
  | U_login | U_logout | U_me | U_update_me | U_change_password
  | U_get_login_policy | U_update_login_policy | U_get_user | U_list_users | U_update_user_login_policy

definition user_routes :: "user_endpoint route list" where
  "user_routes =
     [Route [''GET''] ''/health'' U_health,
      Route [''GET''] ''/ready'' U_ready,
      Route [''GET''] ''/live'' U_live,
      Route [''POST''] ''/auth/login'' U_login,
      Route [''POST''] ''/auth/logout'' U_logout,
      Route [''GET''] ''/users/me'' U_me,
      Route [''PUT''] ''/users/me/profile'' U_update_me,
      Route [''PUT''] ''/users/me/password'' U_change_password,
      Route [''GET''] ''/admin/users/login-policy'' U_get_login_policy,
      Route [''PUT''] ''/admin/users/login-policy'' U_update_login_policy,
      Route [''GET''] ''/admin/users/{user_id}'' U_get_user,
      Route [''GET''] ''/admin/users'' U_list_users,
      Route [''PUT''] ''/admin/users/{user_id}/login-policy'' U_update_user_login_policy]"

definition user_app_routes :: "user_endpoint app_endpoint route list" where
  "user_app_routes = fastapi_docs @ own_routes user_routes @ [metrics_route]"

subsection \<open>The JSON of the responses\<close>

definition login_dump :: "login_response \<Rightarrow> pyval" where
  "login_dump r =
     PDict [(''access_token'', PStr (lp_access_token r)),
            (''token_type'', PStr (lp_token_type r)),
            (''expires_in'', PInt (lp_expires_in r)),
            (''user_id'', PInt (lp_user_id r)),
            (''username'', PStr (lp_username r)),
            (''role'', PStr (lp_role r))]"

definition profile_dump :: "user_profile_response \<Rightarrow> pyval" where
  "profile_dump r =
     PDict [(''id'', PInt (up_id r)),
            (''userno'', PStr (up_userno r)),
            (''username'', PStr (up_username r)),
            (''nickname'', json_opt PStr (up_nickname r)),
            (''phone'', json_opt PStr (up_phone r)),
            (''email'', json_opt PStr (up_email r)),
            (''role'', PStr (up_role r))]"

definition login_policy_dump :: "login_policy_response \<Rightarrow> pyval" where
  "login_policy_dump r = PDict [(''user_login_enabled'', PBool (ls_user_login_enabled r))]"

definition login_flag_dump :: "user_login_flag \<Rightarrow> pyval" where
  "login_flag_dump r =
     PDict [(''user_id'', PInt (uf_user_id r)), (''user_login_enabled'', PBool (uf_user_login_enabled r))]"

definition user_item_dump :: "admin_user_list_item \<Rightarrow> pyval" where
  "user_item_dump r =
     PDict [(''id'', PInt (up_id r)),
            (''userno'', PStr (up_userno r)),
            (''username'', PStr (up_username r)),
            (''nickname'', json_opt PStr (up_nickname r)),
            (''phone'', json_opt PStr (up_phone r)),
            (''email'', json_opt PStr (up_email r)),
            (''role'', PStr (up_role r)),
            (''login_enabled'', PBool (ai_login_enabled r))]"

definition user_page_dump :: "admin_user_page_response \<Rightarrow> pyval" where
  "user_page_dump r =
     PDict [(''page'', PInt (ap_page r)),
            (''size'', PInt (ap_size r)),
            (''total'', PInt (ap_total r)),
            (''items'', PList (map user_item_dump (ap_items r)))]"

abbreviation no_data :: "unit \<Rightarrow> pyval" where
  "no_data \<equiv> (\<lambda>_. PNone)"

subsection \<open>The bodies of the requests\<close>

definition login_request_of :: "pydantic \<Rightarrow> (string \<times> pyval) list \<Rightarrow> login_request res" where
  "login_request_of Y d =
     bind_res (field (pd_str Y) d ''username'') (\<lambda>username.
     bind_res (field (pd_str Y) d ''password'') (\<lambda>password.
       Inr \<lparr>lr_username = username, lr_password = password\<rparr>))"

definition update_profile_request_of :: "pydantic \<Rightarrow> (string \<times> pyval) list \<Rightarrow> update_profile_request res" where
  "update_profile_request_of Y d =
     bind_res (field_optional (pd_str Y) d ''nickname'') (\<lambda>nickname.
     bind_res (field_optional (pd_str Y) d ''phone'') (\<lambda>phone.
     bind_res (field_optional (pd_str Y) d ''email'') (\<lambda>email.
       Inr \<lparr>pr_nickname = nickname, pr_phone = phone, pr_email = email\<rparr>)))"

definition change_password_request_of :: "pydantic \<Rightarrow> (string \<times> pyval) list \<Rightarrow> change_password_request res" where
  "change_password_request_of Y d =
     bind_res (field (pd_str Y) d ''old_password'') (\<lambda>old_password.
     bind_res (field (pd_str Y) d ''new_password'') (\<lambda>new_password.
       Inr \<lparr>cp_old_password = old_password, cp_new_password = new_password\<rparr>))"

definition login_policy_request_of :: "pydantic \<Rightarrow> (string \<times> pyval) list \<Rightarrow> login_policy_request res" where
  "login_policy_request_of Y d =
     bind_res (field (pd_bool Y) d ''user_login_enabled'') (\<lambda>enabled. Inr \<lparr>lq_user_login_enabled = enabled\<rparr>)"

subsection \<open>The application\<close>

text \<open>\<^verbatim>\<open>Depends(get_current_claims)\<close>.\<close>

definition claims_dependency ::
  "('r, 'd) user_env \<Rightarrow> http_request \<Rightarrow> (('r, 'd) service_state, unit) prog" where
  "claims_dependency E request =
     bind_prog (with_redis (get_current_claims E (header request ''authorization''))) (\<lambda>_. return_prog ())"

definition pair_option :: "'a option \<Rightarrow> 'b option \<Rightarrow> ('a \<times> 'b) option" where
  "pair_option a b = Option.bind a (\<lambda>x. map_option (\<lambda>y. (x, y)) b)"

fun user_call ::
  "web_lib \<Rightarrow> ('r, 'd) user_env \<Rightarrow> user_endpoint \<Rightarrow> path_params \<Rightarrow> http_request \<Rightarrow> ('r, 'd) service_state \<Rightarrow>
     upstream_response \<times> ('r, 'd) service_state" where
  "user_call W E U_health ps request = send_probe W us_health"
| "user_call W E U_ready ps request = send_probe W us_ready"
| "user_call W E U_live ps request = send_probe W us_live"
| "user_call W E U_login ps request =
     send W request login_dump
       (with_body W request (return_prog ()) (body_fields (login_request_of (wl_pydantic W))) (login_endpoint E))"
| "user_call W E U_logout ps request =
     send W request no_data (logout_endpoint E (header request ''authorization''))"
| "user_call W E U_me ps request =
     send W request profile_dump (me E (header request ''authorization''))"
| "user_call W E U_update_me ps request =
     send W request profile_dump
       (with_body W request (claims_dependency E request) (body_fields (update_profile_request_of (wl_pydantic W)))
         (\<lambda>payload. update_me E payload (header request ''authorization'')))"
| "user_call W E U_change_password ps request =
     send W request no_data
       (with_body W request (claims_dependency E request) (body_fields (change_password_request_of (wl_pydantic W)))
         (\<lambda>payload. change_my_password E payload (header request ''authorization'')))"
| "user_call W E U_get_login_policy ps request =
     send W request login_policy_dump (get_login_policy E (header request ''x-user-role''))"
| "user_call W E U_update_login_policy ps request =
     send W request login_policy_dump
       (with_body W request (return_prog ()) (body_fields (login_policy_request_of (wl_pydantic W)))
         (\<lambda>payload. update_login_policy E payload (header request ''x-user-role'')))"
| "user_call W E U_get_user ps request =
     send W request profile_dump
       (with_params (return_prog ()) (path_int W ps ''user_id'')
         (\<lambda>user_id. get_user_by_admin E user_id (header request ''x-user-role'')))"
| "user_call W E U_list_users ps request =
     send W request user_page_dump
       (with_params (return_prog ())
         (pair_option (query_value (wl_int W) 1 request ''page'') (query_value (wl_int W) 10 request ''size''))
         (\<lambda>(page, sz). list_users_endpoint E page sz (header request ''x-user-role'')))"
| "user_call W E U_update_user_login_policy ps request =
     send W request login_flag_dump
       (with_body W request (return_prog ())
         (\<lambda>v. pair_option (path_int W ps ''user_id'') (body_fields (login_policy_request_of (wl_pydantic W)) v))
         (\<lambda>(user_id, payload). update_user_login_policy E user_id payload (header request ''x-user-role'')))"

definition user_app ::
  "web_lib \<Rightarrow> ('r, 'd) user_env \<Rightarrow> http_request \<Rightarrow> ('r, 'd) service_state \<Rightarrow>
     upstream_response \<times> ('r, 'd) service_state" where
  "user_app W E = respond_dispatch W user_app_routes (user_call W E)"

section \<open>The product service\<close>

datatype product_endpoint =
    P_health | P_ready | P_live
  | P_list | P_get | P_my_coupons | P_my_issue | P_my_selection
  | P_create | P_import | P_update | P_update_status | P_update_stock
  | P_internal_get | P_reserve | P_release | P_issue_coupon | P_claim_coupon

definition product_routes :: "product_endpoint route list" where
  "product_routes =
     [Route [''GET''] ''/health'' P_health,
      Route [''GET''] ''/ready'' P_ready,
      Route [''GET''] ''/live'' P_live,
      Route [''GET''] ''/products'' P_list,
      Route [''GET''] ''/products/{product_id}'' P_get,
      Route [''GET''] ''/products/me/coupons'' P_my_coupons,
      Route [''GET''] ''/products/me/coupons/orders/{order_no}/issued'' P_my_issue,
      Route [''GET''] ''/products/me/coupons/orders/{order_no}/selected'' P_my_selection,
      Route [''POST''] ''/admin/products'' P_create,
      Route [''POST''] ''/admin/products/import'' P_import,
      Route [''PUT''] ''/admin/products/{product_id}'' P_update,
      Route [''PUT''] ''/admin/products/{product_id}/status'' P_update_status,
      Route [''PUT''] ''/admin/products/{product_id}/stock'' P_update_stock,
      Route [''GET''] ''/internal/products/{product_id}'' P_internal_get,
      Route [''POST''] ''/internal/products/{product_id}/reserve'' P_reserve,
      Route [''POST''] ''/internal/products/{product_id}/release'' P_release,
      Route [''POST''] ''/internal/products/{userId}/coupons/issue'' P_issue_coupon,
      Route [''POST''] ''/internal/products/{userId}/coupons/claim-best'' P_claim_coupon]"

definition product_app_routes :: "product_endpoint app_endpoint route list" where
  "product_app_routes = fastapi_docs @ own_routes product_routes @ [metrics_route]"

subsection \<open>The JSON of the responses\<close>

definition balance_item_dump :: "coupon_balance_item \<Rightarrow> pyval" where
  "balance_item_dump i =
     PDict [(''coupon_type'', PInt (bi_coupon_type i)),
            (''discount_rate'', PStr (dec_str (bi_discount_rate i))),
            (''quantity'', PInt (bi_quantity i))]"

definition balances_dump :: "user_coupon_balance_response \<Rightarrow> pyval" where
  "balances_dump r =
     PDict [(''user_id'', PInt (ub_user_id r)), (''items'', PList (map balance_item_dump (ub_items r)))]"

definition order_issue_dump :: "user_order_coupon_issue_response \<Rightarrow> pyval" where
  "order_issue_dump r =
     PDict [(''user_id'', PInt (ci_user_id r)),
            (''order_no'', PStr (oi_order_no r)),
            (''order_amount'', PStr (dec_str (ci_order_amount r))),
            (''issued'', PBool (ci_issued r)),
            (''coupon_type'', json_opt PInt (ci_coupon_type r)),
            (''discount_rate'', json_opt (\<lambda>d. PStr (dec_str d)) (ci_discount_rate r)),
            (''balance_after_issue'', json_opt PInt (ci_balance_after_issue r)),
            (''message'', PStr (ci_message r))]"

definition order_selection_dump :: "user_order_coupon_selection_response \<Rightarrow> pyval" where
  "order_selection_dump r =
     PDict [(''user_id'', PInt (cb_user_id r)),
            (''order_no'', PStr (os_order_no r)),
            (''order_amount'', PStr (dec_str (cb_order_amount r))),
            (''claimed'', PBool (cb_claimed r)),
            (''coupon_type'', json_opt PInt (cb_coupon_type r)),
            (''discount_rate'', PStr (dec_str (cb_discount_rate r))),
            (''discount_amount'', PStr (dec_str (cb_discount_amount r))),
            (''final_amount'', PStr (dec_str (cb_final_amount r))),
            (''message'', PStr (cb_message r))]"

definition import_dump :: "import_result \<Rightarrow> pyval" where
  "import_dump r =
     PDict [(''total'', PInt (imp_total r)),
            (''imported'', PInt (imp_imported r)),
            (''updated'', PInt (imp_updated r)),
            (''failed'', PInt (imp_failed r)),
            (''success'', PInt (imp_success r)),
            (''errors'', PList (imp_errors r))]"

subsection \<open>The bodies of the requests\<close>

definition product_create_request_of :: "pydantic \<Rightarrow> (string \<times> pyval) list \<Rightarrow> product_create_request res" where
  "product_create_request_of Y d =
     bind_res (field (pd_str Y) d ''product_name'') (\<lambda>product_name.
     bind_res (field (pd_str Y) d ''product_code'') (\<lambda>product_code.
     bind_res (field (pd_decimal Y) d ''price'') (\<lambda>price.
     bind_res (field (pd_int Y) d ''stock'') (\<lambda>stock.
     bind_res (field_optional (pd_str Y) d ''category'') (\<lambda>category.
     bind_res (field_default (pd_int Y) 1 d ''status'') (\<lambda>status.
       Inr \<lparr>cr_product_name = product_name, cr_product_code = product_code, cr_price = price, cr_stock = stock,
            cr_category = category, cr_status = status\<rparr>))))))"

definition product_update_request_of :: "pydantic \<Rightarrow> (string \<times> pyval) list \<Rightarrow> product_update_request res" where
  "product_update_request_of Y d =
     bind_res (field (pd_str Y) d ''product_name'') (\<lambda>product_name.
     bind_res (field (pd_decimal Y) d ''price'') (\<lambda>price.
     bind_res (field (pd_int Y) d ''stock'') (\<lambda>stock.
     bind_res (field_optional (pd_str Y) d ''category'') (\<lambda>category.
     bind_res (field_default (pd_int Y) 1 d ''status'') (\<lambda>status.
       Inr \<lparr>pu_product_name = product_name, pu_price = price, pu_stock = stock, pu_category = category,
            pu_status = status\<rparr>)))))"

definition coupon_request_of :: "pydantic \<Rightarrow> (string \<times> pyval) list \<Rightarrow> coupon_request res" where
  "coupon_request_of Y d =
     bind_res (field (pd_decimal Y) d ''order_amount'') (\<lambda>order_amount.
     bind_res (field_optional (pd_str Y) d ''order_no'') (\<lambda>order_no.
       Inr \<lparr>cq_order_amount = order_amount, cq_order_no = order_no\<rparr>))"

subsection \<open>The application\<close>

definition admin_dependency :: "('r, 'd) product_env \<Rightarrow> http_request \<Rightarrow> ('s, unit) prog" where
  "admin_dependency E request =
     lift_res (require_admin E (header request ''x-user-role'') (header request ''authorization''))"

definition internal_dependency :: "('r, 'd) product_env \<Rightarrow> http_request \<Rightarrow> ('s, unit) prog" where
  "internal_dependency E request = lift_res (require_internal_caller E (header request ''x-internal-token''))"

text \<open>
  The import has two parameters more: \<open>errs\<close> as in \<open>import_products_endpoint\<close>, and \<open>wide\<close>, the
  service on files with characters beyond the range of the strings of this development.
\<close>

fun product_call ::
  "(csv_fields \<Rightarrow> pyval) \<Rightarrow> (http_request \<Rightarrow> ('r, 'd) service_state \<Rightarrow> upstream_response \<times> ('r, 'd) service_state) \<Rightarrow>
     web_lib \<Rightarrow> ('r, 'd) product_env \<Rightarrow> product_endpoint \<Rightarrow> path_params \<Rightarrow> http_request \<Rightarrow> ('r, 'd) service_state \<Rightarrow>
     upstream_response \<times> ('r, 'd) service_state" where
  "product_call errs wide W E P_health ps request = send_probe W ps_health"
| "product_call errs wide W E P_ready ps request = send_probe W ps_ready"
| "product_call errs wide W E P_live ps request = send_probe W ps_live"
| "product_call errs wide W E P_list ps request =
     send W request page_dump
       (with_params (return_prog ())
         (pair_option
           (pair_option (query_value (wl_int W) 1 request ''page'') (query_value (wl_int W) 10 request ''size''))
           (pair_option (query_value (\<lambda>s. Some (Some s)) None request ''keyword'')
             (query_value (wl_bool W) False request ''include_off_sale'')))
         (\<lambda>((page, sz), (keyword, include_off_sale)).
           list_products E page sz keyword include_off_sale (header request ''x-user-role'')))"
| "product_call errs wide W E P_get ps request =
     send W request product_dump (with_params (return_prog ()) (path_int W ps ''product_id'') (get_product E))"
| "product_call errs wide W E P_my_coupons ps request =
     send W request balances_dump (get_my_coupon_balances E (header request ''x-user-id''))"
| "product_call errs wide W E P_my_issue ps request =
     send W request order_issue_dump
       (with_params (return_prog ()) (map_of ps ''order_no'')
         (\<lambda>order_no. get_my_coupon_issue_by_order E order_no (header request ''x-user-id'')))"
| "product_call errs wide W E P_my_selection ps request =
     send W request order_selection_dump
       (with_params (return_prog ()) (map_of ps ''order_no'')
         (\<lambda>order_no. get_my_coupon_selection_by_order E order_no (header request ''x-user-id'')))"
| "product_call errs wide W E P_create ps request =
     send W request product_dump
       (with_body W request (admin_dependency E request) (body_fields (product_create_request_of (wl_pydantic W)))
         (\<lambda>payload. create_product_endpoint E payload (header request ''x-user-role'') (header request ''authorization'')))"
| "product_call errs wide W E P_import ps request =
     (case wl_upload W (rq_headers request) (rq_body request) of
        None \<Rightarrow>
          send W request import_dump
            (bind_prog (admin_dependency E request) (\<lambda>_. raise_prog RequestValidationError))
      | Some (filename, raw) \<Rightarrow>
          (case import_products_endpoint E errs filename raw (header request ''x-user-role'')
                  (header request ''authorization'') of
             None \<Rightarrow> wide request
           | Some m \<Rightarrow> send W request import_dump m))"
| "product_call errs wide W E P_update ps request =
     send W request product_dump
       (with_body W request (admin_dependency E request)
         (\<lambda>v. pair_option (path_int W ps ''product_id'') (body_fields (product_update_request_of (wl_pydantic W)) v))
         (\<lambda>(product_id, payload).
           update_product_endpoint E product_id payload (header request ''x-user-role'') (header request ''authorization'')))"
| "product_call errs wide W E P_update_status ps request =
     send W request product_dump
       (with_body W request (admin_dependency E request)
         (\<lambda>v. pair_option (path_int W ps ''product_id'') (body_fields (\<lambda>d. field (pd_int (wl_pydantic W)) d ''status'') v))
         (\<lambda>(product_id, status).
           update_product_status_endpoint E product_id status (header request ''x-user-role'') (header request ''authorization'')))"
| "product_call errs wide W E P_update_stock ps request =
     send W request product_dump
       (with_body W request (admin_dependency E request)
         (\<lambda>v. pair_option (path_int W ps ''product_id'') (body_fields (\<lambda>d. field (pd_int (wl_pydantic W)) d ''stock'') v))
         (\<lambda>(product_id, stock).
           update_product_stock_endpoint E product_id stock (header request ''x-user-role'') (header request ''authorization'')))"
| "product_call errs wide W E P_internal_get ps request =
     send W request internal_dump
       (with_params (return_prog ()) (path_int W ps ''product_id'') (get_internal_product E))"
| "product_call errs wide W E P_reserve ps request =
     send W request internal_dump
       (with_body W request (return_prog ())
         (\<lambda>v. pair_option (path_int W ps ''product_id'') (body_fields (\<lambda>d. field (pd_int (wl_pydantic W)) d ''quantity'') v))
         (\<lambda>(product_id, quantity). reserve_stock_endpoint E product_id quantity))"
| "product_call errs wide W E P_release ps request =
     send W request internal_dump
       (with_body W request (return_prog ())
         (\<lambda>v. pair_option (path_int W ps ''product_id'') (body_fields (\<lambda>d. field (pd_int (wl_pydantic W)) d ''quantity'') v))
         (\<lambda>(product_id, quantity). release_stock_endpoint E product_id quantity))"
| "product_call errs wide W E P_issue_coupon ps request =
     send W request issue_dump
       (with_body W request (internal_dependency E request)
         (\<lambda>v. pair_option (path_int W ps ''userId'') (body_fields (coupon_request_of (wl_pydantic W)) v))
         (\<lambda>(user_id, payload). issue_coupon_endpoint E user_id payload (header request ''x-internal-token'')))"
| "product_call errs wide W E P_claim_coupon ps request =
     send W request claim_dump
       (with_body W request (internal_dependency E request)
         (\<lambda>v. pair_option (path_int W ps ''userId'') (body_fields (coupon_request_of (wl_pydantic W)) v))
         (\<lambda>(user_id, payload). claim_best_coupon_endpoint E user_id payload (header request ''x-internal-token'')))"

definition product_app ::
  "(csv_fields \<Rightarrow> pyval) \<Rightarrow> (http_request \<Rightarrow> ('r, 'd) service_state \<Rightarrow> upstream_response \<times> ('r, 'd) service_state) \<Rightarrow>
     web_lib \<Rightarrow> ('r, 'd) product_env \<Rightarrow> http_request \<Rightarrow> ('r, 'd) service_state \<Rightarrow>
     upstream_response \<times> ('r, 'd) service_state" where
  "product_app errs wide W E = respond_dispatch W product_app_routes (product_call errs wide W E)"

end
