(* ===== verification/Routing.thy ===== *)
theory Routing
  imports Applications
begin

text \<open>
  Which endpoint answers a path: the route tables of the two services with their templates split
  into segments, and every endpoint is reached by the paths its template stands for.
\<close>

section \<open>Lemmas on paths\<close>

lemma split_path_nonempty [simp]: "split_path p \<noteq> []"
  by (induction p) (auto split: list.split)

lemma split_path_append: "CHR ''/'' \<notin> set s \<Longrightarrow> split_path (s @ CHR ''/'' # p) = s # split_path p"
  by (induction s) auto

lemma split_path_segment: "CHR ''/'' \<notin> set s \<Longrightarrow> split_path s = [s]"
  by (induction s) auto

lemma split_join: "ss \<noteq> [] \<Longrightarrow> \<forall>s \<in> set ss. CHR ''/'' \<notin> set s \<Longrightarrow> split_path (join_path ss) = ss"
  by (induction ss rule: join_path.induct) (auto simp: split_path_append split_path_segment)

lemma join_split [simp]: "join_path (split_path p) = p"
proof (induction p)
  case (Cons c p)
  obtain s ss where "split_path p = s # ss" using split_path_nonempty by (meson list.exhaust)
  with Cons show ?case by (cases ss) auto
qed simp

section \<open>Compiled route tables\<close>

type_synonym 'e compiled = "string list \<times> string list \<times> 'e"

definition compiled :: "'e route list \<Rightarrow> 'e compiled list" where
  "compiled routes = map (\<lambda>r. (route_methods r, split_path (route_template r), route_endpoint r)) routes"

fun find_compiled :: "'e compiled list \<Rightarrow> string \<Rightarrow> string list \<Rightarrow> ('e \<times> path_params) option" where
  "find_compiled [] method ss = None"
| "find_compiled ((methods, ts, e) # table) method ss =
     (if method \<in> set methods
      then (case match_segments ts ss of Some ps \<Rightarrow> Some (e, ps) | None \<Rightarrow> find_compiled table method ss)
      else find_compiled table method ss)"

lemma find_route_member:
  "find_route W routes m path = Some (e, ps) \<Longrightarrow>
     \<exists>r \<in> set routes. route_endpoint r = e \<and> wl_match W (route_template r) path \<noteq> None"
  by (induction W routes m path rule: find_route.induct) (auto split: option.splits if_splits)

lemma chomp_prefix: "\<exists>q. path = chomp path @ q"
proof (cases path rule: rev_exhaust)
  case (snoc q c)
  then show ?thesis by (cases "c = newline_char") (simp_all add: chomp_def)
qed (simp add: chomp_def)

context web_framework
begin

lemma find_route_compiled:
  "newline_char \<notin> set path \<Longrightarrow> find_route W routes method path = find_compiled (compiled routes) method (split_path path)"
proof (induction routes)
  case (Cons r routes)
  then show ?case by (cases r) (auto simp: compiled_def match_law split: option.split)
qed (simp add: compiled_def)

lemma dispatch_found:
  assumes "newline_char \<notin> set path" and "find_compiled (compiled routes) method (split_path path) = Some (e, ps)"
  shows "dispatch W routes method path = Routed e ps"
  using assms by (simp add: dispatch_def find_route_compiled)

lemma dispatch_member:
  assumes "dispatch W routes method path = Routed e ps"
  shows "\<exists>methods ts s qs. (methods, ts, e) \<in> set (compiled routes) \<and> s \<in> {path, chomp path} \<and>
     match_segments ts (split_path s) = Some qs"
proof -
  have "find_route W routes method path = Some (e, ps)"
    using assms by (auto simp: dispatch_def split: option.splits if_splits)
  from find_route_member [OF this] obtain r where
    r: "r \<in> set routes" "route_endpoint r = e" "wl_match W (route_template r) path \<noteq> None" by blast
  have "(route_methods r, split_path (route_template r), e) \<in> set (compiled routes)"
    using r(1,2) by (auto simp: compiled_def)
  with match_newline [OF r(3)] show ?thesis by auto
qed

end

lemma find_compiled_Some:
  "find_compiled table m ss = Some (e, ps) \<Longrightarrow>
     \<exists>methods ts. (methods, ts, e) \<in> set table \<and> m \<in> set methods \<and> match_segments ts ss = Some ps"
  by (induction table m ss rule: find_compiled.induct) (auto split: if_splits option.splits)

lemma user_compiled:
  "compiled user_app_routes =
     [([''GET'', ''HEAD''], [[], ''openapi.json''], Framework), ([''GET'', ''HEAD''], [[], ''docs''], Framework),
      ([''GET'', ''HEAD''], [[], ''docs'', ''oauth2-redirect''], Framework), ([''GET'', ''HEAD''], [[], ''redoc''], Framework),
      ([''GET''], [[], ''health''], Own U_health), ([''GET''], [[], ''ready''], Own U_ready), ([''GET''], [[], ''live''], Own U_live),
      ([''POST''], [[], ''auth'', ''login''], Own U_login), ([''POST''], [[], ''auth'', ''logout''], Own U_logout),
      ([''GET''], [[], ''users'', ''me''], Own U_me), ([''PUT''], [[], ''users'', ''me'', ''profile''], Own U_update_me),
      ([''PUT''], [[], ''users'', ''me'', ''password''], Own U_change_password),
      ([''GET''], [[], ''admin'', ''users'', ''login-policy''], Own U_get_login_policy),
      ([''PUT''], [[], ''admin'', ''users'', ''login-policy''], Own U_update_login_policy),
      ([''GET''], [[], ''admin'', ''users'', ''{user_id}''], Own U_get_user), ([''GET''], [[], ''admin'', ''users''], Own U_list_users),
      ([''PUT''], [[], ''admin'', ''users'', ''{user_id}'', ''login-policy''], Own U_update_user_login_policy),
      ([''GET''], [[], ''metrics''], Framework)]"
  by (simp add: compiled_def user_app_routes_def fastapi_docs_def own_routes_def user_routes_def metrics_route_def)

lemma product_compiled:
  "compiled product_app_routes =
     [([''GET'', ''HEAD''], [[], ''openapi.json''], Framework), ([''GET'', ''HEAD''], [[], ''docs''], Framework),
      ([''GET'', ''HEAD''], [[], ''docs'', ''oauth2-redirect''], Framework), ([''GET'', ''HEAD''], [[], ''redoc''], Framework),
      ([''GET''], [[], ''health''], Own P_health), ([''GET''], [[], ''ready''], Own P_ready), ([''GET''], [[], ''live''], Own P_live),
      ([''GET''], [[], ''products''], Own P_list), ([''GET''], [[], ''products'', ''{product_id}''], Own P_get),
      ([''GET''], [[], ''products'', ''me'', ''coupons''], Own P_my_coupons),
      ([''GET''], [[], ''products'', ''me'', ''coupons'', ''orders'', ''{order_no}'', ''issued''], Own P_my_issue),
      ([''GET''], [[], ''products'', ''me'', ''coupons'', ''orders'', ''{order_no}'', ''selected''], Own P_my_selection),
      ([''POST''], [[], ''admin'', ''products''], Own P_create), ([''POST''], [[], ''admin'', ''products'', ''import''], Own P_import),
      ([''PUT''], [[], ''admin'', ''products'', ''{product_id}''], Own P_update),
      ([''PUT''], [[], ''admin'', ''products'', ''{product_id}'', ''status''], Own P_update_status),
      ([''PUT''], [[], ''admin'', ''products'', ''{product_id}'', ''stock''], Own P_update_stock),
      ([''GET''], [[], ''internal'', ''products'', ''{product_id}''], Own P_internal_get),
      ([''POST''], [[], ''internal'', ''products'', ''{product_id}'', ''reserve''], Own P_reserve),
      ([''POST''], [[], ''internal'', ''products'', ''{product_id}'', ''release''], Own P_release),
      ([''POST''], [[], ''internal'', ''products'', ''{userId}'', ''coupons'', ''issue''], Own P_issue_coupon),
      ([''POST''], [[], ''internal'', ''products'', ''{userId}'', ''coupons'', ''claim-best''], Own P_claim_coupon),
      ([''GET''], [[], ''metrics''], Framework)]"
  by (simp add: compiled_def product_app_routes_def fastapi_docs_def own_routes_def product_routes_def metrics_route_def)

text \<open>
  A request for an endpoint: the template with values for its parameters, which are decimal
  integers, except for the order number, any text without a slash.
\<close>

definition fill_segment :: "(string \<Rightarrow> string) \<Rightarrow> string \<Rightarrow> string" where
  "fill_segment f t = (if is_param t then f (param_name t) else t)"

definition fill_template :: "(string \<Rightarrow> string) \<Rightarrow> string \<Rightarrow> string" where
  "fill_template f template = join_path (map (fill_segment f) (split_path template))"

definition template_params :: "(string \<Rightarrow> string) \<Rightarrow> string \<Rightarrow> path_params" where
  "template_params f template = map (\<lambda>t. (param_name t, f (param_name t))) (filter is_param (split_path template))"

definition path_values :: "(string \<Rightarrow> string) \<Rightarrow> bool" where
  "path_values f \<longleftrightarrow>
     (\<exists>i. f ''user_id'' = int_str i) \<and> (\<exists>i. f ''product_id'' = int_str i) \<and> (\<exists>i. f ''userId'' = int_str i) \<and>
     f ''order_no'' \<noteq> [] \<and> CHR ''/'' \<notin> set (f ''order_no'') \<and> newline_char \<notin> set (f ''order_no'')"

lemma int_str_segment [simp]: "CHR ''/'' \<notin> set (int_str i)" "newline_char \<notin> set (int_str i)" "int_str i \<noteq> []" "[] \<noteq> int_str i"
proof -
  show "int_str i \<noteq> []" using nat_str_nonempty by (simp add: int_str_def)
  then show "[] \<noteq> int_str i" by metis
qed (use int_str_chars [of _ i] in \<open>fastforce simp: is_digit_def\<close>)+

lemma int_str_word: "list_ex (\<lambda>c. \<not> is_digit c \<and> c \<noteq> CHR ''-'') s \<Longrightarrow> int_str i \<noteq> s"
  using int_str_chars [of _ i] by (auto simp: list_ex_iff)

lemma path_values_segments:
  assumes "path_values f" and "n \<in> {''user_id'', ''product_id'', ''userId'', ''order_no''}"
  shows "CHR ''/'' \<notin> set (f n) \<and> newline_char \<notin> set (f n) \<and> f n \<noteq> []"
  using assms unfolding path_values_def by (metis empty_iff insert_iff int_str_segment(1-3))

lemma split_path_segments: "s \<in> set (split_path p) \<Longrightarrow> CHR ''/'' \<notin> set s \<and> set s \<subseteq> set p"
proof (induction p arbitrary: s)
  case (Cons c p)
  obtain t ts where "split_path p = t # ts" using split_path_nonempty by (meson list.exhaust)
  with Cons show ?case by (fastforce split: if_splits)
qed simp

lemma join_path_chars: "set (join_path ss) \<subseteq> insert (CHR ''/'') (\<Union>s \<in> set ss. set s)"
  by (induction ss rule: join_path.induct) auto

text \<open>The parameters of the templates, and the texts they cannot be mistaken for.\<close>

definition known_params :: "'e route list \<Rightarrow> bool" where
  "known_params routes =
     list_all (\<lambda>r. newline_char \<notin> set (route_template r) \<and>
       list_all (\<lambda>t. is_param t \<longrightarrow> param_name t \<in> set [''user_id'', ''product_id'', ''userId'', ''order_no''])
         (split_path (route_template r))) routes"

lemma filled_path:
  assumes "path_values f" and "known_params routes" and "r \<in> set routes"
  shows "split_path (fill_template f (route_template r)) = map (fill_segment f) (split_path (route_template r))"
    and "newline_char \<notin> set (fill_template f (route_template r))"
proof -
  have seg: "CHR ''/'' \<notin> set (fill_segment f t) \<and> newline_char \<notin> set (fill_segment f t)"
    if "t \<in> set (split_path (route_template r))" for t
  proof (cases "is_param t")
    case True
    then have "param_name t \<in> set [''user_id'', ''product_id'', ''userId'', ''order_no'']"
      using that assms(2,3) by (simp add: known_params_def list_all_iff)
    then show ?thesis using path_values_segments [OF assms(1)] True by (simp add: fill_segment_def)
  next
    case False
    have "newline_char \<notin> set (route_template r)" using assms(2,3) by (simp add: known_params_def list_all_iff)
    with False show ?thesis using split_path_segments [OF that] by (auto simp: fill_segment_def)
  qed
  then show "split_path (fill_template f (route_template r)) = map (fill_segment f) (split_path (route_template r))"
    unfolding fill_template_def by (intro split_join) auto
  show "newline_char \<notin> set (fill_template f (route_template r))"
    using join_path_chars [of "map (fill_segment f) (split_path (route_template r))"] seg
    unfolding fill_template_def by auto
qed

lemma known_routes: "known_params user_routes" "known_params product_routes"
  by (simp_all add: known_params_def user_routes_def product_routes_def is_param_def param_name_def)

lemma segment_checks [simp]:
  "is_param ''{user_id}''" "is_param ''{product_id}''" "is_param ''{userId}''" "is_param ''{order_no}''"
  "param_name ''{user_id}'' = ''user_id''" "param_name ''{product_id}'' = ''product_id''"
  "param_name ''{userId}'' = ''userId''" "param_name ''{order_no}'' = ''order_no''"
  by (simp_all add: is_param_def param_name_def)

lemma user_paths_found:
  assumes "path_values f" and "r \<in> set user_routes" and "method \<in> set (route_methods r)"
  shows "find_compiled (compiled user_app_routes) method (map (fill_segment f) (split_path (route_template r))) =
     Some (Own (route_endpoint r), template_params f (route_template r))"
proof -
  obtain i where i: "f ''user_id'' = int_str i" using assms(1) by (auto simp: path_values_def)
  have w: "int_str i \<noteq> ''login-policy''" by (rule int_str_word) (simp add: is_digit_def)
  have "list_all (\<lambda>r. list_all (\<lambda>m. find_compiled (compiled user_app_routes) m (map (fill_segment f) (split_path (route_template r))) =
      Some (Own (route_endpoint r), template_params f (route_template r))) (route_methods r)) user_routes"
    unfolding user_compiled user_routes_def
    by (simp add: i w w [symmetric] fill_segment_def template_params_def is_param_def param_name_def)
  then show ?thesis using assms(2,3) by (simp add: list_all_iff)
qed

lemma product_paths_found:
  assumes "path_values f" and "r \<in> set product_routes" and "method \<in> set (route_methods r)"
  shows "find_compiled (compiled product_app_routes) method (map (fill_segment f) (split_path (route_template r))) =
     Some (Own (route_endpoint r), template_params f (route_template r))"
proof -
  obtain i j where ij: "f ''product_id'' = int_str i" "f ''userId'' = int_str j" and o: "f ''order_no'' \<noteq> []"
    using assms(1) by (auto simp: path_values_def)
  have "list_all (\<lambda>r. list_all (\<lambda>m. find_compiled (compiled product_app_routes) m (map (fill_segment f) (split_path (route_template r))) =
      Some (Own (route_endpoint r), template_params f (route_template r))) (route_methods r)) product_routes"
    unfolding product_compiled product_routes_def
    by (simp add: ij o fill_segment_def template_params_def is_param_def param_name_def)
  then show ?thesis using assms(2,3) by (simp add: list_all_iff)
qed

text \<open>
  C39: Every endpoint of the user service and of the product service can be reached: its path
  template filled with values of its parameters is routed to it, with these values, and not to a
  route registered before it.
\<close>

theorem endpoints_are_reachable:
  assumes "web_framework W" and "path_values f"
  shows "(\<forall>r \<in> set user_routes. \<forall>method \<in> set (route_methods r).
            dispatch W user_app_routes method (fill_template f (route_template r)) =
              Routed (Own (route_endpoint r)) (template_params f (route_template r))) \<and>
         (\<forall>r \<in> set product_routes. \<forall>method \<in> set (route_methods r).
            dispatch W product_app_routes method (fill_template f (route_template r)) =
              Routed (Own (route_endpoint r)) (template_params f (route_template r)))"
  using web_framework.dispatch_found [OF assms(1)] filled_path [OF assms(2)] known_routes
    user_paths_found [OF assms(2)] product_paths_found [OF assms(2)] by metis

theorem endpoints_are_reachable_witness:
  "dispatch ref_web product_app_routes ''PUT'' ''/admin/products/7/stock'' = Routed (Own P_update_stock) [(''product_id'', ''7'')] \<and>
   dispatch ref_web user_app_routes ''GET'' ''/admin/users/login-policy'' = Routed (Own U_get_login_policy) []"
proof -
  let ?f = "\<lambda>n. if n = ''order_no'' then ''O-1'' else int_str 7"
  have f: "path_values ?f" by (auto simp: path_values_def)
  have seven: "int_str 7 = ''7''" by code_simp
  note r = endpoints_are_reachable [OF ref_web.web_framework_axioms f]
  have "Route [''PUT''] ''/admin/products/{product_id}/stock'' P_update_stock \<in> set product_routes"
    "Route [''GET''] ''/admin/users/login-policy'' U_get_login_policy \<in> set user_routes"
    by (simp_all add: product_routes_def user_routes_def)
  note p = bspec [OF conjunct2 [OF r] this(1)] and u = bspec [OF conjunct1 [OF r] this(2)]
  show ?thesis
    using p u
    by (simp add: fill_template_def fill_segment_def template_params_def is_param_def param_name_def seven)
qed

end
