(* ===== verification/Shop.thy ===== *)
theory Shop
  imports Routing User_Service Csv_Import
begin

text \<open>
  The composed system: the application of the gateway (\<^verbatim>\<open>gateway/app/main.py\<close>) in front of the
  applications of the user service and the product service, with the state each of them keeps.
  The order service is a parameter that may change any of that state, since it calls the
  product service itself.
\<close>

section \<open>The gateway application\<close>

datatype gateway_endpoint = G_proxy | G_health | G_ready | G_live

definition gateway_app_routes :: "gateway_endpoint app_endpoint route list" where
  "gateway_app_routes =
     [Route [''GET'', ''POST'', ''PUT'', ''PATCH'', ''DELETE'', ''OPTIONS''] ''/api/{path:path}'' (Own G_proxy),
      metrics_route,
      Route [''GET''] ''/health'' (Own G_health),
      Route [''GET''] ''/ready'' (Own G_ready),
      Route [''GET''] ''/live'' (Own G_live)]"

definition gateway_cors :: "gateway_settings \<Rightarrow> cors_options" where
  "gateway_cors S =
     \<lparr>co_allow_origins = gw_cors_origins S, co_allow_credentials = True, co_allow_methods = [''*''],
      co_allow_headers = [''*'']\<rparr>"

text \<open>
  The proxy in two halves, around the request to the service: what \<open>gateway_proxy\<close> does before it
  (\<open>gateway_prepare\<close>) and after it (\<open>gateway_finish\<close>).
\<close>

definition upstream_request_of :: "gateway_settings \<Rightarrow> http_request \<Rightarrow> current_user option \<Rightarrow> upstream_request res" where
  "upstream_request_of S request user =
     bind_res (resolve_target S (rq_path request)) (\<lambda>target_url.
       Inr \<lparr>up_method = rq_method request, up_url = target_url, up_content = rq_body request,
            up_params = rq_query request, up_headers = forwarded_headers request user\<rparr>)"

definition gateway_prepare :: "'r gateway_env \<Rightarrow> http_request \<Rightarrow> ('r, upstream_request) prog" where
  "gateway_prepare E request =
     bind_prog
       (if is_public_route request
        then gw_get_optional_current_user E (header_get (rq_headers request) ''authorization'')
        else gw_get_current_user E (header_get (rq_headers request) ''authorization''))
       (\<lambda>user.
     bind_prog (lift_res (enforce_role (rq_path request) user)) (\<lambda>_.
     bind_prog (apply_rate_limit E request user) (\<lambda>_.
       lift_res (upstream_request_of (ge_settings E) request user))))"

definition gateway_finish :: "http_outcome \<Rightarrow> http_response res" where
  "gateway_finish outcome =
     (case outcome of
        TimeoutException cls \<Rightarrow> Inl (http_error 504 (''Upstream timeout: '' @ cls))
      | RequestError cls \<Rightarrow> Inl (http_error 502 (''Upstream request error: '' @ cls))
      | ClientError e \<Rightarrow> Inl e
      | Upstream up \<Rightarrow>
          Inr \<lparr>rs_status = ur_status up,
               rs_headers = dict_of_pairs (filter (\<lambda>kv. lower_str (fst kv) \<notin> excluded_headers) (ur_headers up)),
               rs_content = ur_content up,
               rs_media_type = header_get (ur_headers up) ''content-type''\<rparr>)"

lemma forward_request_split:
  "forward_request S (Some c) request user =
     bind_res (upstream_request_of S request user) (\<lambda>up. gateway_finish (c up))"
  by (simp add: forward_request_def upstream_request_of_def gateway_finish_def get_http_client_def bind_res_def
      split: sum.split http_outcome.split)

section \<open>The state of the system\<close>

record ('r, 'du, 'dp, 'o) world =
  wd_redis :: 'r
  wd_users :: 'du
  wd_products :: 'dp
  wd_orders :: 'o
  wd_served :: nat

text \<open>
  The proxy over the state of the system, with a client that may change that state.
\<close>

definition gateway_serve ::
  "'r gateway_env \<Rightarrow> (upstream_request \<Rightarrow> ('r, 'du, 'dp, 'o) world \<Rightarrow> http_outcome \<times> ('r, 'du, 'dp, 'o) world) \<Rightarrow>
     http_request \<Rightarrow> (('r, 'du, 'dp, 'o) world, http_response) prog" where
  "gateway_serve E client request w =
     (case gateway_prepare E request (wd_redis w) of
        (Inl e, s) \<Rightarrow> (Inl e, w\<lparr>wd_redis := s\<rparr>)
      | (Inr up, s) \<Rightarrow>
          (case client up (w\<lparr>wd_redis := s\<rparr>) of (outcome, w') \<Rightarrow> (gateway_finish outcome, w')))"

theorem gateway_serve_is_proxy:
  "gateway_serve E (\<lambda>up w. (c up, w)) request w =
     (case gateway_proxy E request \<lparr>gs_redis = wd_redis w, gs_http_client = Some c\<rparr> of
        (r, st) \<Rightarrow> (r, w\<lparr>wd_redis := gs_redis st\<rparr>))"
  by (simp add: gateway_serve_def gateway_proxy_def gateway_prepare_def bind_prog_def on_redis_def forward_request_split bind_res_def
      split: prod.split sum.split)

text \<open>
  The parts of the system. The clock is that of Redis; \<open>sy_uuid\<close> and \<open>sy_salt\<close> give the random
  values of the request with that number.
\<close>

record ('r, 'du, 'dp, 'o) system =
  sy_web :: web_lib
  sy_gateway :: "'r gateway_env"
  sy_user_service :: "('r, 'du) user_env"
  sy_product_service :: "('r, 'dp) product_env"
  sy_order_service :: "http_request \<Rightarrow> ('r, 'du, 'dp, 'o) world \<Rightarrow> http_outcome \<times> ('r, 'du, 'dp, 'o) world"
  sy_import_errors :: "csv_fields \<Rightarrow> pyval"
  sy_wide :: "http_request \<Rightarrow> ('r, 'dp) service_state \<Rightarrow> upstream_response \<times> ('r, 'dp) service_state"
  sy_clock :: "'r \<Rightarrow> int"
  sy_uuid :: "nat \<Rightarrow> string"
  sy_salt :: "nat \<Rightarrow> string"

definition gateway_now :: "('r, 'du, 'dp, 'o) system \<Rightarrow> ('r, 'du, 'dp, 'o) world \<Rightarrow> 'r gateway_env" where
  "gateway_now SY w = (sy_gateway SY)\<lparr>ge_now := sy_clock SY (wd_redis w)\<rparr>"

definition users_now :: "('r, 'du, 'dp, 'o) system \<Rightarrow> ('r, 'du, 'dp, 'o) world \<Rightarrow> ('r, 'du) user_env" where
  "users_now SY w = (sy_user_service SY)\<lparr>ue_now := sy_clock SY (wd_redis w), ue_uuid := sy_uuid SY (wd_served w),
     ue_salt := sy_salt SY (wd_served w)\<rparr>"

definition products_now :: "('r, 'du, 'dp, 'o) system \<Rightarrow> ('r, 'du, 'dp, 'o) world \<Rightarrow> ('r, 'dp) product_env" where
  "products_now SY w = (sy_product_service SY)\<lparr>pe_now := sy_clock SY (wd_redis w)\<rparr>"

section \<open>From the gateway to the services\<close>

datatype destination = User_service | Product_service | Order_service

text \<open>The path of a URL on the server with that base.\<close>

definition path_under :: "string \<Rightarrow> string \<Rightarrow> string option" where
  "path_under base url = (if startswith url (base @ ''/'') then Some (drop (length base) url) else None)"

definition destination_of :: "gateway_settings \<Rightarrow> string \<Rightarrow> (destination \<times> string) option" where
  "destination_of S url =
     (case path_under (gw_user_service_url S) url of
        Some p \<Rightarrow> Some (User_service, p)
      | None \<Rightarrow>
          (case path_under (gw_product_service_url S) url of
             Some p \<Rightarrow> Some (Product_service, p)
           | None \<Rightarrow> map_option (Pair Order_service) (path_under (gw_order_service_url S) url)))"

text \<open>The request as the service receives it.\<close>

definition delivered :: "string \<Rightarrow> upstream_request \<Rightarrow> http_request" where
  "delivered path up =
     \<lparr>rq_method = up_method up, rq_path = path, rq_client = None, rq_headers = up_headers up,
      rq_query = up_params up, rq_body = up_content up\<rparr>"

definition on_users ::
  "('r, 'du, 'dp, 'o) system \<Rightarrow> http_request \<Rightarrow> ('r, 'du, 'dp, 'o) world \<Rightarrow> http_outcome \<times> ('r, 'du, 'dp, 'o) world" where
  "on_users SY request w =
     (case user_app (sy_web SY) (users_now SY w) request \<lparr>ss_redis = wd_redis w, ss_db = wd_users w\<rparr> of
        (resp, st) \<Rightarrow> (Upstream resp, w\<lparr>wd_redis := ss_redis st, wd_users := ss_db st\<rparr>))"

definition on_products ::
  "('r, 'du, 'dp, 'o) system \<Rightarrow> http_request \<Rightarrow> ('r, 'du, 'dp, 'o) world \<Rightarrow> http_outcome \<times> ('r, 'du, 'dp, 'o) world" where
  "on_products SY request w =
     (case product_app (sy_import_errors SY) (sy_wide SY) (sy_web SY) (products_now SY w) request
             \<lparr>ss_redis = wd_redis w, ss_db = wd_products w\<rparr> of
        (resp, st) \<Rightarrow> (Upstream resp, w\<lparr>wd_redis := ss_redis st, wd_products := ss_db st\<rparr>))"

definition upstream ::
  "('r, 'du, 'dp, 'o) system \<Rightarrow> upstream_request \<Rightarrow> ('r, 'du, 'dp, 'o) world \<Rightarrow> http_outcome \<times> ('r, 'du, 'dp, 'o) world" where
  "upstream SY up w =
     (case destination_of (ge_settings (sy_gateway SY)) (up_url up) of
        None \<Rightarrow> (RequestError ''ConnectError'', w)
      | Some (dest, path) \<Rightarrow>
          (case wl_deliver (sy_web SY) path of
             None \<Rightarrow> (ClientError InvalidURL, w)
           | Some p \<Rightarrow>
               (case dest of
                  User_service \<Rightarrow> on_users SY (delivered p up) w
                | Product_service \<Rightarrow> on_products SY (delivered p up) w
                | Order_service \<Rightarrow> sy_order_service SY (delivered p up) w)))"

section \<open>Requests of clients\<close>

definition as_http_response :: "upstream_response \<Rightarrow> http_response" where
  "as_http_response r =
     \<lparr>rs_status = ur_status r, rs_headers = ur_headers r, rs_content = ur_content r,
      rs_media_type = header_get (ur_headers r) ''content-type''\<rparr>"

definition is_http_exception :: "py_exc \<Rightarrow> bool" where
  "is_http_exception e = (case e of HTTPException status v \<Rightarrow> True | RequestValidationError \<Rightarrow> True | _ \<Rightarrow> False)"

fun gateway_call ::
  "('r, 'du, 'dp, 'o) system \<Rightarrow> gateway_endpoint \<Rightarrow> http_request \<Rightarrow> (('r, 'du, 'dp, 'o) world, http_response) prog" where
  "gateway_call SY G_proxy request = (\<lambda>w. gateway_serve (gateway_now SY w) (upstream SY) request w)"
| "gateway_call SY G_health request = (\<lambda>w. (Inr (as_http_response (fst (send_probe (sy_web SY) gw_health w))), w))"
| "gateway_call SY G_ready request = (\<lambda>w. (Inr (as_http_response (fst (send_probe (sy_web SY) gw_ready w))), w))"
| "gateway_call SY G_live request = (\<lambda>w. (Inr (as_http_response (fst (send_probe (sy_web SY) gw_live w))), w))"

definition gateway_respond ::
  "('r, 'du, 'dp, 'o) system \<Rightarrow> http_request \<Rightarrow> (('r, 'du, 'dp, 'o) world, http_response) prog" where
  "gateway_respond SY request =
     (case dispatch (sy_web SY) gateway_app_routes (rq_method request) (rq_path request) of
        Routed (Own e) ps \<Rightarrow> gateway_call SY e request
      | Routed Framework ps \<Rightarrow> return_prog (as_http_response (wl_page (sy_web SY) request))
      | MethodNotAllowed \<Rightarrow> raise_prog (http_error 405 ''Method Not Allowed'')
      | SlashRedirect \<Rightarrow> return_prog (as_http_response (wl_page (sy_web SY) request))
      | NoRoute \<Rightarrow> raise_prog (http_error 404 ''Not Found''))"

text \<open>
  The gateway application: the CORS middleware is around everything except the handler of last
  resort for exceptions that are no \<^verbatim>\<open>HTTPException\<close>.
\<close>

definition gateway_app ::
  "('r, 'du, 'dp, 'o) system \<Rightarrow> http_request \<Rightarrow> ('r, 'du, 'dp, 'o) world \<Rightarrow> http_response \<times> ('r, 'du, 'dp, 'o) world" where
  "gateway_app SY request w =
     (case wl_cors (sy_web SY) (gateway_cors (ge_settings (sy_gateway SY))) request of
        (Some preflight, _) \<Rightarrow> (preflight, w)
      | (None, amend) \<Rightarrow>
          (case gateway_respond SY request w of
             (Inr resp, w') \<Rightarrow> (amend resp, w')
           | (Inl e, w') \<Rightarrow>
               (let resp = as_http_response (error_response (sy_web SY) request e)
                in (if is_http_exception e then amend resp else resp, w'))))"

text \<open>One request of a client; the number of requests served so far stands for the random values.\<close>

definition system_request ::
  "('r, 'du, 'dp, 'o) system \<Rightarrow> http_request \<Rightarrow> ('r, 'du, 'dp, 'o) world \<Rightarrow> http_response \<times> ('r, 'du, 'dp, 'o) world" where
  "system_request SY request w =
     (case gateway_app SY request w of (resp, w') \<Rightarrow> (resp, w'\<lparr>wd_served := Suc (wd_served w)\<rparr>))"

end
