(* ===== verification/Perimeter.thy ===== *)
theory Perimeter
  imports Shop Catalog_Cache
begin

text \<open>
  What the gateway lets through to the services behind it, endpoint by endpoint: the internal
  endpoints of the product service are out of reach and the administration endpoints need a
  verified administrator, for every path without dot segments, whatever escapes it has; with dot
  segments neither holds.
\<close>

section \<open>The path of a forwarded request\<close>

definition bases_ok :: "gateway_settings \<Rightarrow> bool" where
  "bases_ok S \<longleftrightarrow>
     (\<forall>a \<in> {gw_user_service_url S, gw_product_service_url S, gw_order_service_url S}.
      \<forall>b \<in> {gw_user_service_url S, gw_product_service_url S, gw_order_service_url S}.
        startswith (a @ ''/'') (b @ ''/'') \<longrightarrow> a = b)"

definition gateway_prefixes :: "string list" where
  "gateway_prefixes =
     [''/auth'', ''/users'', ''/admin/users'', ''/products'', ''/admin/products'', ''/orders'', ''/admin/orders'']"

lemma resolved_parts:
  assumes "resolve_target S path = Inr url"
  shows "\<exists>base pre t. path = ''/api'' @ pre @ t \<and> url = base @ pre @ t \<and> pre \<in> set gateway_prefixes \<and>
     base \<in> {gw_user_service_url S, gw_product_service_url S, gw_order_service_url S}"
proof -
  obtain p base where p: "p \<in> set gateway_prefixes" "startswith path (''/api'' @ p)" "url = base @ replace_first ''/api'' [] path"
    "base \<in> {gw_user_service_url S, gw_product_service_url S, gw_order_service_url S}"
    using assms that unfolding resolve_target_def gateway_prefixes_def by (auto split: if_splits)
  obtain t where t: "path = ''/api'' @ p @ t" "replace_first ''/api'' [] path = p @ t" using api_prefix [OF p(2)] by blast
  with p show ?thesis by blast
qed

lemma startswith_comparable:
  "startswith s a \<Longrightarrow> startswith s b \<Longrightarrow> startswith a b \<or> startswith b a"
  unfolding startswith_iff by (metis append_eq_append_conv2)

lemma path_under_base:
  assumes "bases_ok S" and "path_under b (a @ ''/'' @ r) = Some p"
    and "a \<in> {gw_user_service_url S, gw_product_service_url S, gw_order_service_url S}"
    and "b \<in> {gw_user_service_url S, gw_product_service_url S, gw_order_service_url S}"
  shows "p = ''/'' @ r"
proof -
  let ?u = "a @ ''/'' @ r"
  have s: "startswith ?u (b @ ''/'')" and p: "p = drop (length b) ?u"
    using assms(2) by (auto simp: path_under_def split: if_splits)
  have "startswith ?u (a @ ''/'')" using startswith_append [of "a @ ''/''" r] by simp
  then have "a = b" using startswith_comparable [OF _ s] assms(1,3,4) unfolding bases_ok_def by metis
  then show ?thesis using p by simp
qed

lemma destination_path:
  assumes "bases_ok S" and "resolve_target S path = Inr url" and "destination_of S url = Some (dest, p)"
  shows "\<exists>pre t. path = ''/api'' @ p \<and> p = pre @ t \<and> pre \<in> set gateway_prefixes"
proof -
  obtain base pre t where u: "path = ''/api'' @ pre @ t" "url = base @ pre @ t" "pre \<in> set gateway_prefixes"
    "base \<in> {gw_user_service_url S, gw_product_service_url S, gw_order_service_url S}"
    using resolved_parts [OF assms(2)] by blast
  obtain q where q: "pre = ''/'' @ q" using u(3) by (auto simp: gateway_prefixes_def)
  have "p = ''/'' @ q @ t"
    using assms(3) u(2) path_under_base [OF assms(1), of _ base "q @ t" p] u(4)
    by (auto simp: q destination_of_def split: option.splits)
  then have "p = pre @ t" using q by simp
  with u(1,3) show ?thesis by blast
qed

text \<open>What the server sees starts with the prefix: it has no escape and no character that ends a path.\<close>

lemma prefix_literal:
  assumes "pre \<in> set gateway_prefixes"
  shows "startswith (literal_part (pre @ t)) pre"
proof -
  have plain: "c \<noteq> CHR ''?'' \<and> c \<noteq> CHR ''#'' \<and> c \<noteq> CHR ''%''" if "c \<in> set pre" for c
    using assms that by (auto simp: gateway_prefixes_def)
  then have "url_path (pre @ t) = pre @ url_path t" unfolding url_path_def by (intro takeWhile_append2) simp
  then have "literal_part (pre @ t) = pre @ takeWhile (\<lambda>c. c \<noteq> CHR ''%'') (url_path t)"
    unfolding literal_part_def using plain by (simp add: takeWhile_append2)
  then show ?thesis by simp
qed

lemma url_path_rest:
  "no_dot_segments (url_path (''/api'' @ ''/'' @ r)) \<Longrightarrow> no_dot_segments (url_path (''/'' @ r))"
  by (simp add: url_path_def no_dot_segments_def)

section \<open>Endpoints behind a first segment\<close>

fun endpoint_area :: "user_endpoint + product_endpoint \<Rightarrow> string" where
  "endpoint_area (Inl U_get_login_policy) = ''admin''"
| "endpoint_area (Inl U_update_login_policy) = ''admin''"
| "endpoint_area (Inl U_get_user) = ''admin''"
| "endpoint_area (Inl U_list_users) = ''admin''"
| "endpoint_area (Inl U_update_user_login_policy) = ''admin''"
| "endpoint_area (Inr P_create) = ''admin''"
| "endpoint_area (Inr P_import) = ''admin''"
| "endpoint_area (Inr P_update) = ''admin''"
| "endpoint_area (Inr P_update_status) = ''admin''"
| "endpoint_area (Inr P_update_stock) = ''admin''"
| "endpoint_area (Inr P_internal_get) = ''internal''"
| "endpoint_area (Inr P_reserve) = ''internal''"
| "endpoint_area (Inr P_release) = ''internal''"
| "endpoint_area (Inr P_issue_coupon) = ''internal''"
| "endpoint_area (Inr P_claim_coupon) = ''internal''"
| "endpoint_area _ = ''public''"

definition area_guarded :: "('e \<Rightarrow> user_endpoint + product_endpoint) \<Rightarrow> 'e app_endpoint compiled list \<Rightarrow> bool" where
  "area_guarded side table =
     list_all (\<lambda>(methods, ts, e).
       (case e of
          Framework \<Rightarrow> True
        | Own x \<Rightarrow>
            (endpoint_area (side x) \<noteq> ''public'' \<longrightarrow>
               (case ts of [] # area # t # rest \<Rightarrow> area = endpoint_area (side x) \<and> \<not> is_param area
                | _ \<Rightarrow> False)))) table"

lemma routes_guarded: "area_guarded Inl (compiled user_app_routes)" "area_guarded Inr (compiled product_app_routes)"
  by (simp_all add: area_guarded_def user_compiled product_compiled is_param_def)

lemma match_literal:
  assumes "match_segments (t # ts) ss = Some ps" and "\<not> is_param t"
  obtains ss' where "ss = t # ss'" and "match_segments ts ss' = Some ps"
proof -
  have "t \<noteq> ''{path:path}''" using assms(2) by (auto simp: is_param_def)
  then show thesis using assms that by (cases ss) (auto split: if_splits)
qed

lemma area_path:
  assumes "area_guarded side table" and "(methods, ts, Own e) \<in> set table" and "match_segments ts (split_path path) = Some ps"
    and "endpoint_area (side e) \<noteq> ''public''"
  shows "\<exists>rest. path = ''/'' @ endpoint_area (side e) @ ''/'' @ rest"
proof -
  have "case ts of [] # area # t # rest \<Rightarrow> area = endpoint_area (side e) \<and> \<not> is_param area | _ \<Rightarrow> False"
    using assms(1,2,4) unfolding area_guarded_def list_all_iff by fastforce
  then obtain t rest where t: "ts = [] # endpoint_area (side e) # t # rest" "\<not> is_param (endpoint_area (side e))"
    by (auto split: list.splits)
  obtain ss where ss: "split_path path = [] # ss" "match_segments (endpoint_area (side e) # t # rest) ss = Some ps"
    by (rule match_literal [OF assms(3) [unfolded t(1)]]) (auto simp: is_param_def)
  obtain ss' where ss': "ss = endpoint_area (side e) # ss'" "match_segments (t # rest) ss' = Some ps"
    by (rule match_literal [OF ss(2) t(2)])
  then obtain s ss'' where "ss' = s # ss''" by (cases ss') auto
  then have "path = join_path ([] # endpoint_area (side e) # s # ss'')" using join_split ss(1) ss'(1) by metis
  then show ?thesis by auto
qed

lemma routed_area:
  assumes "web_framework W" and "area_guarded side (compiled routes)" and "dispatch W routes m path = Routed (Own e) ps"
    and "endpoint_area (side e) \<noteq> ''public''"
  shows "startswith path (''/'' @ endpoint_area (side e) @ ''/'')"
proof -
  obtain methods ts s qs where s: "(methods, ts, Own e) \<in> set (compiled routes)" "s \<in> {path, chomp path}"
    "match_segments ts (split_path s) = Some qs"
    using web_framework.dispatch_member [OF assms(1,3)] by blast
  obtain rest where "s = ''/'' @ endpoint_area (side e) @ ''/'' @ rest" using area_path [OF assms(2) s(1,3) assms(4)] by blast
  moreover obtain q where "path = s @ q" using s(2) chomp_prefix [of path] by auto
  ultimately show ?thesis by (simp add: startswith_iff)
qed

section \<open>The perimeter\<close>

lemma gateway_prepare_Inr:
  assumes "gateway_prepare E request s = (Inr up, s')"
  shows "\<exists>user s1. gw_get_current_user E (header_get (rq_headers request) ''authorization'') s = (Inr user, s1) \<and>
     enforce_role (rq_path request) user = Inr () \<and> upstream_request_of (ge_settings E) request user = Inr up"
  using assms by (auto simp: gateway_prepare_def bind_prog_eq_Inr gw_get_optional_same split: if_splits)

definition verified_admin :: "'r gateway_env \<Rightarrow> http_request \<Rightarrow> 'r \<Rightarrow> bool" where
  "verified_admin E request s \<longleftrightarrow>
     (\<exists>a scheme sep token payload role.
        header_get (rq_headers request) ''authorization'' = Some a \<and>
        partition_str (CHR '' '') a = (scheme, sep, token) \<and> lower_str scheme = ''bearer'' \<and>
        jwt_decode (ge_jwt E) (ge_now E) token (gw_jwt_secret (ge_settings E)) [gw_jwt_algorithm (ge_settings E)] = Some payload \<and>
        dict_get payload ''role'' = Some role \<and> Auth_Libs.py_str (ge_repr E) role = ''ADMIN'' \<and>
        fst (gw_is_token_blacklisted E token s) = False)"

lemma admin_path_verified:
  assumes "gateway_prepare E request s = (Inr up, s')" and "rq_path request = ''/api/admin/'' @ rest"
  shows "verified_admin E request s"
proof -
  obtain user s1 where u: "gw_get_current_user E (header_get (rq_headers request) ''authorization'') s = (Inr user, s1)"
    "enforce_role (rq_path request) user = Inr ()"
    using gateway_prepare_Inr [OF assms(1)] by blast
  have "contains_str ''/api/admin/'' (rq_path request)" unfolding assms(2) contains_str_iff by (metis append_Nil)
  then obtain v where v: "user = Some v" "cu_role v = ''ADMIN''"
    using u(2) by (auto simp: enforce_role_def split: option.splits if_splits)
  then obtain a scheme sep token where a: "header_get (rq_headers request) ''authorization'' = Some a"
      "partition_str (CHR '' '') a = (scheme, sep, token)" "lower_str scheme = ''bearer''"
      "gw_decode_token E token s = (Inr v, s1)"
    using gw_get_current_user_Some [of E _ _ v s1] u(1) by blast
  with gw_decode_token_Inr [OF a(4)] v(2) show ?thesis unfolding verified_admin_def by metis
qed

text \<open>The endpoint that answers a request of the gateway to the services, if one of the two does.\<close>

definition answering_endpoint ::
  "('r, 'du, 'dp, 'o) system \<Rightarrow> upstream_request \<Rightarrow> (user_endpoint + product_endpoint) option" where
  "answering_endpoint SY up =
     (case destination_of (ge_settings (sy_gateway SY)) (up_url up) of
        None \<Rightarrow> None
      | Some (dest, path) \<Rightarrow>
          (case wl_deliver (sy_web SY) path of
             None \<Rightarrow> None
           | Some p \<Rightarrow>
               (case dest of
                  User_service \<Rightarrow>
                    (case dispatch (sy_web SY) user_app_routes (up_method up) p of Routed (Own e) ps \<Rightarrow> Some (Inl e) | _ \<Rightarrow> None)
                | Product_service \<Rightarrow>
                    (case dispatch (sy_web SY) product_app_routes (up_method up) p of Routed (Own e) ps \<Rightarrow> Some (Inr e) | _ \<Rightarrow> None)
                | Order_service \<Rightarrow> None)))"

lemma answering_path:
  assumes "web_framework (sy_web SY)" and "bases_ok (ge_settings (sy_gateway SY))"
    and "resolve_target (ge_settings (sy_gateway SY)) (rq_path request) = Inr (up_url up)"
    and "no_dot_segments (url_path (rq_path request))"
    and "answering_endpoint SY up = Some e" and "endpoint_area e \<noteq> ''public''"
  shows "endpoint_area e = ''admin'' \<and> (\<exists>rest. rq_path request = ''/api/admin/'' @ rest)"
proof -
  obtain dest path p where d: "destination_of (ge_settings (sy_gateway SY)) (up_url up) = Some (dest, path)"
    "wl_deliver (sy_web SY) path = Some p"
    using assms(5) by (auto simp: answering_endpoint_def split: option.splits)
  obtain pre t where path: "rq_path request = ''/api'' @ path" "path = pre @ t" "pre \<in> set gateway_prefixes"
    using destination_path [OF assms(2,3) d(1)] by blast
  obtain q where q: "path = ''/'' @ q" using path(2,3) by (auto simp: gateway_prefixes_def)
  have "no_dot_segments (url_path path)" using assms(4) path(1) q url_path_rest [of q] by simp
  then have "startswith p (literal_part path)" using web_framework.deliver_law [OF assms(1)] d(2) by blast
  then have p: "startswith p pre" using prefix_literal [OF path(3), of t] path(2) by (auto simp: startswith_iff)
  have "startswith p (''/'' @ endpoint_area e @ ''/'')"
  proof (cases e)
    case (Inl x)
    then obtain ps where "dispatch (sy_web SY) user_app_routes (up_method up) p = Routed (Own x) ps"
      using assms(5) d by (auto simp: answering_endpoint_def split: destination.splits dispatch.splits app_endpoint.splits)
    from routed_area [OF assms(1) routes_guarded(1) this] assms(6) Inl show ?thesis by simp
  next
    case (Inr x)
    then obtain ps where "dispatch (sy_web SY) product_app_routes (up_method up) p = Routed (Own x) ps"
      using assms(5) d by (auto simp: answering_endpoint_def split: destination.splits dispatch.splits app_endpoint.splits)
    from routed_area [OF assms(1) routes_guarded(2) this] assms(6) Inr show ?thesis by simp
  qed
  moreover have "endpoint_area e \<in> {''admin'', ''internal'', ''public''}" by (induction e rule: endpoint_area.induct) simp_all
  ultimately have "endpoint_area e = ''admin'' \<and> (\<exists>r. pre = ''/admin/'' @ r)"
    using p path(3) assms(6) by (auto simp: gateway_prefixes_def startswith_iff)
  then show ?thesis using path(1,2) by auto
qed

lemma admin_role_forwarded:
  assumes "gateway_prepare E request s = (Inr up, s')" and "rq_path request = ''/api/admin/'' @ rest"
  shows "map_of (up_headers up) ''x-user-role'' = Some ''ADMIN''"
proof -
  obtain user where u: "enforce_role (rq_path request) user = Inr ()" "upstream_request_of (ge_settings E) request user = Inr up"
    using gateway_prepare_Inr [OF assms(1)] by blast
  have "contains_str ''/api/admin/'' (rq_path request)" unfolding assms(2) contains_str_iff by (metis append_Nil)
  then obtain v where v: "user = Some v" "cu_role v = ''ADMIN''"
    using u(1) by (auto simp: enforce_role_def split: option.splits if_splits)
  then show ?thesis using u(2)
    by (auto simp: upstream_request_of_def bind_res_eq_Inr forwarded_headers_def Let_def map_of_update_eq)
qed

lemma perimeter_lemma:
  assumes "web_framework (sy_web SY)" and "bases_ok (ge_settings (sy_gateway SY))"
    and "no_dot_segments (url_path (rq_path request))"
    and "gateway_prepare (gateway_now SY w) request (wd_redis w) = (Inr up, s)"
    and "answering_endpoint SY up = Some e"
  shows "endpoint_area e = ''public'' \<or>
         endpoint_area e = ''admin'' \<and> verified_admin (gateway_now SY w) request (wd_redis w) \<and>
           map_of (up_headers up) ''x-user-role'' = Some ''ADMIN''"
proof (cases "endpoint_area e = ''public''")
  case False
  have S: "ge_settings (gateway_now SY w) = ge_settings (sy_gateway SY)" by (simp add: gateway_now_def)
  have "resolve_target (ge_settings (sy_gateway SY)) (rq_path request) = Inr (up_url up)"
    using gateway_prepare_Inr [OF assms(4)] by (auto simp: upstream_request_of_def bind_res_eq_Inr S)
  from answering_path [OF assms(1,2) this assms(3,5) False] obtain rest where
    a: "endpoint_area e = ''admin''" and "rq_path request = ''/api/admin/'' @ rest" by blast
  from admin_path_verified [OF assms(4) this(2)] admin_role_forwarded [OF assms(4) this(2)] a show ?thesis by simp
qed simp

text \<open>
  C2: A request that the gateway lets through and whose path has no segment that is literally .
  or .. before the first ? or # (escapes, which the services decode, are allowed) is never
  answered by an internal endpoint, and by an administration endpoint only when its token is
  that of a verified administrator; the role header it then carries is ADMIN.
\<close>

theorem perimeter_is_kept:
  assumes "web_framework (sy_web SY)" and "bases_ok (ge_settings (sy_gateway SY))"
    and "no_dot_segments (url_path (rq_path request))"
    and "gateway_prepare (gateway_now SY w) request (wd_redis w) = (Inr up, s)"
    and "answering_endpoint SY up = Some e"
  shows "endpoint_area e \<noteq> ''internal'' \<and>
     (endpoint_area e = ''admin'' \<longrightarrow>
        verified_admin (gateway_now SY w) request (wd_redis w) \<and>
        map_of (up_headers up) ''x-user-role'' = Some ''ADMIN'')"
  using perimeter_lemma [OF assms] by auto

section \<open>Endpoints that leave the catalogue alone\<close>

context catalog_service
begin

definition keeps :: "(('r, 'd) service_state \<Rightarrow> 'a \<times> ('r, 'd) service_state) \<Rightarrow> bool" where
  "keeps m \<longleftrightarrow>
     (\<forall>rows n st. product_table_ok (pe_text_eq E) rows \<longrightarrow> steady (ss_db st) \<longrightarrow> view (ss_db st) = table_of rows n \<longrightarrow>
        steady (ss_db (snd (m st))) \<and> view (ss_db (snd (m st))) = table_of rows n)"

lemma keeps_pure [intro]:
  "keeps (\<lambda>st. (x, st))" "keeps (return_prog y)" "keeps (raise_prog e)" "keeps (lift_res r)" "keeps (with_redis m)"
  by (auto simp: keeps_def with_redis_def split: prod.splits)

lemma keeps_bind [intro]: "keeps m \<Longrightarrow> (\<And>x. keeps (f x)) \<Longrightarrow> keeps (bind_prog m f)"
  unfolding keeps_def bind_prog_def by (auto split: prod.splits sum.splits) (metis snd_conv)+

lemma keeps_answer: "keeps m \<Longrightarrow> keeps (answer E m)"
  unfolding answer_def by blast

lemma keeps_with_db:
  assumes "\<And>rows n. product_table_ok (pe_text_eq E) rows \<Longrightarrow> \<exists>res. reads m rows n res"
  shows "keeps (with_db m)"
  unfolding keeps_def
proof (intro allI impI)
  fix rows n and st :: "('r, 'd) service_state"
  assume a: "product_table_ok (pe_text_eq E) rows" "steady (ss_db st)" "view (ss_db st) = table_of rows n"
  then obtain res d' where "m (ss_db st) = (res, d')" "view d' = table_of rows n" "steady d'"
    using assms unfolding reads_def by blast
  then show "steady (ss_db (snd (with_db m st))) \<and> view (ss_db (snd (with_db m st))) = table_of rows n"
    by (simp add: with_db_def)
qed

lemma keeps_read_through:
  assumes "keeps (with_db compute)"
  shows "keeps (read_through E key parse dump compute)"
  unfolding read_through_def using assms by (auto intro!: keeps_pure keeps_bind split: option.split)

lemma keeps_queries:
  "keeps (list_products E page sz keyword off role)" "keeps (get_product E i)"
  "keeps (get_my_coupon_balances E uid)" "keeps (get_my_coupon_issue_by_order E no uid)"
  "keeps (get_my_coupon_selection_by_order E no uid)"
proof -
  have l: "\<exists>res. reads (get_db (pe_db E) (bind_prog (paginate_products E page sz keyword off)
      (\<lambda>(tot, items). return_prog \<lparr>pg_items = items, pg_page = page, pg_size = sz, pg_total = tot\<rparr>))) rows n res"
    if "product_table_ok (pe_text_eq E) rows" for rows n
    using reads_get_db [OF reads_page [OF that]] by blast
  show "keeps (list_products E page sz keyword off role)"
    unfolding list_products_def by (intro keeps_bind keeps_pure keeps_answer keeps_read_through keeps_with_db l)
  have g: "\<exists>res. reads (get_db (pe_db E) (get_product_or_404 E i)) rows n res"
    if "product_table_ok (pe_text_eq E) rows" for rows n
    using reads_get_db product_lookup [OF that, of i n] by blast
  show "keeps (get_product E i)"
    unfolding get_product_def by (intro keeps_answer keeps_read_through keeps_with_db g)
  show "keeps (get_my_coupon_balances E uid)" "keeps (get_my_coupon_issue_by_order E no uid)"
    "keeps (get_my_coupon_selection_by_order E no uid)"
    unfolding get_my_coupon_balances_def get_my_coupon_issue_by_order_def get_my_coupon_selection_by_order_def
    by (intro keeps_bind keeps_pure keeps_answer)+
qed

lemma keeps_send: "keeps m \<Longrightarrow> keeps (send W request dump m)"
  unfolding keeps_def send_def by (auto split: prod.splits sum.splits) (metis snd_conv)+

lemma keeps_params: "(\<And>p. keeps (run p)) \<Longrightarrow> keeps (with_params (return_prog ()) params run)"
  unfolding with_params_def by (cases params) (auto intro!: keeps_pure keeps_bind)

lemma keeps_public:
  assumes "endpoint_area (Inr e) = ''public''"
  shows "keeps (product_call errs wide W E e ps request)"
proof -
  have p: "keeps (send_probe W d)" for d by (simp add: keeps_def send_probe_def)
  note q = keeps_send [OF keeps_params]
  show ?thesis using assms keeps_queries p
    by (cases e) (auto intro!: keeps_send keeps_params split: prod.split)
qed

lemma keeps_app:
  assumes "\<And>e ps. dispatch W product_app_routes (rq_method request) (rq_path request) = Routed (Own e) ps \<Longrightarrow>
      endpoint_area (Inr e) = ''public''"
  shows "keeps (product_app errs wide W E request)"
proof -
  have "keeps (respond_dispatch W product_app_routes (product_call errs wide W E) request)"
  proof (cases "dispatch W product_app_routes (rq_method request) (rq_path request)")
    case (Routed x ps)
    show ?thesis
    proof (cases x)
      case (Own e)
      have "keeps (product_call errs wide W E e ps request)" by (rule keeps_public, rule assms) (simp add: Routed Own)
      then show ?thesis using Routed Own by (simp add: respond_dispatch_def [abs_def])
    qed (use Routed in \<open>auto simp: respond_dispatch_def [abs_def]\<close>)
  qed (auto simp: respond_dispatch_def [abs_def])
  then show ?thesis by (simp add: product_app_def)
qed

end

lemma catalog_service_later: "catalog_service E rview clock rup rsteady elapse view up steady \<Longrightarrow>
    catalog_service (E\<lparr>pe_now := t\<rparr>) rview clock rup rsteady elapse view up steady"
  by (simp add: catalog_service_def coupon_redis_def coupon_redis_axioms_def product_session_def)

lemma settings_now [simp]: "ge_settings (gateway_now SY w) = ge_settings (sy_gateway SY)"
  by (simp add: gateway_now_def)

text \<open>Requests that do not concern orders go to one of the two services.\<close>

definition order_path :: "string \<Rightarrow> bool" where
  "order_path path \<longleftrightarrow> startswith path ''/api/orders'' \<or> startswith path ''/api/admin/orders''"

lemma not_to_orders:
  assumes "resolve_target S path = Inr url" and "\<not> order_path path"
  shows "destination_of S url \<noteq> Some (Order_service, p)"
proof -
  obtain base q where b: "base \<in> {gw_user_service_url S, gw_product_service_url S}" "url = base @ replace_first ''/api'' [] path"
    "startswith path (''/api'' @ ''/'' @ q)"
  proof -
    have "(startswith path (''/api'' @ ''/'' @ ''auth'') \<or> startswith path (''/api'' @ ''/'' @ ''users'') \<or> startswith path (''/api'' @ ''/'' @ ''admin/users'')) \<and>
         url = gw_user_service_url S @ replace_first ''/api'' [] path \<or>
       (startswith path (''/api'' @ ''/'' @ ''products'') \<or> startswith path (''/api'' @ ''/'' @ ''admin/products'')) \<and>
         url = gw_product_service_url S @ replace_first ''/api'' [] path"
      using assms by (auto simp: resolve_target_def order_path_def split: if_splits)
    then show thesis using that by blast
  qed
  obtain t where "replace_first ''/api'' [] path = ''/'' @ t" using api_prefix [OF b(3)] by auto
  then have "startswith url (base @ ''/'')" using b(2) startswith_append [of "base @ ''/''" t] by simp
  then have "path_under base url \<noteq> None" by (simp add: path_under_def)
  then show ?thesis using b(1) by (auto simp: destination_of_def split: option.splits)
qed

lemma upstream_keeps:
  assumes "catalog_service (sy_product_service SY) rview clock rup rsteady elapse view up steady"
    and "\<And>p. destination_of (ge_settings (sy_gateway SY)) (up_url req) \<noteq> Some (Order_service, p)"
    and "steady (wd_products w)" and "view (wd_products w) = table_of rows n"
    and "product_table_ok (pe_text_eq (sy_product_service SY)) rows"
    and "\<And>e. answering_endpoint SY req = Some e \<Longrightarrow> endpoint_area e = ''public''"
  shows "view (wd_products (snd (upstream SY req w))) = table_of rows n"
proof (cases "destination_of (ge_settings (sy_gateway SY)) (up_url req)")
  case (Some dp)
  obtain dest path where dp: "dp = (dest, path)" by fastforce
  show ?thesis
  proof (cases "wl_deliver (sy_web SY) path")
    case None
    then show ?thesis using \<open>destination_of _ _ = Some dp\<close> dp assms(4) by (simp add: upstream_def)
  next
    case (Some p)
    note there = \<open>destination_of _ _ = Some dp\<close> [unfolded dp] Some
    have "dest \<noteq> Order_service" using assms(2) there by auto
    then consider "dest = User_service" | "dest = Product_service" by (cases dest) auto
    then show ?thesis
    proof cases
      case 1
      then show ?thesis using there assms(4) by (simp add: upstream_def on_users_def split: prod.split)
    next
      case 2
      note now = catalog_service_later [OF assms(1), of "sy_clock SY (wd_redis w)", folded products_now_def]
      have pub: "endpoint_area (Inr e) = ''public''"
        if "dispatch (sy_web SY) product_app_routes (rq_method (delivered p req)) (rq_path (delivered p req)) = Routed (Own e) ps" for e ps
        using assms(6) [of "Inr e"] that there 2 by (simp add: answering_endpoint_def delivered_def)
      have "pe_text_eq (products_now SY w) = pe_text_eq (sy_product_service SY)" by (simp add: products_now_def)
      then have "view (ss_db (snd (product_app (sy_import_errors SY) (sy_wide SY) (sy_web SY) (products_now SY w) (delivered p req)
          \<lparr>ss_redis = wd_redis w, ss_db = wd_products w\<rparr>))) = table_of rows n"
        using catalog_service.keeps_app [OF now pub] assms(3,4,5)
        unfolding catalog_service.keeps_def [OF now] by simp
      then show ?thesis using there 2 by (auto simp: upstream_def on_products_def split: prod.split)
    qed
  qed
qed (use assms(4) in \<open>simp add: upstream_def\<close>)

text \<open>
  C1: While the product database is reachable, whatever request a client sends to the composed
  system leaves the product table as it is, unless the request carries the token of a verified
  administrator, concerns orders, or has a segment that is literally . or .. in its path before
  the first ? or #; escapes, which the services decode, open no other way.
\<close>

theorem catalogue_changes_only_for_admins:
  assumes "catalog_service (sy_product_service SY) rview clock rup rsteady elapse view up steady"
    and "web_framework (sy_web SY)" and "bases_ok (ge_settings (sy_gateway SY))"
    and "steady (wd_products w)" and "view (wd_products w) = table_of rows n"
    and "product_table_ok (pe_text_eq (sy_product_service SY)) rows"
    and "no_dot_segments (url_path (rq_path request))" and "\<not> order_path (rq_path request)"
    and "\<not> verified_admin (gateway_now SY w) request (wd_redis w)"
  shows "view (wd_products (snd (system_request SY request w))) = table_of rows n"
proof -
  let ?W = "sy_web SY"
  have proxy: "view (wd_products (snd (gateway_call SY G_proxy request w))) = table_of rows n"
  proof (cases "gateway_prepare (gateway_now SY w) request (wd_redis w)")
    case (Pair r s)
    show ?thesis
    proof (cases r)
      case (Inr req)
      let ?w = "w\<lparr>wd_redis := s\<rparr>"
      have prep: "gateway_prepare (gateway_now SY w) request (wd_redis w) = (Inr req, s)" using Pair Inr by simp
      have target: "resolve_target (ge_settings (sy_gateway SY)) (rq_path request) = Inr (up_url req)"
        using gateway_prepare_Inr [OF prep] by (auto simp: upstream_request_of_def bind_res_eq_Inr)
      have "endpoint_area e = ''public''" if "answering_endpoint SY req = Some e" for e
        using perimeter_lemma [OF assms(2,3,7) prep that] assms(9) by blast
      then have "view (wd_products (snd (upstream SY req ?w))) = table_of rows n"
        using upstream_keeps [OF assms(1) not_to_orders [OF target assms(8)], of ?w rows n] assms(4,5,6) by simp
      then show ?thesis using prep by (auto simp: gateway_serve_def split: prod.split)
    qed (use Pair assms(5) in \<open>simp add: gateway_serve_def\<close>)
  qed
  have "view (wd_products (snd (gateway_call SY e request w))) = table_of rows n" for e
    using proxy assms(5) by (cases e) simp_all
  then have "view (wd_products (snd (gateway_respond SY request w))) = table_of rows n"
    using assms(5) by (auto simp: gateway_respond_def split: dispatch.split app_endpoint.split)
  then show ?thesis
    using assms(5) by (auto simp: system_request_def gateway_app_def Let_def split: prod.split sum.split option.split)
qed


section \<open>Paths with dot segments\<close>

lemma gateway_compiled:
  "compiled gateway_app_routes =
     [([''GET'', ''POST'', ''PUT'', ''PATCH'', ''DELETE'', ''OPTIONS''], [[], ''api'', ''{path:path}''], Own G_proxy),
      ([''GET''], [[], ''metrics''], Framework), ([''GET''], [[], ''health''], Own G_health),
      ([''GET''], [[], ''ready''], Own G_ready), ([''GET''], [[], ''live''], Own G_live)]"
  by (simp add: compiled_def gateway_app_routes_def metrics_route_def)

lemma to_proxy:
  assumes "web_framework W" and "newline_char \<notin> set path" and "split_path path = [] # ''api'' # s # ss"
    and "m \<in> {''GET'', ''POST'', ''PUT'', ''PATCH'', ''DELETE'', ''OPTIONS''}"
  shows "\<exists>ps. dispatch W gateway_app_routes m path = Routed (Own G_proxy) ps"
proof -
  have "find_compiled (compiled gateway_app_routes) m (split_path path) = Some (Own G_proxy, [(''path'', join_path (s # ss))])"
    using assms(3,4) unfolding gateway_compiled by (auto simp: is_param_def)
  from web_framework.dispatch_found [OF assms(1,2) this] show ?thesis by blast
qed

lemma product_destination:
  assumes "bases_ok S" and "gw_user_service_url S \<noteq> gw_product_service_url S"
  shows "destination_of S (gw_product_service_url S @ ''/'' @ r) = Some (Product_service, ''/'' @ r)"
proof -
  let ?p = "gw_product_service_url S" and ?u = "gw_user_service_url S"
  have s: "startswith (?p @ ''/'' @ r) (?p @ ''/'')" using startswith_append [of "?p @ ''/''" r] by simp
  have "\<not> startswith (?p @ ''/'' @ r) (?u @ ''/'')"
  proof
    assume "startswith (?p @ ''/'' @ r) (?u @ ''/'')"
    from startswith_comparable [OF s this] assms show False unfolding bases_ok_def by auto
  qed
  with s show ?thesis by (simp add: destination_of_def path_under_def)
qed

text \<open>
  The path with which a client reaches the internal endpoint that reserves stock, when the HTTP
  client of the gateway resolves dot segments.
\<close>

definition reserve_path :: "int \<Rightarrow> string" where
  "reserve_path i = ''/internal/products/'' @ int_str i @ ''/reserve''"

definition escape_path :: "int \<Rightarrow> string" where
  "escape_path i = ''/products/..'' @ reserve_path i"

definition escape_request :: "int \<Rightarrow> string \<Rightarrow> http_request" where
  "escape_request i body =
     \<lparr>rq_method = ''POST'', rq_path = ''/api'' @ escape_path i, rq_client = Some ''10.0.0.9'',
      rq_headers = [(''content-type'', ''application/json'')], rq_query = [], rq_body = body\<rparr>"

lemma lower_names: "lower_str ''content-type'' = ''content-type''" "lower_str ''origin'' = ''origin''" by code_simp+

lemma escape_path_chars: "c \<in> set (''/api'' @ escape_path i) \<Longrightarrow> c \<noteq> CHR ''m'' \<and> c \<noteq> newline_char"
  using int_str_chars [of c i] by (auto simp: escape_path_def reserve_path_def is_digit_def)

lemma escape_split:
  "split_path (''/api'' @ escape_path i) =
     [[], ''api'', ''products'', ''..'', ''internal'', ''products'', int_str i, ''reserve'']"
  by (simp add: escape_path_def reserve_path_def split_path_append)

lemma escape_prepared:
  "gateway_prepare E (escape_request i body) s =
     (Inr \<lparr>up_method = ''POST'', up_url = gw_product_service_url (ge_settings E) @ escape_path i, up_content = body,
           up_params = [], up_headers = [(''content-type'', ''application/json'')]\<rparr>, s)"
proof -
  let ?path = "''/api'' @ escape_path i"
  have "\<not> contains_str ''/api/admin/'' ?path"
  proof
    assume "contains_str ''/api/admin/'' ?path"
    then obtain a b where "?path = a @ ''/api/admin/'' @ b" unfolding contains_str_iff by blast
    then have "CHR ''m'' \<in> set ?path" by (metis UnI1 UnI2 list.set_intros set_append)
    then show False using escape_path_chars by blast
  qed
  then have role: "enforce_role ?path None = Inr ()" by (simp add: enforce_role_def)
  have "startswith ?path (''/api'' @ ''/products'')" by (simp add: escape_path_def)
  then have "replace_first ''/api'' [] ?path = escape_path i" using api_prefix by fastforce
  then have url: "resolve_target S ?path = Inr (gw_product_service_url S @ escape_path i)" for S
    by (simp add: resolve_target_def escape_path_def)
  have "\<not> is_public_route (escape_request i body)" "apply_rate_limit E (escape_request i body) None s = (Inr (), s)"
    by (simp_all add: is_public_route_def apply_rate_limit_def escape_request_def escape_path_def)
  moreover have "forwarded_headers (escape_request i body) None = [(''content-type'', ''application/json'')]"
    by (simp add: forwarded_headers_def Let_def dict_of_pairs_def escape_request_def) code_simp
  moreover have "rq_path (escape_request i body) = ?path" "rq_method (escape_request i body) = ''POST''"
    "rq_query (escape_request i body) = []" "rq_body (escape_request i body) = body"
    "header_get (rq_headers (escape_request i body)) ''authorization'' = None"
    by (simp_all add: escape_request_def header_get_def)
  ultimately show ?thesis
    by (simp only: gateway_prepare_def bind_prog_def gw_get_current_user_def role url upstream_request_of_def bind_res_def
        lift_res_def if_False prod.case sum.case option.case)
qed


context catalog_service
begin

lemma reserve_run:
  assumes "steady d" and "view d = table_of rows n" and "product_table_ok (pe_text_eq E) rows"
    and "p \<in> set rows" and "can_reserve i q p" and "p_version p < 2147483647" and "0 < q"
  shows "view (snd (get_db (pe_db E) (reserve_stock E i q) d)) = table_of (replace_product p (moved_stock (- q) p) rows) n \<and>
     fst (get_db (pe_db E) (reserve_stock E i q) d) = Inr (moved_stock (- q) p)"
proof -
  let ?rows = "replace_product p (moved_stock (- q) p) rows"
  have chk: "product_check (pe_text_eq E) rows = None" using assms(3) by (simp add: product_table_ok_def)
  have "product_columns_ok p" "0 \<le> coeff (p_price p)"
    using chk assms(4) by (auto simp: product_check_def list_all_iff split: if_splits)
  then have "product_check (pe_text_eq E) ?rows = None"
    using assms(5,6,7) by (intro check_replaced [OF chk assms(4)]) (auto simp: can_reserve_def product_columns_ok_def moved_stock_def)
  moreover have "\<And>r. can_reserve i q r \<Longrightarrow> p_id r = i" by (simp add: can_reserve_def)
  ultimately have t: "reserve_stock db.T i q (table_of rows n) = (Inr (moved_stock (- q) p), table_of ?rows n)"
    using stock_update_table(2) [where P = "can_reserve i q", OF assms(3) _ assms(4,5)] by (simp add: reserve_as_update)
  obtain r d' where run: "get_db (pe_db E) (reserve_stock E i q) d = (r, d')" by fastforce
  have "get_db (pe_db db.T) (reserve_stock db.T i q) (table_of rows n) = (Inr (moved_stock (- q) p), table_of ?rows n)"
    using t by (simp add: get_db_def tb_rollback_def table_of_def)
  from simulates_run [OF db.simulates_get_db [OF db.sim_reserve] assms(1,2) _ run] this run show ?thesis
    by simp
qed


lemma reserve_endpoint_run:
  assumes "steady (ss_db st)" and "view (ss_db st) = table_of rows n" and "product_table_ok (pe_text_eq E) rows"
    and "p \<in> set rows" and "can_reserve i q p" and "p_version p < 2147483647" and "0 < q"
  shows "view (ss_db (snd (reserve_stock_endpoint E i q st))) = table_of (replace_product p (moved_stock (- q) p) rows) n"
  using reserve_run [OF assms(1-7)] assms(7)
  by (auto simp: reserve_stock_endpoint_def bind_prog_def lift_res_def ensure_def reserve_request_ok_def answer_def
      write_and_bump_def with_db_def with_redis_def return_prog_def split: prod.splits sum.splits)

end

lemma reserve_dispatch:
  assumes "web_framework W"
  shows "dispatch W product_app_routes ''POST'' (reserve_path i) = Routed (Own P_reserve) [(''product_id'', int_str i)]"
proof -
  have nl: "newline_char \<notin> set (reserve_path i)" using int_str_segment(2) by (auto simp: reserve_path_def)
  have "split_path (reserve_path i) = [[], ''internal'', ''products'', int_str i, ''reserve'']"
    by (simp add: reserve_path_def split_path_append)
  then have "find_compiled (compiled product_app_routes) ''POST'' (split_path (reserve_path i)) =
      Some (Own P_reserve, [(''product_id'', int_str i)])"
    unfolding product_compiled by (simp add: is_param_def param_name_def)
  from web_framework.dispatch_found [OF assms nl this] show ?thesis .
qed

lemma reserve_app_run:
  assumes "catalog_service E rview clock rup rsteady elapse view up steady" and "web_framework W"
    and "steady (ss_db st)" and "view (ss_db st) = table_of rows n" and "product_table_ok (pe_text_eq E) rows"
    and "p \<in> set rows" and "can_reserve i q p" and "p_version p < 2147483647" and "0 < q"
    and "rq_method request = ''POST''" and "rq_path request = reserve_path i"
    and "header_get (rq_headers request) ''content-type'' = Some ''application/json''"
    and "is_ascii (rq_body request)" and "json_loads (rq_body request) = Some (PDict [(''quantity'', PInt q)])"
  shows "view (ss_db (snd (product_app errs wide W E request st))) = table_of (replace_product p (moved_stock (- q) p) rows) n"
proof -
  have "stored p" using stored_rows [OF assms(5,6)] .
  then have "length (int_str i) \<le> 4300" using stored_ints assms(7) by (auto simp: can_reserve_def)
  then have i: "path_int W [(''product_id'', int_str i)] ''product_id'' = Some i"
    using web_framework.int_law [OF assms(2)] by (simp add: path_int_def)
  have "wl_body W (rq_headers request) (rq_body request) = Inr (Some (PDict [(''quantity'', PInt q)]))"
    using web_framework.body_law [OF assms(2) assms(12-14)] .
  moreover have "pd_int (wl_pydantic W) (PInt q) = Some q"
    using pydantic_json.json_int [OF web_framework.axioms(1) [OF assms(2)]] .
  ultimately have "product_app errs wide W E request st =
      send W request internal_dump (reserve_stock_endpoint E i q) st"
    using reserve_dispatch [OF assms(2), of i] i assms(10,11)
    by (simp add: product_app_def respond_dispatch_def with_body_def with_params_def pair_option_def body_fields_def field_def
        result_option_def dict_get_def)
  then show ?thesis using catalog_service.reserve_endpoint_run [OF assms(1,3-9)]
    by (auto simp: send_def split: prod.split sum.split)
qed

text \<open>
  Without a token a client can reserve stock through the gateway, with a path that has dot segments.
\<close>

text \<open>
  C40: With an HTTP client that resolves dot segments, a client without a token reserves stock
  through the gateway: a POST to /api/products/../internal/products/<id>/reserve lowers the
  stock of the product.
\<close>

theorem dot_segments_reach_internal_endpoints:
  assumes "catalog_service (sy_product_service SY) rview clock rup rsteady elapse view up steady"
    and "web_framework (sy_web SY)" and "bases_ok (ge_settings (sy_gateway SY))"
    and "gw_user_service_url (ge_settings (sy_gateway SY)) \<noteq> gw_product_service_url (ge_settings (sy_gateway SY))"
    and "wl_deliver (sy_web SY) (escape_path i) = Some (reserve_path i)"
    and "steady (wd_products w)" and "view (wd_products w) = table_of rows n"
    and "product_table_ok (pe_text_eq (sy_product_service SY)) rows"
    and "p \<in> set rows" and "can_reserve i q p" and "p_version p < 2147483647" and "0 < q"
    and "is_ascii body" and "json_loads body = Some (PDict [(''quantity'', PInt q)])"
  shows "view (wd_products (snd (system_request SY (escape_request i body) w))) =
     table_of (replace_product p (moved_stock (- q) p) rows) n"
proof -
  let ?S = "ge_settings (sy_gateway SY)" and ?rq = "escape_request i body"
  let ?rows = "replace_product p (moved_stock (- q) p) rows"
  have path: "rq_path ?rq = ''/api'' @ escape_path i" "rq_method ?rq = ''POST''" by (simp_all add: escape_request_def)
  have e: "escape_path i = ''/'' @ tl (escape_path i)" by (simp add: escape_path_def)
  obtain ps where d: "dispatch (sy_web SY) gateway_app_routes ''POST'' (''/api'' @ escape_path i) = Routed (Own G_proxy) ps"
    using to_proxy [OF assms(2) _ escape_split, where m = "''POST''"] escape_path_chars by blast
  define req where "req = \<lparr>up_method = ''POST'', up_url = gw_product_service_url ?S @ escape_path i, up_content = body,
      up_params = [], up_headers = [(''content-type'', ''application/json'')]\<rparr>"
  have prep: "gateway_prepare (gateway_now SY w) ?rq (wd_redis w) = (Inr req, wd_redis w)"
    using escape_prepared [of "gateway_now SY w"] by (simp add: req_def)
  have dest: "destination_of ?S (up_url req) = Some (Product_service, escape_path i)"
    using product_destination [OF assms(3,4), of "tl (escape_path i)"] e by (simp add: req_def)
  let ?d = "delivered (reserve_path i) req" and ?E = "products_now SY w"
  have now: "catalog_service ?E rview clock rup rsteady elapse view up steady" "pe_text_eq ?E = pe_text_eq (sy_product_service SY)"
    using catalog_service_later [OF assms(1), of "sy_clock SY (wd_redis w)"] by (simp_all add: products_now_def)
  have "view (ss_db (snd (product_app (sy_import_errors SY) (sy_wide SY) (sy_web SY) ?E ?d \<lparr>ss_redis = wd_redis w, ss_db = wd_products w\<rparr>))) =
      table_of ?rows n"
    by (rule reserve_app_run [OF now(1) assms(2) _ _ _ assms(9-12)])
      (simp_all add: now(2) assms delivered_def req_def header_get_def lower_names)
  then have "view (wd_products (snd (upstream SY req w))) = table_of ?rows n"
    by (auto simp: upstream_def dest assms(5) on_products_def split: prod.split)
  then have "view (wd_products (snd (gateway_respond SY ?rq w))) = table_of ?rows n"
    using d prep by (auto simp: gateway_respond_def path gateway_serve_def split: prod.split)
  moreover have "wl_cors (sy_web SY) (gateway_cors ?S) ?rq = (None, id)"
    by (rule web_framework.cors_law [OF assms(2)]) (simp add: escape_request_def header_get_def lower_names)
  ultimately show ?thesis
    by (auto simp: system_request_def gateway_app_def Let_def split: prod.split sum.split)
qed

section \<open>A reference system\<close>

definition ref_system :: "(ref_redis, user_entity ref_db, product ref_db, unit) system" where
  "ref_system =
     \<lparr>sy_web = ref_web, sy_gateway = ref_gateway_env, sy_user_service = ref_user_env, sy_product_service = ref_product_env,
      sy_order_service = (\<lambda>request w. (RequestError ''ConnectError'', w)), sy_import_errors = (\<lambda>fields. PList []),
      sy_wide = (\<lambda>request st. (\<lparr>ur_status = 500, ur_headers = [], ur_content = []\<rparr>, st)), sy_clock = rr_clock,
      sy_uuid = (\<lambda>n. ''u-'' @ int_str (int n)), sy_salt = (\<lambda>n. int_str (int n))\<rparr>"

definition ref_world :: "(ref_redis, user_entity ref_db, product ref_db, unit) world" where
  "ref_world =
     \<lparr>wd_redis = fresh_redis, wd_users = ref_user_db, wd_products = ref_product_db, wd_orders = (), wd_served = 0\<rparr>"

lemma ref_system_facts:
  "catalog_service (sy_product_service ref_system) rr_keys rr_clock rr_up rr_steady rr_elapse rd_table rd_up rd_steady"
  "web_framework (sy_web ref_system)" "bases_ok (ge_settings (sy_gateway ref_system))"
  "rd_steady (wd_products ref_world)" "rd_table (wd_products ref_world) = table_of [keyboard] 2"
  "product_table_ok (pe_text_eq (sy_product_service ref_system)) [keyboard]"
  using ref_product_facts
  by (simp_all add: ref_system_def ref_world_def ref_cs.catalog_service_axioms ref_web.web_framework_axioms
      bases_ok_def ref_gateway_env_def gateway_default_settings_def)

lemma ref_gateway_now: "gateway_now ref_system ref_world = ref_gateway_env"
  by (simp add: gateway_now_def ref_system_def ref_world_def fresh_redis_def ref_gateway_env_def)

text \<open>An administrator sets the stock of product 1.\<close>

definition stock_request :: http_request where
  "stock_request =
     plain_request ''PUT'' ''/api/admin/products/1/stock'' [(''authorization'', admin_authorization)]"

lemma stock_request_prepared:
  "\<exists>hs. gateway_prepare ref_gateway_env stock_request fresh_redis =
     (Inr \<lparr>up_method = ''PUT'', up_url = ''http://localhost:8002/admin/products/1/stock'', up_content = [], up_params = [],
           up_headers = hs\<rparr>, fresh_redis)"
proof -
  have "header_get (rq_headers stock_request) ''authorization'' = Some admin_authorization"
    by (simp add: stock_request_def plain_request_def header_get_def)
  then show ?thesis
    by (simp add: gateway_prepare_def gw_get_optional_same bind_prog_def admin_authorization_user)
      (simp add: stock_request_def plain_request_def enforce_role_def apply_rate_limit_def upstream_request_of_def
        resolve_target_def ref_gateway_env_def gateway_default_settings_def bind_res_def lift_res_def)
qed

lemma stock_request_answered:
  "up_method up = ''PUT'' \<Longrightarrow> up_url up = ''http://localhost:8002/admin/products/1/stock'' \<Longrightarrow>
     answering_endpoint ref_system up = Some (Inr P_update_stock)"
  by (simp add: answering_endpoint_def destination_of_def path_under_def ref_system_def ref_gateway_env_def
      gateway_default_settings_def ref_web_def ref_deliver_def url_path_def no_dot_segments_def dispatch_def product_app_routes_def
      fastapi_docs_def own_routes_def product_routes_def is_param_def)

theorem perimeter_is_kept_witness:
  "\<exists>up s. gateway_prepare ref_gateway_env stock_request fresh_redis = (Inr up, s) \<and>
     map_of (up_headers up) ''x-user-role'' = Some ''ADMIN'' \<and> verified_admin ref_gateway_env stock_request fresh_redis"
proof -
  obtain up where up: "gateway_prepare ref_gateway_env stock_request fresh_redis = (Inr up, fresh_redis)"
    "up_method up = ''PUT''" "up_url up = ''http://localhost:8002/admin/products/1/stock''"
    using stock_request_prepared by fastforce
  have "no_dot_segments (url_path (rq_path stock_request))"
    by (simp add: stock_request_def plain_request_def url_path_def no_dot_segments_def)
  moreover have "wd_redis ref_world = fresh_redis" by (simp add: ref_world_def)
  ultimately show ?thesis
    using perimeter_is_kept [OF ref_system_facts(2,3), of stock_request ref_world up fresh_redis] up
      stock_request_answered [OF up(2,3)]
    by (simp add: ref_gateway_now)
qed

theorem catalogue_changes_witness:
  "rd_table (wd_products (snd (system_request ref_system
       (plain_request ''POST'' ''/api/products/%2e%2e/internal/products/1/reserve'' [(''x-user-role'', ''ADMIN'')]) ref_world))) = table_of [keyboard] 2"
proof -
  let ?rq = "plain_request ''POST'' ''/api/products/%2e%2e/internal/products/1/reserve'' [(''x-user-role'', ''ADMIN'')]"
  have "\<not> verified_admin (gateway_now ref_system ref_world) ?rq (wd_redis ref_world)"
    by (simp add: verified_admin_def plain_request_def header_get_def)
  then show ?thesis
    by (intro catalogue_changes_only_for_admins [OF ref_system_facts(1-6)])
      (simp_all add: plain_request_def url_path_def no_dot_segments_def order_path_def)
qed

theorem dot_segments_witness:
  "rd_table (wd_products (snd (system_request ref_system (escape_request 1 ''{\"quantity\": 3}'') ref_world))) =
     table_of (replace_product keyboard (moved_stock (- 3) keyboard) [keyboard]) 2"
proof -
  have "int_str 1 = ''1''" by code_simp
  then have "wl_deliver (sy_web ref_system) (escape_path 1) = Some (reserve_path 1)"
    by (simp add: ref_system_def ref_web_def ref_deliver_def url_path_def no_dot_segments_def escape_path_def reserve_path_def)
  moreover have "json_loads ''{\"quantity\": 3}'' = Some (PDict [(''quantity'', PInt 3)])" "is_ascii ''{\"quantity\": 3}''"
    by code_simp+
  moreover have "gw_user_service_url (ge_settings (sy_gateway ref_system)) \<noteq> gw_product_service_url (ge_settings (sy_gateway ref_system))"
    by (simp add: ref_system_def ref_gateway_env_def gateway_default_settings_def)
  ultimately show ?thesis
    by (intro dot_segments_reach_internal_endpoints [OF ref_system_facts(1-3) _ _ ref_system_facts(4-6)])
      (simp_all add: keyboard_def can_reserve_def)
qed

end
