(* ===== verification/Session_Steps.thy ===== *)
theory Session_Steps
  imports Sessions Perimeter Smoke_Checks
begin

text \<open>
  A client of the whole system: the requests that the smoke test of sessions
  (\<^verbatim>\<open>smoke-test-phase2.py\<close>) sends go through the gateway to the user service and the product
  service, one after the other, with time passing in between. Here each request by itself: what
  the system answers to sign-in, profile, sign-out and product list, and what it leaves in Redis
  and in the databases.

  The client side of HTTP (\<^verbatim>\<open>urllib.request\<close>) is the record \<open>url_client\<close>: the server the base URL
  leads to, the headers it adds, the time that passes before a request, the decoding of
  bodies and what comes of a redirect.
\<close>

section \<open>The client\<close>

record url_client =
  uc_base :: string
  uc_address :: "string option"
  uc_headers :: "url_request \<Rightarrow> (string \<times> string) list"
  uc_gap :: "nat \<Rightarrow> int"
  uc_decode :: "string \<Rightarrow> string res"
  uc_redirect :: "url_request \<Rightarrow> http_response \<Rightarrow> http_reply res"

definition request_of :: "web_lib \<Rightarrow> url_client \<Rightarrow> url_request \<Rightarrow> string \<Rightarrow> http_request" where
  "request_of W N req target =
     (case wl_target W target of
        (path, query) \<Rightarrow>
          \<lparr>rq_method = hr_method req, rq_path = path, rq_client = uc_address N,
           rq_headers = map (\<lambda>(k, v). (lower_str k, v)) (uc_headers N req @ hr_headers req),
           rq_query = query, rq_body = (case hr_data req of None \<Rightarrow> [] | Some d \<Rightarrow> d)\<rparr>)"

definition reply_of :: "url_client \<Rightarrow> url_request \<Rightarrow> http_response \<Rightarrow> http_reply res" where
  "reply_of N req resp =
     (if 200 \<le> rs_status resp \<and> rs_status resp < 300 then Inr (Response (rs_status resp) (uc_decode N (rs_content resp)))
      else if rs_status resp \<in> {301, 302, 303, 307, 308} then uc_redirect N req resp
      else Inr (HTTPError (rs_status resp) (uc_decode N (rs_content resp))))"

definition open_url ::
  "('r, 'du, 'dp, 'o) system \<Rightarrow> (int \<Rightarrow> 'r \<Rightarrow> 'r) \<Rightarrow> url_client \<Rightarrow> url_request \<Rightarrow> (('r, 'du, 'dp, 'o) world, http_reply) prog" where
  "open_url SY elapse N req w =
     (case path_under (uc_base N) (hr_url req) of
        None \<Rightarrow> (Inl OSError, w)
      | Some target \<Rightarrow>
          (case system_request SY (request_of (sy_web SY) N req target)
                  (w\<lparr>wd_redis := elapse (uc_gap N (wd_served w)) (wd_redis w)\<rparr>) of
             (resp, w') \<Rightarrow> (reply_of N req resp, w')))"

section \<open>The system as the client sees it\<close>

locale shop =
  G: gateway_redis "sy_gateway SY" view clock up steady elapse +
  U: user_redis "sy_user_service SY" view clock up steady elapse +
  D: user_session "sy_user_service SY" uview uup usteady "user_check (ue_text_eq (sy_user_service SY))" coerce +
  P: catalog_service "sy_product_service SY" view clock up steady elapse pview pup psteady +
  W: web_framework "sy_web SY" +
  J: jwt_codec "ue_jwt (sy_user_service SY)"
  for SY :: "('r, 'du, 'dp, 'o) system" and view clock up steady elapse uview uup usteady coerce pview pup psteady +
  assumes shares: "gateway_shares (sy_gateway SY) (sy_user_service SY)"
    and text_eq: "equivp (ue_text_eq (sy_user_service SY))"
    and clocks: "sy_clock SY = clock"
    and bases: "bases_ok (ge_settings (sy_gateway SY))"
    and own_bases: "gw_user_service_url (ge_settings (sy_gateway SY)) \<noteq> gw_product_service_url (ge_settings (sy_gateway SY))"
    and login_window: "0 < gw_login_rate_limit_window_seconds (ge_settings (sy_gateway SY))"
begin

abbreviation S where "S \<equiv> ge_settings (sy_gateway SY)"

lemma later:
  "gateway_redis (gateway_now SY w) view clock up steady elapse" "user_redis (users_now SY w) view clock up steady elapse"
  "user_session (users_now SY w) uview uup usteady (user_check (ue_text_eq (sy_user_service SY))) coerce"
  "catalog_service (products_now SY w) view clock up steady elapse pview pup psteady"
  "gateway_shares (gateway_now SY w) (users_now SY w)" "jwt_codec (ue_jwt (users_now SY w))"
  using G.gateway_redis_axioms U.user_redis_axioms D.user_session_axioms shares J.jwt_codec_axioms
    catalog_service_later [OF P.catalog_service_axioms, of "sy_clock SY (wd_redis w)"]
  by (simp_all add: gateway_redis_def gateway_redis_axioms_def user_redis_def user_redis_axioms_def user_session_def
      gateway_now_def users_now_def products_now_def gateway_shares_def)

end

section \<open>Through the gateway\<close>

lemma map_of_filter_fst: "P k \<Longrightarrow> map_of (filter (\<lambda>kv. P (fst kv)) kvs) k = map_of kvs k"
  by (induction kvs) auto

lemma forwarded_lookup:
  assumes "distinct (map fst (rq_headers rq))" and "lower_str k \<noteq> ''host''"
    and "k \<noteq> ''x-user-id''" and "k \<noteq> ''x-username''" and "k \<noteq> ''x-user-role''"
  shows "map_of (forwarded_headers rq user) k = map_of (rq_headers rq) k"
proof -
  let ?hs = "filter (\<lambda>kv. lower_str (fst kv) \<noteq> ''host'') (rq_headers rq)"
  have "distinct (map fst ?hs)" using assms(1) by (metis distinct_map_filter)
  then have "dict_of_pairs ?hs = ?hs" by (rule dict_of_pairs_distinct)
  moreover have "map_of ?hs k = map_of (rq_headers rq) k"
    by (rule map_of_filter_fst) (rule assms(2))
  ultimately show ?thesis using assms(3-5)
    by (simp add: forwarded_headers_def Let_def map_of_update_eq split: option.split)
qed

text \<open>A request without the headers that the CORS middleware and the gateway's identity checks look at.\<close>

definition sent :: "string \<Rightarrow> string \<Rightarrow> (string \<times> string) list \<Rightarrow> string option \<Rightarrow> string \<Rightarrow> http_request \<Rightarrow> bool" where
  "sent m path query token body rq \<longleftrightarrow>
     rq_method rq = m \<and> rq_path rq = ''/api'' @ path \<and> rq_query rq = query \<and> rq_body rq = body \<and>
     distinct (map fst (rq_headers rq)) \<and> map_of (rq_headers rq) ''authorization'' = map_option bearer token \<and>
     map_of (rq_headers rq) ''content-type'' = Some ''application/json'' \<and> map_of (rq_headers rq) ''origin'' = None"

definition passed_on :: "upstream_response \<Rightarrow> http_response" where
  "passed_on up =
     \<lparr>rs_status = ur_status up,
      rs_headers = dict_of_pairs (filter (\<lambda>kv. lower_str (fst kv) \<notin> excluded_headers) (ur_headers up)),
      rs_content = ur_content up,
      rs_media_type = header_get (ur_headers up) ''content-type''\<rparr>"

lemma lower_header_names [simp]: "lower_str ''origin'' = ''origin''" "lower_str ''authorization'' = ''authorization''"
  "lower_str ''content-type'' = ''content-type''" "lower_str ''x-user-role'' = ''x-user-role''"
  by code_simp+

context shop
begin

lemma to_gateway:
  assumes "sent m path query token body rq" and "m \<in> {''GET'', ''POST'', ''PUT''}" and "path = ''/'' @ rest"
    and "newline_char \<notin> set path"
  shows "\<exists>ps. dispatch (sy_web SY) gateway_app_routes (rq_method rq) (rq_path rq) = Routed (Own G_proxy) ps"
    and "wl_cors (sy_web SY) (gateway_cors S) rq = (None, id)"
proof -
  obtain t ts where ts: "split_path rest = t # ts" using split_path_nonempty by (meson list.exhaust)
  have p: "split_path (rq_path rq) = [] # ''api'' # t # ts"
    using assms(1,3) ts by (simp add: sent_def)
  have "newline_char \<notin> set (rq_path rq)" using assms(1,4) by (simp add: sent_def)
  from to_proxy [OF W.web_framework_axioms this p] assms(1,2)
  show "\<exists>ps. dispatch (sy_web SY) gateway_app_routes (rq_method rq) (rq_path rq) = Routed (Own G_proxy) ps"
    by (auto simp: sent_def)
  show "wl_cors (sy_web SY) (gateway_cors S) rq = (None, id)"
    by (rule W.cors_law) (use assms(1) in \<open>simp add: sent_def header_get_def\<close>)
qed

lemma passes:
  assumes "sent m path query token body rq" and "m \<in> {''GET'', ''POST'', ''PUT''}" and "path = ''/'' @ rest"
    and "newline_char \<notin> set path"
    and "gateway_prepare (gateway_now SY w) rq (wd_redis w) = (Inr req, s)"
    and "upstream SY req (w\<lparr>wd_redis := s\<rparr>) = (Upstream ur, w')"
  shows "system_request SY rq w = (passed_on ur, w'\<lparr>wd_served := Suc (wd_served w)\<rparr>)"
proof -
  have "gateway_serve (gateway_now SY w) (upstream SY) rq w = (Inr (passed_on ur), w')"
    using assms(5,6) by (simp add: gateway_serve_def gateway_finish_def passed_on_def)
  then show ?thesis using to_gateway [OF assms(1-4)]
    by (auto simp: system_request_def gateway_app_def gateway_respond_def)
qed

lemma is_refused:
  assumes "sent m path query token body rq" and "m \<in> {''GET'', ''POST'', ''PUT''}" and "path = ''/'' @ rest"
    and "newline_char \<notin> set path"
    and "gateway_prepare (gateway_now SY w) rq (wd_redis w) = (Inl (HTTPException c d), s)"
  shows "system_request SY rq w =
    (as_http_response (json_response (sy_web SY) c (error_detail d)), w\<lparr>wd_redis := s, wd_served := Suc (wd_served w)\<rparr>)"
proof -
  have "gateway_serve (gateway_now SY w) (upstream SY) rq w = (Inl (HTTPException c d), w\<lparr>wd_redis := s\<rparr>)"
    using assms(5) by (simp add: gateway_serve_def)
  then show ?thesis using to_gateway [OF assms(1-4)]
    by (auto simp: system_request_def gateway_app_def gateway_respond_def Let_def is_http_exception_def error_response_def)
qed

end

section \<open>Tokens\<close>

definition token_of :: "('r, 'd) user_env \<Rightarrow> user \<Rightarrow> string" where
  "token_of E u = create_access_token E (u_id u) (u_username u) (u_role u)"

definition identity_of :: "user \<Rightarrow> current_user" where
  "identity_of u = \<lparr>cu_user_id = u_id u, cu_username = u_username u, cu_role = u_role u\<rparr>"

definition claims_of :: "('r, 'd) user_env \<Rightarrow> user \<Rightarrow> claims" where
  "claims_of E u = access_token_claims E (u_id u) (u_username u) (u_role u)"

context shop
begin

text \<open>A state in which Redis was only read.\<close>

definition quiet :: "'r \<Rightarrow> 'r \<Rightarrow> bool" where
  "quiet s s' \<longleftrightarrow> steady s' \<and> view s' = view s \<and> clock s' = clock s"

lemma quiet_refl: "steady s \<Longrightarrow> quiet s s"
  and quiet_trans: "quiet s t \<Longrightarrow> quiet t r \<Longrightarrow> quiet s r"
  by (simp_all add: quiet_def)

definition revoked :: "'r \<Rightarrow> string \<Rightarrow> bool" where
  "revoked s token \<longleftrightarrow> (\<exists>v e. view s (us_blacklist_key token) = Some (RStr v, e))"

lemma gw_check:
  assumes "steady s"
  obtains s' where "gw_is_token_blacklisted (gateway_now SY w) token s = (revoked s token, s')" and "quiet s s'"
proof -
  let ?k = "us_blacklist_key token"
  obtain r s' where g: "redis_get (ge_redis (sy_gateway SY)) ?k s = (r, s')" by fastforce
  have "quiet s s'"
    using implements_up(2,3) [OF G.get_law G.steady_up [OF assms], of ?k] implements_steady [OF G.get_law assms, of ?k] g
    by (auto simp: quiet_def ks_get_def split: option.splits rvalue.splits)
  moreover have "fst (gw_is_token_blacklisted (gateway_now SY w) token s) = revoked s token"
    using gw_blacklisted_view [OF later(2,5) assms] by (simp add: revoked_def)
  moreover have "snd (gw_is_token_blacklisted (gateway_now SY w) token s) = s'"
    using g gateway_redis.gw_client [OF later(1)]
    by (auto simp: gw_is_token_blacklisted_def gw_safe_execute_def safe_execute_Some case_prod_unfold gw_blacklist_key_def
        us_blacklist_key_def gateway_now_def split: sum.splits)
  ultimately show thesis by (intro that [of s']) (simp_all add: prod_eq_iff)
qed

lemma us_check:
  assumes "steady s"
  obtains s' where "us_is_token_blacklisted (users_now SY w) token s = (Inr (revoked s token), s')" and "quiet s s'"
proof -
  let ?k = "us_blacklist_key token"
  obtain r s' where g: "redis_get (ue_redis (sy_user_service SY)) ?k s = (r, s')" by fastforce
  have "quiet s s'"
    using implements_up(2,3) [OF U.get_law U.steady_up [OF assms], of ?k] implements_steady [OF U.get_law assms, of ?k] g
    by (auto simp: quiet_def ks_get_def split: option.splits rvalue.splits)
  moreover have "fst (us_is_token_blacklisted (users_now SY w) token s) = Inr (revoked s token)"
    using user_redis.blacklisted_run [OF later(2) assms] by (simp add: revoked_def)
  moreover have "snd (us_is_token_blacklisted (users_now SY w) token s) = s'"
    using g user_redis.us_client [OF later(2)]
    by (auto simp: us_is_token_blacklisted_def us_safe_execute_def safe_execute_Some case_prod_unfold users_now_def
        split: sum.splits)
  ultimately show thesis by (intro that [of s']) (simp_all add: prod_eq_iff)
qed

text \<open>A token that was issued in the state \<open>w0\<close> to the account \<open>u\<close> is valid at the time \<open>t\<close>.\<close>

definition valid_at :: "('r, 'du, 'dp, 'o) world \<Rightarrow> user \<Rightarrow> int \<Rightarrow> bool" where
  "valid_at w0 u t \<longleftrightarrow>
     t < token_expiry (users_now SY w0) * second \<and> \<bar>u_id u\<bar> \<le> int64_max \<and> \<bar>token_expiry (users_now SY w0)\<bar> \<le> int64_max"

lemma token_nonempty [simp]: "token_of (users_now SY w0) u \<noteq> []"
  using jwt_codec.encode_nonempty [OF later(6)] by (simp add: token_of_def create_access_token_def)

lemma token_decodes:
  assumes "valid_at w0 u t"
  shows "jwt_decode (ue_jwt (sy_user_service SY)) t (token_of (users_now SY w0) u)
      (us_jwt_secret (ue_settings (sy_user_service SY))) [us_jwt_algorithm (ue_settings (sy_user_service SY))] =
    Some (claims_of (users_now SY w0) u)"
proof -
  have e: "ue_jwt (users_now SY w0) = ue_jwt (sy_user_service SY)" "ue_settings (users_now SY w0) = ue_settings (sy_user_service SY)"
    by (simp_all add: users_now_def)
  show ?thesis
    using access_token_decodes [OF later(6) [of w0], of "u_id u" t "u_username u" "u_role u"] assms
    unfolding token_of_def claims_of_def e by (simp add: valid_at_def)
qed

lemma gateway_user:
  assumes "steady s" and "valid_at w0 u (clock (wd_redis w))"
  obtains s' where "gw_get_current_user (gateway_now SY w) (Some (bearer (token_of (users_now SY w0) u))) s =
      ((if revoked s (token_of (users_now SY w0) u) then Inl (http_error 401 ''Access token has been revoked'')
        else Inr (Some (identity_of u))), s')"
    and "quiet s s'"
proof -
  let ?t = "token_of (users_now SY w0) u"
  obtain s' where b: "gw_is_token_blacklisted (gateway_now SY w) ?t s = (revoked s ?t, s')" and q: "quiet s s'"
    by (rule gw_check [OF assms(1)])
  have "jwt_decode (ge_jwt (gateway_now SY w)) (ge_now (gateway_now SY w)) ?t (gw_jwt_secret (ge_settings (gateway_now SY w)))
      [gw_jwt_algorithm (ge_settings (gateway_now SY w))] = Some (claims_of (users_now SY w0) u)"
    using token_decodes [OF assms(2)] shares by (simp add: gateway_shares_def gateway_now_def clocks)
  then have d: "gw_decode_token (gateway_now SY w) ?t s =
      ((if revoked s ?t then Inl (http_error 401 ''Access token has been revoked'') else Inr (identity_of u)), s')"
    by (simp add: gw_decode_token_def b claims_of_def access_token_claims_def dict_item_def dict_get_def identity_of_def
        split: bool.split)
  then have "gw_get_current_user (gateway_now SY w) (Some (bearer ?t)) s =
      ((if revoked s ?t then Inl (http_error 401 ''Access token has been revoked'') else Inr (Some (identity_of u))), s')"
    by (simp add: gw_get_current_user_def bind_prog_def)
  then show thesis by (rule that) (rule q)
qed

lemma user_claims:
  assumes "steady s" and "valid_at w0 u (clock (wd_redis w))" and "\<not> revoked s (token_of (users_now SY w0) u)"
  shows "\<exists>s'. get_current_claims (users_now SY w) (Some (bearer (token_of (users_now SY w0) u))) s =
       (Inr (claims_of (users_now SY w0) u), s') \<and>
     get_current_token_with_claims (users_now SY w) (Some (bearer (token_of (users_now SY w0) u))) s =
       (Inr (token_of (users_now SY w0) u, claims_of (users_now SY w0) u), s') \<and> quiet s s'"
proof -
  let ?t = "token_of (users_now SY w0) u"
  obtain s' where b: "us_is_token_blacklisted (users_now SY w) ?t s = (Inr (revoked s ?t), s')" and q: "quiet s s'"
    by (rule us_check [OF assms(1)])
  have "us_decode_token (users_now SY w) ?t = Inr (claims_of (users_now SY w0) u)"
    using token_decodes [OF assms(2)] by (simp add: us_decode_token_def users_now_def clocks)
  then show ?thesis using q assms(3)
    by (intro exI [of _ s']) (simp add: get_current_claims_def get_current_token_with_claims_def bind_prog_def b)
qed

end

section \<open>The steps of a session\<close>

context shop
begin

lemma prepare_with_token:
  assumes "sent m path query (Some (token_of (users_now SY w0) u)) body rq"
    and "steady (wd_redis w)" and "valid_at w0 u (clock (wd_redis w))"
    and "\<not> contains_str ''/api/admin/'' (''/api'' @ path)" and "m = ''POST'' \<longrightarrow> path \<noteq> ''/auth/login'' \<and> path \<noteq> ''/orders''"
    and "resolve_target S (''/api'' @ path) = Inr url"
  obtains s where "gateway_prepare (gateway_now SY w) rq (wd_redis w) =
      ((if revoked (wd_redis w) (token_of (users_now SY w0) u) then Inl (http_error 401 ''Access token has been revoked'')
        else Inr \<lparr>up_method = m, up_url = url, up_content = body, up_params = query,
                  up_headers = forwarded_headers rq (Some (identity_of u))\<rparr>), s)"
    and "quiet (wd_redis w) s"
proof -
  let ?t = "token_of (users_now SY w0) u" and ?r = "revoked (wd_redis w) (token_of (users_now SY w0) u)"
  obtain s where g: "gw_get_current_user (gateway_now SY w) (Some (bearer ?t)) (wd_redis w) =
      ((if ?r then Inl (http_error 401 ''Access token has been revoked'') else Inr (Some (identity_of u))), s)"
    and q: "quiet (wd_redis w) s"
    by (rule gateway_user [OF assms(2,3)])
  have h: "header_get (rq_headers rq) ''authorization'' = Some (bearer ?t)" and f: "rq_method rq = m" "rq_path rq = ''/api'' @ path"
      "rq_body rq = body" "rq_query rq = query"
    using assms(1) by (simp_all add: sent_def header_get_def)
  have role: "enforce_role (''/api'' @ path) user = Inr ()" for user
    using assms(4) by (simp add: enforce_role_def)
  have rate: "apply_rate_limit (gateway_now SY w) rq user s = (Inr (), s)" for user
    using f assms(5) by (cases "m = ''POST''") (auto simp: apply_rate_limit_def)
  show thesis
    by (rule that [OF _ q])
      (simp add: gateway_prepare_def gw_get_optional_same h g f role [simplified] rate bind_prog_def upstream_request_of_def bind_res_def
        assms(6) [simplified] lift_res_def split: if_split)
qed

lemma user_upstream:
  assumes "up_url req = gw_user_service_url S @ path" and "path = ''/'' @ rest" and "no_dot_segments path" and "list_all plain_char path"
  shows "upstream SY req w = on_users SY (delivered path req) w"
proof -
  have "startswith (gw_user_service_url S @ path) (gw_user_service_url S @ ''/'')"
    using assms(2) startswith_append [of "gw_user_service_url S @ ''/''" rest] by simp
  then show ?thesis
    using assms(1) W.deliver_plain [OF assms(3,4)] by (simp add: upstream_def destination_of_def path_under_def)
qed

lemma product_upstream:
  assumes "up_url req = gw_product_service_url S @ path" and "path = ''/'' @ rest" and "no_dot_segments path" and "list_all plain_char path"
  shows "upstream SY req w = on_products SY (delivered path req) w"
  using assms(1,2) W.deliver_plain [OF assms(3,4)] product_destination [OF bases own_bases, of rest]
  by (simp add: upstream_def)

definition ok_reply :: "pyval \<Rightarrow> http_response \<Rightarrow> bool" where
  "ok_reply v resp \<longleftrightarrow> rs_status resp = 200 \<and> rs_content resp = wl_render (sy_web SY) v"

lemma ok_passed_on [simp]: "ok_reply v (passed_on (json_response (sy_web SY) 200 v))"
  by (simp add: ok_reply_def passed_on_def json_response_def Let_def)

lemma users_now_quiet:
  "clock s = clock (wd_redis w) \<Longrightarrow> users_now SY (w\<lparr>wd_redis := s\<rparr>) = users_now SY w"
  by (simp add: users_now_def clocks)

lemma delivered_headers:
  assumes "sent m path query token body rq"
  shows "header (delivered p \<lparr>up_method = m, up_url = url, up_content = body, up_params = query,
      up_headers = forwarded_headers rq user\<rparr>) ''authorization'' = map_option bearer token"
    and "map_of (forwarded_headers rq user) ''content-type'' = Some ''application/json''"
proof -
  have h: "lower_str ''authorization'' \<noteq> ''host''" "lower_str ''content-type'' \<noteq> ''host''" by simp_all
  have d: "distinct (map fst (rq_headers rq))" using assms by (simp add: sent_def)
  show "header (delivered p \<lparr>up_method = m, up_url = url, up_content = body, up_params = query,
      up_headers = forwarded_headers rq user\<rparr>) ''authorization'' = map_option bearer token"
    using forwarded_lookup [OF d h(1), of user] assms by (simp add: header_def delivered_def header_get_def sent_def)
  show "map_of (forwarded_headers rq user) ''content-type'' = Some ''application/json''"
    using forwarded_lookup [OF d h(2), of user] assms by (simp add: sent_def)
qed

lemma user_routes_of_session:
  "dispatch (sy_web SY) user_app_routes ''POST'' ''/auth/login'' = Routed (Own U_login) []"
  "dispatch (sy_web SY) user_app_routes ''POST'' ''/auth/logout'' = Routed (Own U_logout) []"
  "dispatch (sy_web SY) user_app_routes ''GET'' ''/users/me'' = Routed (Own U_me) []"
  by (intro W.dispatch_found; simp add: user_compiled is_param_def)+

text \<open>The database of accounts with its rows.\<close>

definition accounts :: "user_entity list \<Rightarrow> int \<Rightarrow> 'du \<Rightarrow> bool" where
  "accounts rows n d \<longleftrightarrow>
     usteady d \<and> uview d = table_of rows n \<and> user_check (ue_text_eq (sy_user_service SY)) rows = None"

lemma accounts_query:
  assumes "accounts rows n d" and "simulates usteady uview m r" and "r (table_of rows n) = (x, table_of rows n)"
  obtains d' where "get_db (ue_db (users_now SY w)) m d = (x, d')" and "accounts rows n d'"
proof -
  obtain y d' where run: "get_db (ue_db (sy_user_service SY)) m d = (y, d')" by fastforce
  have t: "get_db (table_sql (user_check (ue_text_eq (sy_user_service SY))) coerce) r (table_of rows n) = (x, table_of rows n)"
    using assms(3) by (simp add: get_db_def tb_rollback_def table_of_def)
  from simulates_run [OF D.simulates_get_db [OF assms(2)] _ _ t run] assms(1) run show thesis
    by (intro that [of d']) (simp_all add: accounts_def users_now_def)
qed

lemma profile_query:
  assumes "accounts rows n d" and "UserRow u \<in> set rows"
  obtains d' where "get_db (ue_db (users_now SY w)) (bind_prog (get_user_by_id (users_now SY w) (u_id u)) (\<lambda>user. return_prog (profile_of user))) d =
      (Inr (profile_of u), d')" and "accounts rows n d'"
proof -
  let ?E = "users_now SY w"
  let ?T = "on_table ?E (user_check (ue_text_eq (sy_user_service SY))) coerce"
  have sim: "simulates usteady uview (bind_prog (get_user_by_id ?E (u_id u)) (\<lambda>user. return_prog (profile_of user)))
      (bind_prog (get_user_by_id ?T (u_id u)) (\<lambda>user. return_prog (profile_of user)))"
    by (rule simulates_bind [OF user_session.sim_get_user [OF later(3)]]) (simp add: simulates_pure)
  have "user_check (ue_text_eq (sy_user_service SY)) rows = None" using assms(1) by (simp add: accounts_def)
  note g = get_user_table(1) [OF this assms(2), where E = ?E and check = "user_check (ue_text_eq (sy_user_service SY))" and coerce = coerce and n = n]
  have "bind_prog (get_user_by_id ?T (u_id u)) (\<lambda>user. return_prog (profile_of user)) (table_of rows n) =
      (Inr (profile_of u), table_of rows n)" by (simp add: bind_prog_def g)
  from accounts_query [OF assms(1) sim this] show thesis using that by blast
qed

lemma me_run:
  assumes "accounts rows n (wd_users w)" and "UserRow u \<in> set rows" and "quiet (wd_redis w) s" and "valid_at w0 u (clock (wd_redis w))"
    and "\<not> revoked s (token_of (users_now SY w0) u)" and "steady (wd_redis w)"
  obtains s' d' where "me (users_now SY w) (Some (bearer (token_of (users_now SY w0) u))) \<lparr>ss_redis = s, ss_db = wd_users w\<rparr> =
      (Inr (api_data (clock (wd_redis w)) (profile_of u)), \<lparr>ss_redis = s', ss_db = d'\<rparr>)"
    and "quiet (wd_redis w) s'" and "accounts rows n d'"
proof -
  let ?E = "users_now SY w" and ?t = "token_of (users_now SY w0) u"
  have "steady s" using assms(3) by (simp add: quiet_def)
  then obtain s' where c: "get_current_claims ?E (Some (bearer ?t)) s = (Inr (claims_of (users_now SY w0) u), s')" and q: "quiet s s'"
    using user_claims [OF _ assms(4,5)] by blast
  have i: "claimed_user_id (claims_of (users_now SY w0) u) = Inr (u_id u)"
    by (simp add: claimed_user_id_def claims_of_def access_token_claims_def dict_item_def dict_get_def bind_res_def)
  obtain d' where d: "get_db (ue_db ?E) (bind_prog (get_user_by_id ?E (u_id u)) (\<lambda>user. return_prog (profile_of user))) (wd_users w) =
      (Inr (profile_of u), d')" and a: "accounts rows n d'"
    by (rule profile_query [OF assms(1,2)])
  have "ue_now ?E = clock (wd_redis w)" by (simp add: users_now_def clocks)
  moreover have "get_db (ue_db ?E) (bind_prog (lift_res (Inr (u_id u))) (\<lambda>user_id. bind_prog (get_user_by_id ?E user_id) (\<lambda>user. return_prog (profile_of user))))
      (wd_users w) = (Inr (profile_of u), d')"
    using d by (simp add: get_db_def bind_prog_def lift_res_def)
  ultimately have "me ?E (Some (bearer ?t)) \<lparr>ss_redis = s, ss_db = wd_users w\<rparr> =
      (Inr (api_data (clock (wd_redis w)) (profile_of u)), \<lparr>ss_redis = s', ss_db = d'\<rparr>)"
    by (simp add: me_def bind_prog_def with_redis_def c i respond_def with_db_def)
  then show thesis by (rule that [OF _ quiet_trans [OF assms(3) q] a])
qed

text \<open>One request later: the accounts and the products are the same, and so is the time.\<close>

definition next_world :: "user_entity list \<Rightarrow> int \<Rightarrow> ('r, 'du, 'dp, 'o) world \<Rightarrow> ('r, 'du, 'dp, 'o) world \<Rightarrow> bool" where
  "next_world rows n w w' \<longleftrightarrow>
     steady (wd_redis w') \<and> clock (wd_redis w') = clock (wd_redis w) \<and> accounts rows n (wd_users w') \<and>
     wd_products w' = wd_products w \<and> wd_served w' = Suc (wd_served w)"

lemma session_targets:
  "resolve_target S (''/api'' @ ''/users/me'') = Inr (gw_user_service_url S @ ''/users/me'')"
  "resolve_target S (''/api'' @ ''/auth/login'') = Inr (gw_user_service_url S @ ''/auth/login'')"
  "resolve_target S (''/api'' @ ''/auth/logout'') = Inr (gw_user_service_url S @ ''/auth/logout'')"
  "resolve_target S (''/api'' @ ''/products'') = Inr (gw_product_service_url S @ ''/products'')"
  by (simp_all add: resolve_target_def)

lemma session_paths:
  "list_all plain_char ''/users/me''" "list_all plain_char ''/auth/login''" "list_all plain_char ''/auth/logout''" "list_all plain_char ''/products''"
  "no_dot_segments ''/users/me''" "no_dot_segments ''/auth/login''" "no_dot_segments ''/auth/logout''" "no_dot_segments ''/products''"
  by (simp_all add: plain_char_def no_dot_segments_def)

text \<open>A request with a token for the user service, which the gateway forwards.\<close>

lemma user_step:
  assumes "sent m path query (Some (token_of (users_now SY w0) u)) body rq" and "steady (wd_redis w)"
    and "valid_at w0 u (clock (wd_redis w))" and "\<not> revoked (wd_redis w) (token_of (users_now SY w0) u)"
    and "(m, path) \<in> {(''GET'', ''/users/me''), (''POST'', ''/auth/logout'')}"
    and run: "\<And>s req. quiet (wd_redis w) s \<Longrightarrow> rq_method req = m \<Longrightarrow> rq_path req = path \<Longrightarrow>
      header req ''authorization'' = Some (bearer (token_of (users_now SY w0) u)) \<Longrightarrow>
      \<exists>s' d'. user_app (sy_web SY) (users_now SY w) req \<lparr>ss_redis = s, ss_db = wd_users w\<rparr> =
        (ur, \<lparr>ss_redis = s', ss_db = d'\<rparr>) \<and> good s' \<and> accounts rows n d'"
  shows "\<exists>w'. system_request SY rq w = (passed_on ur, w') \<and> good (wd_redis w') \<and> accounts rows n (wd_users w') \<and>
     wd_products w' = wd_products w \<and> wd_served w' = Suc (wd_served w)"
proof -
  have p: "resolve_target S (''/api'' @ path) = Inr (gw_user_service_url S @ path)" "list_all plain_char path" "no_dot_segments path"
    "\<not> contains_str ''/api/admin/'' (''/api'' @ path)" "m = ''POST'' \<longrightarrow> path \<noteq> ''/auth/login'' \<and> path \<noteq> ''/orders''"
    "m \<in> {''GET'', ''POST'', ''PUT''}" "newline_char \<notin> set path"
    using assms(5) session_targets session_paths by auto
  obtain rest where rest: "path = ''/'' @ rest" using assms(5) by auto
  obtain s where prep: "gateway_prepare (gateway_now SY w) rq (wd_redis w) =
      (Inr \<lparr>up_method = m, up_url = gw_user_service_url S @ path, up_content = body, up_params = query,
            up_headers = forwarded_headers rq (Some (identity_of u))\<rparr>, s)" and q: "quiet (wd_redis w) s"
    by (rule prepare_with_token [OF assms(1-3) p(4,5,1)]) (simp add: assms(4))
  let ?req = "\<lparr>up_method = m, up_url = gw_user_service_url S @ path, up_content = body, up_params = query,
            up_headers = forwarded_headers rq (Some (identity_of u))\<rparr>"
  have "header (delivered path ?req) ''authorization'' = Some (bearer (token_of (users_now SY w0) u))"
    using delivered_headers(1) [OF assms(1)] by simp
  then obtain s' d' where r: "user_app (sy_web SY) (users_now SY w) (delivered path ?req) \<lparr>ss_redis = s, ss_db = wd_users w\<rparr> =
        (ur, \<lparr>ss_redis = s', ss_db = d'\<rparr>)" "good s'" "accounts rows n d'"
    using run [OF q, of "delivered path ?req"] by (auto simp: delivered_def)
  have "clock s = clock (wd_redis w)" using q by (simp add: quiet_def)
  then have "upstream SY ?req (w\<lparr>wd_redis := s\<rparr>) = (Upstream ur, w\<lparr>wd_redis := s', wd_users := d'\<rparr>)"
    using user_upstream [OF _ rest p(3,2), of ?req] r(1) by (simp add: on_users_def users_now_quiet)
  from passes [OF assms(1) p(6) rest p(7) prep this] r(2,3) show ?thesis by simp
qed

lemma me_step:
  assumes "sent ''GET'' ''/users/me'' [] (Some (token_of (users_now SY w0) u)) body rq"
    and "steady (wd_redis w)" and "valid_at w0 u (clock (wd_redis w))" and "\<not> revoked (wd_redis w) (token_of (users_now SY w0) u)"
    and "accounts rows n (wd_users w)" and "UserRow u \<in> set rows"
  shows "\<exists>resp w'. system_request SY rq w = (resp, w') \<and>
     ok_reply (api_json (sy_web SY) profile_dump (api_data (clock (wd_redis w)) (profile_of u))) resp \<and>
     next_world rows n w w' \<and> view (wd_redis w') = view (wd_redis w)"
proof -
  let ?v = "api_json (sy_web SY) profile_dump (api_data (clock (wd_redis w)) (profile_of u))"
  have "\<exists>w'. system_request SY rq w = (passed_on (json_response (sy_web SY) 200 ?v), w') \<and> quiet (wd_redis w) (wd_redis w') \<and>
      accounts rows n (wd_users w') \<and> wd_products w' = wd_products w \<and> wd_served w' = Suc (wd_served w)"
  proof (rule user_step [OF assms(1-4)])
    fix s req
    assume a: "quiet (wd_redis w) s" "rq_method req = ''GET''" "rq_path req = ''/users/me''"
      "header req ''authorization'' = Some (bearer (token_of (users_now SY w0) u))"
    have "\<not> revoked s (token_of (users_now SY w0) u)" using a(1) assms(4) by (simp add: quiet_def revoked_def)
    from me_run [OF assms(5,6) a(1) assms(3) this assms(2)] obtain s' d' where
      "me (users_now SY w) (Some (bearer (token_of (users_now SY w0) u))) \<lparr>ss_redis = s, ss_db = wd_users w\<rparr> =
        (Inr (api_data (clock (wd_redis w)) (profile_of u)), \<lparr>ss_redis = s', ss_db = d'\<rparr>)"
      "quiet (wd_redis w) s'" "accounts rows n d'" .
    then show "\<exists>s' d'. user_app (sy_web SY) (users_now SY w) req \<lparr>ss_redis = s, ss_db = wd_users w\<rparr> =
        (json_response (sy_web SY) 200 ?v, \<lparr>ss_redis = s', ss_db = d'\<rparr>) \<and> quiet (wd_redis w) s' \<and> accounts rows n d'"
      using a user_routes_of_session(3) by (simp add: user_app_def respond_dispatch_def send_def)
  qed simp
  then show ?thesis by (auto simp: next_world_def quiet_def)
qed

definition revocation :: "('r, 'du, 'dp, 'o) world \<Rightarrow> user \<Rightarrow> 'r \<Rightarrow> keyspace" where
  "revocation w0 u s =
     (view s)(us_blacklist_key (token_of (users_now SY w0) u) \<mapsto>
       (RStr ''1'', Some (clock s + blacklist_ttl (clock s) (token_expiry (users_now SY w0)) * second)))"

lemma logout_step:
  assumes "sent ''POST'' ''/auth/logout'' [] (Some (token_of (users_now SY w0) u)) body rq"
    and "steady (wd_redis w)" and "valid_at w0 u (clock (wd_redis w))" and "\<not> revoked (wd_redis w) (token_of (users_now SY w0) u)"
    and "accounts rows n (wd_users w)"
  shows "\<exists>resp w'. system_request SY rq w = (resp, w') \<and>
     ok_reply (api_json (sy_web SY) no_data (api_message (clock (wd_redis w)) ''signed out'')) resp \<and>
     next_world rows n w w' \<and> view (wd_redis w') = revocation w0 u (wd_redis w)"
proof -
  let ?v = "api_json (sy_web SY) no_data (api_message (clock (wd_redis w)) ''signed out'')" and ?E = "users_now SY w"
  let ?t = "token_of (users_now SY w0) u"
  have now: "ue_now ?E = clock (wd_redis w)" by (simp add: users_now_def clocks)
  have "\<exists>w'. system_request SY rq w = (passed_on (json_response (sy_web SY) 200 ?v), w') \<and>
      (steady (wd_redis w') \<and> clock (wd_redis w') = clock (wd_redis w) \<and> view (wd_redis w') = revocation w0 u (wd_redis w)) \<and>
      accounts rows n (wd_users w') \<and> wd_products w' = wd_products w \<and> wd_served w' = Suc (wd_served w)"
  proof (rule user_step [where good = "\<lambda>s. steady s \<and> clock s = clock (wd_redis w) \<and> view s = revocation w0 u (wd_redis w)", OF assms(1-4)])
    fix s req
    assume a: "quiet (wd_redis w) s" "rq_method req = ''POST''" "rq_path req = ''/auth/logout''"
      "header req ''authorization'' = Some (bearer ?t)"
    have "steady s" "\<not> revoked s ?t" using a(1) assms(4) by (simp_all add: quiet_def revoked_def)
    from user_claims [OF this(1) assms(3) this(2)] obtain s1 where
      c: "get_current_token_with_claims ?E (Some (bearer ?t)) s = (Inr (?t, claims_of (users_now SY w0) u), s1)" and q: "quiet s s1"
      by blast
    have q1: "steady s1" "clock s1 = clock (wd_redis w)" "view s1 = view (wd_redis w)"
      using quiet_trans [OF a(1) q] by (simp_all add: quiet_def)
    obtain s2 where b: "blacklist_token ?E ?t (token_expiry (users_now SY w0)) s1 = (Inr (), s2)" "steady s2" "clock s2 = clock s1"
      "view s2 = (view s1)(us_blacklist_key ?t \<mapsto> (RStr ''1'', Some (clock s1 + blacklist_ttl (ue_now ?E) (token_expiry (users_now SY w0)) * second)))"
      using user_redis.blacklist_token_run [OF later(2) q1(1)] by blast
    have "logout ?E ?t (claims_of (users_now SY w0) u) s1 = (Inr (), s2)"
      using b(1) by (simp add: logout_def revoke_token_def exp_timestamp_of_def claims_of_def access_token_claims_def dict_get_def bind_prog_def)
    then have "logout_endpoint ?E (Some (bearer ?t)) \<lparr>ss_redis = s, ss_db = wd_users w\<rparr> =
        (Inr (api_message (clock (wd_redis w)) ''signed out''), \<lparr>ss_redis = s2, ss_db = wd_users w\<rparr>)"
      using c by (simp add: logout_endpoint_def bind_prog_def with_redis_def now)
    then have "user_app (sy_web SY) ?E req \<lparr>ss_redis = s, ss_db = wd_users w\<rparr> =
        (json_response (sy_web SY) 200 ?v, \<lparr>ss_redis = s2, ss_db = wd_users w\<rparr>)"
      using a user_routes_of_session(2) by (simp add: user_app_def respond_dispatch_def send_def)
    moreover have "view s2 = revocation w0 u (wd_redis w)" using b(4) q1 by (simp add: revocation_def now)
    ultimately show "\<exists>s' d'. user_app (sy_web SY) ?E req \<lparr>ss_redis = s, ss_db = wd_users w\<rparr> =
        (json_response (sy_web SY) 200 ?v, \<lparr>ss_redis = s', ss_db = d'\<rparr>) \<and>
        (steady s' \<and> clock s' = clock (wd_redis w) \<and> view s' = revocation w0 u (wd_redis w)) \<and> accounts rows n d'"
      using b(2,3) q1(2) assms(5) by auto
  qed simp
  then show ?thesis by (auto simp: next_world_def)
qed

lemma revoked_step:
  assumes "sent ''GET'' ''/users/me'' [] (Some (token_of (users_now SY w0) u)) body rq"
    and "steady (wd_redis w)" and "valid_at w0 u (clock (wd_redis w))" and "revoked (wd_redis w) (token_of (users_now SY w0) u)"
    and "accounts rows n (wd_users w)"
  shows "\<exists>resp w'. system_request SY rq w = (resp, w') \<and> rs_status resp = 401 \<and>
     rs_content resp = wl_render (sy_web SY) (error_detail (PStr ''Access token has been revoked'')) \<and>
     next_world rows n w w' \<and> view (wd_redis w') = view (wd_redis w)"
proof -
  have p: "\<not> contains_str ''/api/admin/'' (''/api'' @ ''/users/me'')" by simp
  obtain s where prep: "gateway_prepare (gateway_now SY w) rq (wd_redis w) =
      (Inl (http_error 401 ''Access token has been revoked''), s)" and q: "quiet (wd_redis w) s"
    by (rule prepare_with_token [OF assms(1-3) p _ session_targets(1)]) (simp_all add: assms(4))
  have "''/users/me'' = ''/'' @ ''users/me''" "newline_char \<notin> set ''/users/me''" by simp_all
  from is_refused [OF assms(1) _ this prep] q assms(5) show ?thesis
    by (simp add: as_http_response_def json_response_def Let_def next_world_def quiet_def)
qed

end

context gateway_redis
begin

lemma gw_increment_clock:
  assumes "steady s"
  shows "clock (snd (gw_increment_rate_limit E k w s)) = clock s"
proof -
  obtain r s1 where b: "redis_incr_ttl (ge_redis E) k s = (r, s1)" by fastforce
  have s1: "steady s1" "clock s1 = clock s"
    using implements_up(3) [OF incr_ttl_law steady_up [OF assms], of k] implements_steady [OF incr_ttl_law assms, of k] b by simp_all
  have "clock (snd (redis_expire (ge_redis E) k w s1)) = clock s1"
    using implements_up(3) [OF expire_law steady_up [OF s1(1)], of k w] by simp
  then show ?thesis using s1(2) b
    by (auto simp: increment_defs split: sum.split prod.split)
qed

end

context shop
begin

lemma login_query:
  assumes "accounts rows n d" and "may_login (users_now SY w) rows name pw u"
  obtains d' where "get_db (ue_db (users_now SY w)) (login (users_now SY w) name pw) d =
      (Inr (login_response_for (users_now SY w) u), d')" and "accounts rows n d'"
proof -
  let ?E = "users_now SY w" and ?eq = "ue_text_eq (sy_user_service SY)"
  have eq: "ue_text_eq ?E = ?eq" by (simp add: users_now_def)
  have chk: "user_check (ue_text_eq ?E) rows = None" "equivp (ue_text_eq ?E)" using assms(1) text_eq by (simp_all add: accounts_def eq)
  have "u \<in> set (matching_user ?E name rows)"
    using assms(2) by (simp add: may_login_def matching_user_def users_of_set)
  then have "matching_user ?E name rows = [u]"
    using at_most_one [OF check_unique(1) [OF chk, of name]] by (auto simp del: set_filter)
  then have "login (on_table ?E (user_check ?eq) coerce) name pw (table_of rows n) = (Inr (login_response_for ?E u), table_of rows n)"
    using login_table [where t = "table_of rows n" and E = ?E and check = "user_check ?eq" and coerce = coerce and username = name and password = pw]
      check_unique(2) [OF chk] assms(2) by (simp add: may_login_def)
  from accounts_query [OF assms(1) user_session.sim_login [OF later(3)] this] show thesis using that by blast
qed

lemma login_prepared:
  assumes "sent ''POST'' ''/auth/login'' [] None body rq" and "steady (wd_redis w)"
    and "counter_ok (view (wd_redis w)) (login_rate_key rq)"
    and "counter_level (view (wd_redis w)) (login_rate_key rq) < gw_login_rate_limit_max_requests S"
    and "counter_level (view (wd_redis w)) (login_rate_key rq) < int64_max"
  obtains s where "gateway_prepare (gateway_now SY w) rq (wd_redis w) =
      (Inr \<lparr>up_method = ''POST'', up_url = gw_user_service_url S @ ''/auth/login'', up_content = body, up_params = [],
            up_headers = forwarded_headers rq None\<rparr>, s)"
    and "steady s" and "clock s = clock (wd_redis w)" and "counter_ok (view s) (login_rate_key rq)"
    and "counter_level (view s) (login_rate_key rq) = counter_level (view (wd_redis w)) (login_rate_key rq) + 1"
    and "\<And>k. k \<noteq> login_rate_key rq \<Longrightarrow> view s k = view (wd_redis w) k"
proof -
  let ?G = "gateway_now SY w" and ?k = "login_rate_key rq" and ?w = "gw_login_rate_limit_window_seconds S"
  obtain s where inc: "gw_increment_rate_limit ?G ?k ?w (wd_redis w) = (Some (counter_level (view (wd_redis w)) ?k + 1), s)"
    and c: "gateway_redis.counted view steady (wd_redis w) ?k s"
    using gateway_redis.gw_increment_steady [OF later(1) assms(2,3,5) login_window] by blast
  note c' = c [unfolded gateway_redis.counted_def [OF later(1)]]
  have f: "rq_method rq = ''POST''" "rq_path rq = ''/api/auth/login''" "rq_body rq = body" "rq_query rq = []"
      "header_get (rq_headers rq) ''authorization'' = None"
    using assms(1) by (simp_all add: sent_def header_get_def)
  have rate: "apply_rate_limit ?G rq None (wd_redis w) = (Inr (), s)"
    using inc assms(4) f(1,2) by (simp add: apply_rate_limit_def over_limit_def)
  have "enforce_role ''/api/auth/login'' None = Inr ()" "is_public_route rq"
    using f(2) by (simp_all add: enforce_role_def is_public_route_def)
  then have "gateway_prepare ?G rq (wd_redis w) =
      (Inr \<lparr>up_method = ''POST'', up_url = gw_user_service_url S @ ''/auth/login'', up_content = body, up_params = [],
            up_headers = forwarded_headers rq None\<rparr>, s)"
    using rate f session_targets(2)
    by (simp add: gateway_prepare_def bind_prog_def gw_get_optional_same gw_get_current_user_def upstream_request_of_def bind_res_def)
  moreover have "clock s = clock (wd_redis w)"
    using gateway_redis.gw_increment_clock [OF later(1) assms(2), where k = ?k and w = ?w] inc by (metis snd_conv)
  ultimately show thesis using that c' by blast
qed

lemma login_step:
  assumes "sent ''POST'' ''/auth/login'' [] None body rq" and "steady (wd_redis w)"
    and "counter_ok (view (wd_redis w)) (login_rate_key rq)"
    and "counter_level (view (wd_redis w)) (login_rate_key rq) < gw_login_rate_limit_max_requests S"
    and "counter_level (view (wd_redis w)) (login_rate_key rq) < int64_max"
    and "is_ascii body" and "json_loads body = Some (credentials name pw)"
    and "length_between 3 50 name" and "length_between 6 50 pw"
    and "accounts rows n (wd_users w)" and "may_login (users_now SY w) rows name pw u"
  shows "\<exists>resp w'. system_request SY rq w = (resp, w') \<and>
     ok_reply (api_json (sy_web SY) login_dump (api_data (clock (wd_redis w)) (login_response_for (users_now SY w) u))) resp \<and>
     next_world rows n w w' \<and> counter_ok (view (wd_redis w')) (login_rate_key rq) \<and>
     counter_level (view (wd_redis w')) (login_rate_key rq) = counter_level (view (wd_redis w)) (login_rate_key rq) + 1 \<and>
     (\<forall>k. k \<noteq> login_rate_key rq \<longrightarrow> view (wd_redis w') k = view (wd_redis w) k)"
proof -
  let ?E = "users_now SY w" and ?W = "sy_web SY"
  let ?v = "api_json ?W login_dump (api_data (clock (wd_redis w)) (login_response_for ?E u))"
  let ?req = "\<lparr>up_method = ''POST'', up_url = gw_user_service_url S @ ''/auth/login'', up_content = body, up_params = [],
            up_headers = forwarded_headers rq None\<rparr>"
  obtain s where prep: "gateway_prepare (gateway_now SY w) rq (wd_redis w) = (Inr ?req, s)"
    and st: "steady s" "clock s = clock (wd_redis w)" "counter_ok (view s) (login_rate_key rq)"
      "counter_level (view s) (login_rate_key rq) = counter_level (view (wd_redis w)) (login_rate_key rq) + 1"
      "\<And>k. k \<noteq> login_rate_key rq \<Longrightarrow> view s k = view (wd_redis w) k"
    by (rule login_prepared [OF assms(1-5)]) blast
  obtain d' where d: "get_db (ue_db ?E) (login ?E name pw) (wd_users w) = (Inr (login_response_for ?E u), d')" "accounts rows n d'"
    by (rule login_query [OF assms(10,11)])
  have now: "ue_now ?E = clock (wd_redis w)" by (simp add: users_now_def clocks)
  let ?rq = "delivered ''/auth/login'' ?req" and ?st = "\<lparr>ss_redis = s, ss_db = wd_users w\<rparr>"
  have "header_get (forwarded_headers rq None) ''content-type'' = Some ''application/json''"
    using delivered_headers(2) [OF assms(1)] by (simp add: header_get_def)
  then have b: "wl_body ?W (rq_headers ?rq) (rq_body ?rq) = Inr (Some (credentials name pw))"
    using W.body_law assms(6,7) by (simp add: delivered_def)
  have p: "body_fields (login_request_of (wl_pydantic ?W)) (Some (credentials name pw)) = Some \<lparr>lr_username = name, lr_password = pw\<rparr>"
    by (simp add: body_fields_def credentials_def login_request_of_def field_def dict_get_def W.json_str bind_res_def result_option_def)
  have e: "login_endpoint ?E \<lparr>lr_username = name, lr_password = pw\<rparr> ?st =
      (Inr (api_data (clock (wd_redis w)) (login_response_for ?E u)), \<lparr>ss_redis = s, ss_db = d'\<rparr>)"
    using d(1) assms(8,9) now
    by (simp add: login_endpoint_def login_request_ok_def ensure_def bind_prog_def respond_def with_db_def)
  have "user_app ?W ?E ?rq ?st = (json_response ?W 200 ?v, \<lparr>ss_redis = s, ss_db = d'\<rparr>)"
    using user_routes_of_session(1) b p e
    by (simp add: user_app_def respond_dispatch_def send_def with_body_def with_params_def delivered_def)
  then have "upstream SY ?req (w\<lparr>wd_redis := s\<rparr>) = (Upstream (json_response ?W 200 ?v), w\<lparr>wd_redis := s, wd_users := d'\<rparr>)"
    using user_upstream [OF _ _ session_paths(6,2), of ?req] st(2) by (simp add: on_users_def users_now_quiet)
  from passes [OF assms(1) _ _ _ prep this] have "system_request SY rq w =
      (passed_on (json_response ?W 200 ?v), w\<lparr>wd_redis := s, wd_users := d', wd_served := Suc (wd_served w)\<rparr>)" by simp
  then show ?thesis using st d(2) by (simp add: next_world_def)
qed

end

section \<open>The product list\<close>

context catalog_service
begin

definition first_page :: "product list \<Rightarrow> product_page_response" where
  "first_page rows =
     \<lparr>pg_items = take 2 (rev (sort_key p_id (filter (product_where E None False) rows))), pg_page = 1, pg_size = 2,
      pg_total = int (length (filter (product_where E None False) rows))\<rparr>"

lemma list_run:
  assumes "agree (Suc k) rows n st"
  obtains st' where "list_products E 1 2 None False role st = (Inr (api_data (pe_now E) (first_page rows)), st')"
proof -
  let ?m = "get_db (pe_db E) (bind_prog (paginate_products E 1 2 None False)
      (\<lambda>(tot, items). return_prog \<lparr>pg_items = items, pg_page = 1, pg_size = 2, pg_total = tot\<rparr>))"
  have h: "holds rows n st" and ok: "product_table_ok (pe_text_eq E) rows" using assms by (simp_all add: agree_def holds_def)
  have pg: "page_of 1 2 None False rows = Inr (first_page rows)"
    by (simp add: page_of_def page_bound_def first_page_def page_slice_def)
  have "reads ?m rows n (page_of 1 2 None False rows)" by (rule reads_get_db [OF reads_page [OF ok]])
  then obtain d' where "?m (ss_db st) = (Inr (first_page rows), d')"
    using h unfolding reads_def pg holds_def by blast
  then have u: "fst (list_products (uncached E) 1 2 None False role st) = Inr (api_data (pe_now E) (first_page rows))"
    by (simp add: list_products_def ensure_def bind_prog_def answer_def read_through_def make_product_list_cache_key_def
        with_redis_def with_db_def uncached_ops) (simp add: uncached_def)
  have "page_number_ok 1" using int_str_one by (simp add: page_number_ok_def)
  from follows_list [OF this, unfolded follows_def, rule_format, OF assms h] obtain r st' st0'
    where "list_products E 1 2 None False role st = (r, st')" "list_products (uncached E) 1 2 None False role st = (r, st0')"
    by blast
  with u show thesis using that by simp
qed

lemma first_page_ok:
  assumes "product_table_ok (pe_text_eq E) rows"
  shows "json_ok (page_dump (first_page rows))"
proof -
  have one: "page_number_ok 1" "page_number_ok 2" using int_str_length [of 1 2] int_str_length [of 2 2] by (simp_all add: page_number_ok_def)
  have "\<forall>p \<in> set (pg_items (first_page rows)). stored p"
    using page_items_stored [OF assms, of _ 0 2 "product_where E None False"] by (auto simp: first_page_def page_slice_def)
  with one table_length [OF assms] show ?thesis
    by (intro page_dump_ok) (simp_all add: first_page_def)
qed

end

lemma coherent_later: "coherent (E\<lparr>pe_now := t\<rparr>) = coherent E"
proof -
  have "product_where (E\<lparr>pe_now := t\<rparr>) = product_where E"
    by (simp add: fun_eq_iff product_where_def split: option.split)
  then have "query_doc (E\<lparr>pe_now := t\<rparr>) rows q = query_doc E rows q" for rows q
    by (cases q) simp_all
  then show ?thesis by (simp add: coherent_def [abs_def])
qed

lemma int_str_two: "int_str 2 = ''2''"
  by code_simp

context shop
begin

abbreviation page_for :: "product list \<Rightarrow> product_page_response" where
  "page_for \<equiv> P.first_page"

lemma list_step:
  assumes "sent ''GET'' ''/products'' [(''page'', ''1''), (''size'', ''2'')] (Some (token_of (users_now SY w0) u)) body rq"
    and "steady (wd_redis w)" and "valid_at w0 u (clock (wd_redis w))" and "\<not> revoked (wd_redis w) (token_of (users_now SY w0) u)"
    and "P.agree 1 rows n \<lparr>ss_redis = wd_redis w, ss_db = wd_products w\<rparr>"
  shows "\<exists>resp w'. system_request SY rq w = (resp, w') \<and>
     ok_reply (api_json (sy_web SY) page_dump (api_data (clock (wd_redis w)) (page_for rows))) resp"
proof -
  let ?E = "products_now SY w" and ?W = "sy_web SY"
  let ?v = "api_json ?W page_dump (api_data (clock (wd_redis w)) (page_for rows))"
  let ?req = "\<lparr>up_method = ''GET'', up_url = gw_product_service_url S @ ''/products'', up_content = body,
            up_params = [(''page'', ''1''), (''size'', ''2'')], up_headers = forwarded_headers rq (Some (identity_of u))\<rparr>"
  have p: "\<not> contains_str ''/api/admin/'' (''/api'' @ ''/products'')" by simp
  obtain s where prep: "gateway_prepare (gateway_now SY w) rq (wd_redis w) = (Inr ?req, s)" and q: "quiet (wd_redis w) s"
    by (rule prepare_with_token [OF assms(1-3) p _ session_targets(4)]) (simp_all add: assms(4))
  let ?rq = "delivered ''/products'' ?req" and ?st = "\<lparr>ss_redis = s, ss_db = wd_products w\<rparr>"
  have "P.agree 1 rows n ?st" using assms(5) q by (simp add: P.agree_def quiet_def)
  then have a: "catalog_service.agree ?E view steady pview psteady (Suc 0) rows n ?st"
    unfolding P.agree_def catalog_service.agree_def [OF later(4)] by (simp add: products_now_def coherent_later)
  have "ss_redis ?st = s" by simp
  obtain st' where l: "list_products ?E 1 2 None False (header ?rq ''x-user-role'') ?st =
      (Inr (api_data (pe_now ?E) (catalog_service.first_page ?E rows)), st')"
    by (rule catalog_service.list_run [OF later(4) a])
  have e: "pe_now ?E = clock (wd_redis w)" "catalog_service.first_page ?E rows = page_for rows"
    by (simp_all add: products_now_def clocks catalog_service.first_page_def [OF catalog_service_later [OF P.catalog_service_axioms]]
        P.first_page_def product_where_def [abs_def])
  have ints: "wl_int ?W ''1'' = Some 1" "wl_int ?W ''2'' = Some 2"
    using W.int_law [of 1] W.int_law [of 2] by (simp_all add: int_str_one int_str_two)
  have "dispatch ?W product_app_routes ''GET'' ''/products'' = Routed (Own P_list) []"
    by (rule W.dispatch_found) (simp_all add: product_compiled is_param_def)
  then have "product_app (sy_import_errors SY) (sy_wide SY) ?W ?E ?rq ?st = (json_response ?W 200 ?v, st')"
    using l e ints by (simp add: product_app_def respond_dispatch_def send_def with_params_def pair_option_def query_value_def delivered_def)
  moreover have "products_now SY (w\<lparr>wd_redis := s\<rparr>) = ?E" using q by (simp add: products_now_def clocks quiet_def)
  ultimately have "upstream SY ?req (w\<lparr>wd_redis := s\<rparr>) =
      (Upstream (json_response ?W 200 ?v), w\<lparr>wd_redis := ss_redis st', wd_products := ss_db st'\<rparr>)"
    using product_upstream [OF _ _ session_paths(8,4), of ?req] by (simp add: on_products_def)
  from passes [OF assms(1) _ _ _ prep this] show ?thesis by simp
qed

end

end
