(* ===== verification/Session_Calls.thy ===== *)
theory Session_Calls
  imports Session_Steps
begin

text \<open>
  The requests of \<^verbatim>\<open>smoke-test-phase2.py\<close> as its HTTP client sends them, one lemma each: what the
  script reads in the response, and how the world goes on (time, expired keys, the counter of
  sign-ins, revoked tokens).
\<close>

section \<open>The requests of the client\<close>

text \<open>
  \<^verbatim>\<open>urllib.request\<close> adds no other headers than these, and reads a JSON response as its text.
\<close>

definition client_ok :: "web_lib \<Rightarrow> url_client \<Rightarrow> bool" where
  "client_ok W N \<longleftrightarrow>
     (\<forall>req. distinct (map (\<lambda>kv. lower_str (fst kv)) (uc_headers N req)) \<and>
        (\<forall>kv \<in> set (uc_headers N req).
           lower_str (fst kv) \<in> {''host'', ''user-agent'', ''accept-encoding'', ''connection'', ''content-length''})) \<and>
     (\<forall>v. json_ok v \<longrightarrow> uc_decode N (wl_render W v) = Inr (wl_render W v)) \<and>
     (\<forall>i. 0 \<le> uc_gap N i)"

definition token_value :: "string option \<Rightarrow> pyval" where
  "token_value token = (case token of None \<Rightarrow> PNone | Some t \<Rightarrow> PStr t)"

lemma bearer_headers:
  assumes "token \<noteq> Some []"
  shows "map (\<lambda>(k, v). (lower_str k, v)) (hr_headers (bearer_request url m data (token_value token))) =
     (''content-type'', ''application/json'') # (case token of None \<Rightarrow> [] | Some t \<Rightarrow> [(''authorization'', bearer t)])"
proof -
  have "capitalize ''Content-Type'' = ''Content-type''" "capitalize ''Authorization'' = ''Authorization''"
    "lower_str ''Content-type'' = ''content-type''" "lower_str ''Authorization'' = ''authorization''" by code_simp+
  then show ?thesis using assms
    by (auto simp: bearer_request_def add_header_def token_value_def bearer_def Let_def Py_Time.py_str_def split: option.split)
qed

lemma request_sent:
  assumes "web_framework W" and "client_ok W N" and "list_all plain_char (''/api'' @ path)" and "plain_pairs query" and "token \<noteq> Some []"
  shows "sent m path query token (case dumps_data data of None \<Rightarrow> [] | Some d \<Rightarrow> d)
     (request_of W N (bearer_request url m data (token_value token)) (request_target (''/api'' @ path) query))"
proof -
  let ?req = "bearer_request url m data (token_value token)"
  let ?own = "map (\<lambda>(k, v). (lower_str k, v)) (uc_headers N ?req)"
  let ?given = "(''content-type'', ''application/json'') # (case token of None \<Rightarrow> [] | Some t \<Rightarrow> [(''authorization'', bearer t)])"
  have o: "map fst ?own = map (\<lambda>kv. lower_str (fst kv)) (uc_headers N ?req)" by auto
  have own: "distinct (map fst ?own)"
    "set (map fst ?own) \<subseteq> {''host'', ''user-agent'', ''accept-encoding'', ''connection'', ''content-length''}"
    unfolding o using assms(2) unfolding client_ok_def by auto
  have given: "distinct (map fst ?given)" "set (map fst ?given) \<subseteq> {''content-type'', ''authorization''}"
    by (cases token; simp)+
  have "set (map fst ?own) \<inter> set (map fst ?given) = {}" using own(2) given(2) by auto
  then have d: "distinct (map fst (?own @ ?given))" using own(1) given(1) unfolding map_append distinct_append by blast
  have look: "map_of (?own @ ?given) k = map_of ?given k" if "k \<in> {''authorization'', ''content-type'', ''origin''}" for k
  proof -
    have "k \<notin> set (map fst ?own)" using that own(2) by auto
    then have "map_of ?own k = None" unfolding map_of_eq_None_iff set_map .
    then show ?thesis by (simp add: map_add_def)
  qed
  let ?rq = "request_of W N ?req (request_target (''/api'' @ path) query)"
  have hs: "rq_headers ?rq = ?own @ ?given"
    unfolding request_of_def web_framework.target_law [OF assms(1,3,4)] using bearer_headers [OF assms(5)] by simp
  have f: "rq_method ?rq = m" "rq_path ?rq = ''/api'' @ path" "rq_query ?rq = query"
    "rq_body ?rq = (case dumps_data data of None \<Rightarrow> [] | Some d \<Rightarrow> d)"
    unfolding request_of_def web_framework.target_law [OF assms(1,3,4)] by (simp_all add: bearer_request_def Let_def)
  show ?thesis
    unfolding sent_def f hs using d look by (simp split: option.split)
qed

lemma request_client [simp]: "rq_client (request_of W N req target) = uc_address N"
  by (simp add: request_of_def split: prod.split)

section \<open>One call of the test\<close>

definition tick :: "(int \<Rightarrow> 'r \<Rightarrow> 'r) \<Rightarrow> url_client \<Rightarrow> ('r, 'du, 'dp, 'o) world \<Rightarrow> ('r, 'du, 'dp, 'o) world" where
  "tick elapse N w = w\<lparr>wd_redis := elapse (uc_gap N (wd_served w)) (wd_redis w)\<rparr>"

lemma tick_simps [simp]:
  "wd_users (tick elapse N w) = wd_users w" "wd_products (tick elapse N w) = wd_products w"
  "wd_served (tick elapse N w) = wd_served w" "wd_redis (tick elapse N w) = elapse (uc_gap N (wd_served w)) (wd_redis w)"
  by (simp_all add: tick_def)

lemma phase2_asked:
  assumes "se_urlopen X = open_url SY elapse N" and "phase2_base_url X = uc_base N" and "target = ''/'' @ rest"
    and "web_framework (sy_web SY)" and "client_ok (sy_web SY) N"
    and "system_request SY (request_of (sy_web SY) N (bearer_request (uc_base N @ target) m data tok) target) (tick elapse N (sk_world s)) = (resp, w')"
    and "rs_status resp = st" and "st \<in> {200, 401}" and "rs_content resp = wl_render (sy_web SY) v" and "json_ok v"
  shows "\<exists>s'. phase2_request X m target data tok st s = (Inr (st, v), s') \<and> sk_world s' = w'"
proof -
  let ?req = "bearer_request (uc_base N @ target) m data tok"
  have "hr_url ?req = uc_base N @ target" by (simp add: bearer_request_def Let_def)
  moreover have "startswith (uc_base N @ target) (uc_base N @ ''/'')"
    using assms(3) startswith_append [of "uc_base N @ ''/''" rest] by simp
  ultimately have o: "open_url SY elapse N ?req (sk_world s) = (reply_of N ?req resp, w')"
    using assms(6) by (simp add: open_url_def path_under_def tick_def)
  have l: "json_loads (wl_render (sy_web SY) v) = Some v" "uc_decode N (wl_render (sy_web SY) v) = Inr (wl_render (sy_web SY) v)"
    using web_framework.render_law [OF assms(4,10)] assms(5,10) by (simp_all add: client_ok_def)
  have "phase2_request X m target data tok st s =
      (Inr (st, v), s\<lparr>sk_calls := sk_calls s @ [Sent ?req (reply_of N ?req resp)], sk_world := w'\<rparr>)"
    using o l assms(1,2,7-9)
    by (auto simp: phase2_request_def urlopen_def bind_prog_def reply_of_def loads_def loads_or_raw_def read_json_def bind_res_def Let_def)
  then show ?thesis by simp
qed

section \<open>What a session relies on\<close>

lemma counter_purge:
  assumes "counter_ok ks k"
  shows "counter_ok (purge t ks) k" and "counter_level (purge t ks) k \<le> counter_level ks k"
proof -
  have "purge t ks k \<in> {None, ks k}" by (simp add: purge_def split: option.split prod.split)
  then show "counter_ok (purge t ks) k" "counter_level (purge t ks) k \<le> counter_level ks k"
    using assms counter_level_nonneg [OF assms] by (auto simp: counter_ok_def counter_level_def)
qed

lemma query_key_start: "startswith (query_key v q) ''product-service:''"
  by (cases q) (simp_all add: detail_cache_key_def list_cache_key_def)

lemma coherent_frame:
  assumes "coherent E ks rows" and "\<And>k. startswith k ''product-service:'' \<Longrightarrow> ks' k = ks k"
  shows "coherent E ks' rows" and "catalog_version ks' = catalog_version ks"
proof -
  have c: "ks' CATALOG_VERSION_KEY = ks CATALOG_VERSION_KEY" by (rule assms(2)) (simp add: CATALOG_VERSION_KEY_def)
  then show v: "catalog_version ks' = catalog_version ks"
    by (simp add: catalog_version_def counter_level_def)
  have "version_ok ks'" using assms(1) c by (simp add: coherent_def version_ok_def counter_ok_def)
  then show "coherent E ks' rows"
    using assms(1) assms(2) [OF query_key_start] unfolding coherent_def v by simp
qed

text \<open>The key under which the gateway counts the sign-ins from the client's address.\<close>

definition login_key :: "url_client \<Rightarrow> string" where
  "login_key N = ''gateway:ratelimit:login:'' @ (case uc_address N of None \<Rightarrow> ''unknown'' | Some h \<Rightarrow> h)"

lemma login_key_of: "rq_client rq = uc_address N \<Longrightarrow> login_rate_key rq = login_key N"
  by (simp add: login_rate_key_def client_host_def login_key_def)

context shop
begin

definition in_service :: "url_client \<Rightarrow> user_entity list \<Rightarrow> int \<Rightarrow> product list \<Rightarrow> int \<Rightarrow> ('r, 'du, 'dp, 'o) world \<Rightarrow> bool" where
  "in_service N rows n prows pn w \<longleftrightarrow>
     steady (wd_redis w) \<and> accounts rows n (wd_users w) \<and> P.agree 1 prows pn \<lparr>ss_redis = wd_redis w, ss_db = wd_products w\<rparr> \<and>
     counter_ok (view (wd_redis w)) (login_key N)"

lemma tick_in_service:
  assumes "in_service N rows n prows pn w" and "0 \<le> uc_gap N (wd_served w)"
  shows "in_service N rows n prows pn (tick elapse N w)"
    and "clock (wd_redis (tick elapse N w)) = clock (wd_redis w) + uc_gap N (wd_served w)"
    and "view (wd_redis (tick elapse N w)) = purge (clock (wd_redis w) + uc_gap N (wd_served w)) (view (wd_redis w))"
    and "counter_level (view (wd_redis (tick elapse N w))) (login_key N) \<le> counter_level (view (wd_redis w)) (login_key N)"
proof -
  note v = G.elapse_view [OF assms(2), of "wd_redis w"]
  show "clock (wd_redis (tick elapse N w)) = clock (wd_redis w) + uc_gap N (wd_served w)" by (simp add: G.elapse_clock)
  show "view (wd_redis (tick elapse N w)) = purge (clock (wd_redis w) + uc_gap N (wd_served w)) (view (wd_redis w))" by (simp add: v)
  show "counter_level (view (wd_redis (tick elapse N w))) (login_key N) \<le> counter_level (view (wd_redis w)) (login_key N)"
    using counter_purge(2) assms(1) by (simp add: v in_service_def)
  show "in_service N rows n prows pn (tick elapse N w)"
    using assms(1) coherent_purge [of "sy_product_service SY" "view (wd_redis w)" prows] counter_purge(1) G.elapse_steady
    by (simp add: in_service_def P.agree_def v)
qed

lemma in_service_frame:
  assumes "in_service N rows n prows pn w" and "next_world rows n w w'"
    and "\<And>k. startswith k ''product-service:'' \<Longrightarrow> view (wd_redis w') k = view (wd_redis w) k"
    and "counter_ok (view (wd_redis w')) (login_key N)"
  shows "in_service N rows n prows pn w'"
  using assms coherent_frame [of "sy_product_service SY" "view (wd_redis w)" prows "view (wd_redis w')"]
  by (simp add: in_service_def next_world_def P.agree_def)

lemma keys_apart:
  "\<not> startswith (login_key N) ''product-service:''" "\<not> startswith (us_blacklist_key t) ''product-service:''"
  "login_key N \<noteq> us_blacklist_key t" "us_blacklist_key t \<noteq> login_key N"
  by (simp_all add: login_key_def us_blacklist_key_def)

end

section \<open>The calls of a session\<close>

lemma api_json_ok: "json_ok (dump x) \<Longrightarrow> json_ok (api_json W dump (api_data t x))"
  using json_int_ok [of 0] by (simp add: api_json_def api_data_def json_opt_def)

lemma message_json_ok: "json_ok (api_json W dump (api_message t m))"
  using json_int_ok [of 0] by (simp add: api_json_def api_message_def json_opt_def)

lemma profile_json_ok: "\<bar>u_id u\<bar> \<le> int64_max \<Longrightarrow> json_ok (profile_dump (profile_of u))"
  using json_int_ok [of "u_id u"] by (simp add: profile_dump_def profile_of_def json_opt_def split: option.split)

lemma login_json_ok:
  "\<bar>u_id u\<bar> \<le> int64_max \<Longrightarrow> \<bar>us_jwt_expire_minutes (ue_settings E) * 60\<bar> \<le> int64_max \<Longrightarrow> json_ok (login_dump (login_response_for E u))"
  using json_int_ok [of "u_id u"] json_int_ok [of "us_jwt_expire_minutes (ue_settings E) * 60"]
  by (simp add: login_dump_def login_response_for_def)

lemma john_body:
  "dumps_data (credentials ''john_smith'' ''User@123'') = Some (json_text (credentials ''john_smith'' ''User@123''))"
  "json_loads (json_text (credentials ''john_smith'' ''User@123'')) = Some (credentials ''john_smith'' ''User@123'')"
  "is_ascii (json_text (credentials ''john_smith'' ''User@123''))"
proof -
  have ok: "json_ok (credentials ''john_smith'' ''User@123'')" by (simp add: credentials_def)
  then show "dumps_data (credentials ''john_smith'' ''User@123'') = Some (json_text (credentials ''john_smith'' ''User@123''))"
    by (simp add: dumps_data_def dumps_text_json credentials_def)
  show "json_loads (json_text (credentials ''john_smith'' ''User@123'')) = Some (credentials ''john_smith'' ''User@123'')"
    by (rule json_loads_dumps) (use ok in \<open>simp add: json_dumps_def\<close>)
  show "is_ascii (json_text (credentials ''john_smith'' ''User@123''))" by code_simp
qed

lemma may_login_later [simp]: "may_login (users_now SY w) = may_login (sy_user_service SY)"
  by (simp add: fun_eq_iff may_login_def verify_password_def policy_enabled_def policy_rows_def users_now_def)

lemma request_target_plain [simp]: "request_target path [] = path"
  by (simp add: request_target_def)

lemma john_lengths: "length_between 3 50 ''john_smith''" "length_between 6 50 ''User@123''"
  by (simp_all add: length_between_def)

lemma session_urls:
  "list_all plain_char (''/api'' @ ''/users/me'')" "list_all plain_char (''/api'' @ ''/auth/login'')"
  "list_all plain_char (''/api'' @ ''/auth/logout'')" "list_all plain_char (''/api'' @ ''/products'')"
  "plain_pairs []" "plain_pairs [(''page'', ''1''), (''size'', ''2'')]"
  by (simp_all add: plain_char_def plain_pairs_def)

context shop
begin

text \<open>The world after one call, which comes after a pause: time has passed, and keys have expired.\<close>

definition called :: "url_client \<Rightarrow> user_entity list \<Rightarrow> int \<Rightarrow> product list \<Rightarrow> int \<Rightarrow> int \<Rightarrow> ('r, 'du, 'dp, 'o) world \<Rightarrow> ('r, 'du, 'dp, 'o) world \<Rightarrow> bool" where
  "called N rows n prows pn logins w w' \<longleftrightarrow>
     in_service N rows n prows pn w' \<and> wd_served w' = Suc (wd_served w) \<and>
     clock (wd_redis w') = clock (wd_redis w) + uc_gap N (wd_served w) \<and>
     counter_level (view (wd_redis w')) (login_key N) \<le> counter_level (view (wd_redis w)) (login_key N) + logins"

definition unrevoked :: "('r, 'du, 'dp, 'o) world \<Rightarrow> string \<Rightarrow> bool" where
  "unrevoked w token \<longleftrightarrow> view (wd_redis w) (us_blacklist_key token) = None"

lemma unrevoked_not: "unrevoked w token \<Longrightarrow> \<not> revoked (wd_redis w) token"
  by (simp add: unrevoked_def revoked_def)

lemma unrevoked_tick:
  assumes "in_service N rows n prows pn w" and "0 \<le> uc_gap N (wd_served w)" and "unrevoked w token"
  shows "unrevoked (tick elapse N w) token"
  using tick_in_service(3) [OF assms(1,2)] assms(3) by (simp add: unrevoked_def purge_def)

lemma login_call:
  assumes "se_urlopen X = open_url SY elapse N" and "phase2_base_url X = uc_base N" and "client_ok (sy_web SY) N"
    and "in_service N rows n prows pn (sk_world s)" and "may_login (sy_user_service SY) rows ''john_smith'' ''User@123'' u"
    and "counter_level (view (wd_redis (sk_world s))) (login_key N) < gw_login_rate_limit_max_requests S"
    and "counter_level (view (wd_redis (sk_world s))) (login_key N) < int64_max"
    and "\<bar>u_id u\<bar> \<le> int64_max" and "\<bar>us_jwt_expire_minutes (ue_settings (sy_user_service SY)) * 60\<bar> \<le> int64_max"
  shows "\<exists>s'. phase2_login X ''john_smith'' ''User@123'' s =
      (Inr (login_dump (login_response_for (users_now SY (tick elapse N (sk_world s))) u)), s') \<and>
    called N rows n prows pn 1 (sk_world s) (sk_world s') \<and> (\<forall>t. unrevoked (sk_world s) t \<longrightarrow> unrevoked (sk_world s') t) \<and>
    (\<forall>t. view (wd_redis (sk_world s')) (us_blacklist_key t) =
       purge (clock (wd_redis (sk_world s'))) (view (wd_redis (sk_world s))) (us_blacklist_key t))"
proof -
  let ?w = "sk_world s" and ?data = "credentials ''john_smith'' ''User@123''"
  let ?t = "tick elapse N ?w" and ?url = "uc_base N @ ''/api'' @ ''/auth/login''"
  let ?rq = "request_of (sy_web SY) N (bearer_request ?url ''POST'' ?data (token_value None)) (request_target (''/api'' @ ''/auth/login'') [])"
  have gap: "0 \<le> uc_gap N (wd_served ?w)" using assms(3) by (simp add: client_ok_def)
  note tk = tick_in_service [OF assms(4) gap]
  have sent: "sent ''POST'' ''/auth/login'' [] None (json_text ?data) ?rq"
    using request_sent [OF W.web_framework_axioms assms(3) session_urls(2,5), where m = "''POST''" and token = None and data = ?data and url = ?url]
    by (simp add: john_body(1))
  have key: "login_rate_key ?rq = login_key N" by (rule login_key_of) simp
  have t: "steady (wd_redis ?t)" "counter_ok (view (wd_redis ?t)) (login_key N)" "accounts rows n (wd_users ?t)"
    using tk(1) by (simp_all add: in_service_def)
  have lv: "counter_level (view (wd_redis ?t)) (login_key N) < gw_login_rate_limit_max_requests S"
    "counter_level (view (wd_redis ?t)) (login_key N) < int64_max" using tk(4) assms(6,7) by simp_all
  have "may_login (users_now SY ?t) rows ''john_smith'' ''User@123'' u" using assms(5) by simp
  from login_step [OF sent t(1) t(2) [folded key] lv [folded key] john_body(3,2) john_lengths t(3) this]
  obtain resp w' where r: "system_request SY ?rq ?t = (resp, w')"
    "ok_reply (api_json (sy_web SY) login_dump (api_data (clock (wd_redis ?t)) (login_response_for (users_now SY ?t) u))) resp"
    "next_world rows n ?t w'" "counter_ok (view (wd_redis w')) (login_key N)"
    "counter_level (view (wd_redis w')) (login_key N) = counter_level (view (wd_redis ?t)) (login_key N) + 1"
    "\<And>k. k \<noteq> login_key N \<Longrightarrow> view (wd_redis w') k = view (wd_redis ?t) k"
    unfolding key by blast
  let ?v = "api_json (sy_web SY) login_dump (api_data (clock (wd_redis ?t)) (login_response_for (users_now SY ?t) u))"
  have "json_ok ?v"
    using assms(8,9) by (intro api_json_ok login_json_ok) (simp_all add: users_now_def)
  moreover have "system_request SY (request_of (sy_web SY) N (bearer_request (uc_base N @ ''/api/auth/login'') ''POST'' ?data PNone) ''/api/auth/login'') ?t = (resp, w')"
    using r(1) by (simp add: token_value_def)
  ultimately obtain s' where a: "phase2_request X ''POST'' ''/api/auth/login'' ?data PNone 200 s = (Inr (200, ?v), s')" "sk_world s' = w'"
    using phase2_asked [OF assms(1,2) _ W.web_framework_axioms assms(3), of "''/api/auth/login''" "''api/auth/login''" "''POST''" ?data PNone s resp w' 200 ?v]
      r(2) by (auto simp: ok_reply_def)
  have "phase2_login X ''john_smith'' ''User@123'' s = (Inr (login_dump (login_response_for (users_now SY ?t) u)), s')"
    using a(1) by (simp add: phase2_login_def bind_prog_def api_json_def api_data_def json_opt_def)
  moreover have "in_service N rows n prows pn w'"
    by (rule in_service_frame [OF tk(1) r(3) _ r(4)]) (use r(6) keys_apart(1) in metis)
  then have "called N rows n prows pn 1 ?w w'"
    using r(3,5) tk(2,4) by (simp add: called_def next_world_def)
  moreover have "view (wd_redis w') (us_blacklist_key t) = purge (clock (wd_redis w')) (view (wd_redis ?w)) (us_blacklist_key t)" for t
    using r(3,6) tk(2,3) keys_apart(4) by (simp add: next_world_def)
  moreover from this have "unrevoked ?w t \<Longrightarrow> unrevoked w' t" for t
    by (simp add: unrevoked_def purge_def)
  ultimately show ?thesis using a(2) by blast
qed

lemma token_call:
  assumes "se_urlopen X = open_url SY elapse N" and "phase2_base_url X = uc_base N" and "client_ok (sy_web SY) N"
    and "list_all plain_char (''/api'' @ path)" and "plain_pairs query" and "token \<noteq> []" and "st \<in> {200, 401}" and "json_ok v"
    and "target = request_target (''/api'' @ path) query" and "body = (case dumps_data data of None \<Rightarrow> [] | Some d \<Rightarrow> d)"
    and step: "\<And>rq. sent m path query (Some token) body rq \<Longrightarrow>
      \<exists>resp w'. system_request SY rq (tick elapse N (sk_world s)) = (resp, w') \<and> rs_status resp = st \<and>
        rs_content resp = wl_render (sy_web SY) v \<and> Q w'"
  shows "\<exists>s'. phase2_request X m target data (PStr token) st s = (Inr (st, v), s') \<and> Q (sk_world s')"
proof -
  let ?rq = "request_of (sy_web SY) N (bearer_request (uc_base N @ target) m data (token_value (Some token))) target"
  have "sent m path query (Some token) body ?rq"
    unfolding assms(9,10) by (rule request_sent [OF W.web_framework_axioms assms(3-5)]) (simp add: assms(6))
  from step [OF this] obtain resp w' where r: "system_request SY ?rq (tick elapse N (sk_world s)) = (resp, w')" "rs_status resp = st"
    "rs_content resp = wl_render (sy_web SY) v" "Q w'" by blast
  have tg: "target = ''/'' @ (''api'' @ path @ (if query = [] then [] else CHR ''?'' # query_text query))"
    by (simp add: assms(9) request_target_def)
  from phase2_asked [OF assms(1,2) tg W.web_framework_axioms assms(3) _ r(2) assms(7) r(3) assms(8)] r(1,4) show ?thesis
    by (fastforce simp: token_value_def)
qed

lemma frame_called:
  assumes "in_service N rows n prows pn w" and "0 \<le> uc_gap N (wd_served w)" and "next_world rows n (tick elapse N w) w'"
    and "\<And>k. startswith k ''product-service:'' \<Longrightarrow> view (wd_redis w') k = view (wd_redis (tick elapse N w)) k"
    and "view (wd_redis w') (login_key N) = view (wd_redis (tick elapse N w)) (login_key N)"
  shows "called N rows n prows pn 0 w w'"
proof -
  note tk = tick_in_service [OF assms(1,2)]
  have "counter_ok (view (wd_redis w')) (login_key N)" "counter_level (view (wd_redis w')) (login_key N) =
      counter_level (view (wd_redis (tick elapse N w))) (login_key N)"
    using tk(1) assms(5) by (simp_all add: in_service_def counter_ok_def counter_level_def)
  with in_service_frame [OF tk(1) assms(3,4)] show ?thesis
    using tk(2,4) assms(3) by (simp add: called_def next_world_def)
qed

lemma me_call:
  assumes "se_urlopen X = open_url SY elapse N" and "phase2_base_url X = uc_base N" and "client_ok (sy_web SY) N"
    and "in_service N rows n prows pn (sk_world s)" and "UserRow u \<in> set rows"
    and "valid_at w0 u (clock (wd_redis (sk_world s)) + uc_gap N (wd_served (sk_world s)))"
    and "unrevoked (sk_world s) (token_of (users_now SY w0) u)"
  shows "\<exists>s' v. phase2_request X ''GET'' ''/api/users/me'' PNone (PStr (token_of (users_now SY w0) u)) 200 s = (Inr (200, v), s') \<and>
     py_path v [''data'', ''username''] = Inr (PStr (u_username u)) \<and>
     called N rows n prows pn 0 (sk_world s) (sk_world s') \<and> (\<forall>t. unrevoked (sk_world s) t \<longrightarrow> unrevoked (sk_world s') t)"
proof -
  let ?w = "sk_world s" and ?tok = "token_of (users_now SY w0) u"
  let ?t = "tick elapse N ?w"
  let ?v = "api_json (sy_web SY) profile_dump (api_data (clock (wd_redis ?t)) (profile_of u))"
  have gap: "0 \<le> uc_gap N (wd_served ?w)" using assms(3) by (simp add: client_ok_def)
  note tk = tick_in_service [OF assms(4) gap]
  have t: "steady (wd_redis ?t)" "valid_at w0 u (clock (wd_redis ?t))" "\<not> revoked (wd_redis ?t) ?tok" "accounts rows n (wd_users ?t)"
    using tk(1,2) assms(6) unrevoked_not [OF unrevoked_tick [OF assms(4) gap assms(7)]] by (simp_all add: in_service_def)
  have ok: "json_ok ?v" using assms(6) by (intro api_json_ok profile_json_ok) (simp add: valid_at_def)
  have tg: "''/api/users/me'' = request_target (''/api'' @ ''/users/me'') []" by simp
  have b: "[] = (case dumps_data PNone of None \<Rightarrow> [] | Some d \<Rightarrow> d)" by (simp add: dumps_data_def)
  let ?Q = "\<lambda>w'. next_world rows n ?t w' \<and> view (wd_redis w') = view (wd_redis ?t)"
  have "\<exists>s'. phase2_request X ''GET'' ''/api/users/me'' PNone (PStr ?tok) 200 s = (Inr (200, ?v), s') \<and> ?Q (sk_world s')"
    by (rule token_call [where Q = ?Q, OF assms(1-3) session_urls(1,5) token_nonempty _ ok tg b])
      (use me_step [OF _ t assms(5)] in \<open>fastforce simp: ok_reply_def\<close>)+
  then obtain s' where s': "phase2_request X ''GET'' ''/api/users/me'' PNone (PStr ?tok) 200 s = (Inr (200, ?v), s')" "?Q (sk_world s')" by blast
  have "called N rows n prows pn 0 ?w (sk_world s')"
    using frame_called [OF assms(4) gap] s'(2) by simp
  moreover have "unrevoked ?w t \<Longrightarrow> unrevoked (sk_world s') t" for t
    using unrevoked_tick [OF assms(4) gap] s'(2) by (simp add: unrevoked_def)
  moreover have "py_path ?v [''data'', ''username''] = Inr (PStr (u_username u))"
    by (simp add: api_json_def api_data_def json_opt_def profile_dump_def profile_of_def)
  ultimately show ?thesis using s'(1) by blast
qed

lemma revoked_call:
  assumes "se_urlopen X = open_url SY elapse N" and "phase2_base_url X = uc_base N" and "client_ok (sy_web SY) N"
    and "in_service N rows n prows pn (sk_world s)"
    and "valid_at w0 u (clock (wd_redis (sk_world s)) + uc_gap N (wd_served (sk_world s)))"
    and "view (wd_redis (sk_world s)) (us_blacklist_key (token_of (users_now SY w0) u)) = Some (RStr x, Some e)"
    and "clock (wd_redis (sk_world s)) + uc_gap N (wd_served (sk_world s)) < e"
  shows "\<exists>s'. phase2_request X ''GET'' ''/api/users/me'' PNone (PStr (token_of (users_now SY w0) u)) 401 s =
      (Inr (401, error_detail (PStr ''Access token has been revoked'')), s') \<and>
     called N rows n prows pn 0 (sk_world s) (sk_world s') \<and> (\<forall>t. unrevoked (sk_world s) t \<longrightarrow> unrevoked (sk_world s') t)"
proof -
  let ?w = "sk_world s" and ?tok = "token_of (users_now SY w0) u"
  let ?t = "tick elapse N ?w" and ?v = "error_detail (PStr ''Access token has been revoked'')"
  have gap: "0 \<le> uc_gap N (wd_served ?w)" using assms(3) by (simp add: client_ok_def)
  note tk = tick_in_service [OF assms(4) gap]
  have t: "steady (wd_redis ?t)" "valid_at w0 u (clock (wd_redis ?t))" "revoked (wd_redis ?t) ?tok" "accounts rows n (wd_users ?t)"
    using tk(1,2,3) assms(5-7) by (simp_all add: in_service_def revoked_def purge_def)
  have ok: "json_ok ?v" by (simp add: error_detail_def)
  have tg: "''/api/users/me'' = request_target (''/api'' @ ''/users/me'') []" by simp
  have b: "[] = (case dumps_data PNone of None \<Rightarrow> [] | Some d \<Rightarrow> d)" by (simp add: dumps_data_def)
  let ?Q = "\<lambda>w'. next_world rows n ?t w' \<and> view (wd_redis w') = view (wd_redis ?t)"
  have "\<exists>s'. phase2_request X ''GET'' ''/api/users/me'' PNone (PStr ?tok) 401 s = (Inr (401, ?v), s') \<and> ?Q (sk_world s')"
    by (rule token_call [where Q = ?Q, OF assms(1-3) session_urls(1,5) token_nonempty _ ok tg b])
      (use revoked_step [OF _ t] in fastforce)+
  then obtain s' where s': "phase2_request X ''GET'' ''/api/users/me'' PNone (PStr ?tok) 401 s = (Inr (401, ?v), s')" "?Q (sk_world s')" by blast
  have "called N rows n prows pn 0 ?w (sk_world s')"
    using frame_called [OF assms(4) gap] s'(2) by simp
  moreover have "unrevoked ?w t \<Longrightarrow> unrevoked (sk_world s') t" for t
    using unrevoked_tick [OF assms(4) gap] s'(2) by (simp add: unrevoked_def)
  ultimately show ?thesis using s'(1) by blast
qed

lemma logout_call:
  assumes "se_urlopen X = open_url SY elapse N" and "phase2_base_url X = uc_base N" and "client_ok (sy_web SY) N"
    and "in_service N rows n prows pn (sk_world s)"
    and "valid_at w0 u (clock (wd_redis (sk_world s)) + uc_gap N (wd_served (sk_world s)))"
    and "unrevoked (sk_world s) (token_of (users_now SY w0) u)"
  shows "\<exists>s' v. phase2_request X ''POST'' ''/api/auth/logout'' (PDict []) (PStr (token_of (users_now SY w0) u)) 200 s = (Inr (200, v), s') \<and>
     py_path v [''message''] = Inr (PStr ''signed out'') \<and> called N rows n prows pn 0 (sk_world s) (sk_world s') \<and>
     view (wd_redis (sk_world s')) (us_blacklist_key (token_of (users_now SY w0) u)) =
       Some (RStr ''1'', Some (clock (wd_redis (sk_world s')) +
         blacklist_ttl (clock (wd_redis (sk_world s'))) (token_expiry (users_now SY w0)) * second)) \<and>
     (\<forall>t. us_blacklist_key t \<noteq> us_blacklist_key (token_of (users_now SY w0) u) \<longrightarrow> unrevoked (sk_world s) t \<longrightarrow> unrevoked (sk_world s') t)"
proof -
  let ?w = "sk_world s" and ?tok = "token_of (users_now SY w0) u"
  let ?t = "tick elapse N ?w"
  let ?v = "api_json (sy_web SY) no_data (api_message (clock (wd_redis ?t)) ''signed out'')"
  have gap: "0 \<le> uc_gap N (wd_served ?w)" using assms(3) by (simp add: client_ok_def)
  note tk = tick_in_service [OF assms(4) gap]
  have t: "steady (wd_redis ?t)" "valid_at w0 u (clock (wd_redis ?t))" "\<not> revoked (wd_redis ?t) ?tok" "accounts rows n (wd_users ?t)"
    using tk(1,2) assms(5) unrevoked_not [OF unrevoked_tick [OF assms(4) gap assms(6)]] by (simp_all add: in_service_def)
  have ok: "json_ok ?v" by (rule message_json_ok)
  have tg: "''/api/auth/logout'' = request_target (''/api'' @ ''/auth/logout'') []" by simp
  let ?Q = "\<lambda>w'. next_world rows n ?t w' \<and> view (wd_redis w') = revocation w0 u (wd_redis ?t)"
  have "\<exists>s'. phase2_request X ''POST'' ''/api/auth/logout'' (PDict []) (PStr ?tok) 200 s = (Inr (200, ?v), s') \<and> ?Q (sk_world s')"
    by (rule token_call [where Q = ?Q, OF assms(1-3) session_urls(3,5) token_nonempty _ ok tg refl])
      (use logout_step [OF _ t] in \<open>fastforce simp: ok_reply_def\<close>)+
  then obtain s' where s': "phase2_request X ''POST'' ''/api/auth/logout'' (PDict []) (PStr ?tok) 200 s = (Inr (200, ?v), s')" "?Q (sk_world s')" by blast
  have c: "clock (wd_redis (sk_world s')) = clock (wd_redis ?t)" using s'(2) by (simp add: next_world_def)
  have other: "view (wd_redis (sk_world s')) k = view (wd_redis ?t) k" if "k \<noteq> us_blacklist_key ?tok" for k
    using s'(2) that by (simp add: revocation_def)
  have "called N rows n prows pn 0 ?w (sk_world s')"
    by (rule frame_called [OF assms(4) gap]) (use s'(2) other keys_apart in metis)+
  moreover have "unrevoked (sk_world s') t" if "us_blacklist_key t \<noteq> us_blacklist_key ?tok" "unrevoked ?w t" for t
    using unrevoked_tick [OF assms(4) gap that(2)] other [OF that(1)] by (simp add: unrevoked_def)
  moreover have "view (wd_redis (sk_world s')) (us_blacklist_key ?tok) = Some (RStr ''1'', Some (clock (wd_redis (sk_world s')) +
         blacklist_ttl (clock (wd_redis (sk_world s'))) (token_expiry (users_now SY w0)) * second))"
    using s'(2) c by (simp add: revocation_def)
  moreover have "py_path ?v [''message''] = Inr (PStr ''signed out'')"
    by (simp add: api_json_def api_message_def)
  ultimately show ?thesis using s'(1) by blast
qed

lemma list_call:
  assumes "se_urlopen X = open_url SY elapse N" and "phase2_base_url X = uc_base N" and "client_ok (sy_web SY) N"
    and "in_service N rows n prows pn (sk_world s)"
    and "valid_at w0 u (clock (wd_redis (sk_world s)) + uc_gap N (wd_served (sk_world s)))"
    and "unrevoked (sk_world s) (token_of (users_now SY w0) u)"
  shows "\<exists>s' v. phase2_request X ''GET'' ''/api/products?page=1&size=2'' PNone (PStr (token_of (users_now SY w0) u)) 200 s = (Inr (200, v), s') \<and>
     py_path v [''data'', ''items''] = Inr (PList (map product_dump (pg_items (page_for prows))))"
proof -
  let ?w = "sk_world s" and ?tok = "token_of (users_now SY w0) u"
  let ?t = "tick elapse N ?w"
  let ?v = "api_json (sy_web SY) page_dump (api_data (clock (wd_redis ?t)) (page_for prows))"
  have gap: "0 \<le> uc_gap N (wd_served ?w)" using assms(3) by (simp add: client_ok_def)
  note tk = tick_in_service [OF assms(4) gap]
  have t: "steady (wd_redis ?t)" "valid_at w0 u (clock (wd_redis ?t))" "\<not> revoked (wd_redis ?t) ?tok"
    and a: "P.agree 1 prows pn \<lparr>ss_redis = wd_redis ?t, ss_db = wd_products ?t\<rparr>"
    using tk(1,2) assms(5) unrevoked_not [OF unrevoked_tick [OF assms(4) gap assms(6)]] by (simp_all add: in_service_def)
  have ok: "json_ok ?v" using a by (intro api_json_ok P.first_page_ok) (simp add: P.agree_def)
  have tg: "''/api/products?page=1&size=2'' = request_target (''/api'' @ ''/products'') [(''page'', ''1''), (''size'', ''2'')]"
    by (simp add: request_target_def)
  have b: "[] = (case dumps_data PNone of None \<Rightarrow> [] | Some d \<Rightarrow> d)" by (simp add: dumps_data_def)
  have "\<exists>s'. phase2_request X ''GET'' ''/api/products?page=1&size=2'' PNone (PStr ?tok) 200 s = (Inr (200, ?v), s') \<and> True"
    by (rule token_call [where Q = "\<lambda>w'. True", OF assms(1-3) session_urls(4,6) token_nonempty _ ok tg b])
      (use list_step [OF _ t a] in \<open>fastforce simp: ok_reply_def\<close>)+
  moreover have "py_path ?v [''data'', ''items''] = Inr (PList (map product_dump (pg_items (page_for prows))))"
    by (simp add: api_json_def api_data_def json_opt_def page_dump_def)
  ultimately show ?thesis by blast
qed

end

end
