(* ===== verification/Session_Flow.thy ===== *)
theory Session_Flow
  imports Session_Calls
begin

text \<open>
  The whole script \<^verbatim>\<open>smoke-test-phase2.py\<close> against the whole system: it exits with 0. The locale
  \<open>session\<close> holds what the run relies on; its steps are chained with the rules of
  \<open>succeeds\<close>. At the end the reference system and a client, on which it holds.
\<close>

section \<open>The whole test\<close>

text \<open>\<open>succeeds P m Q\<close>: from a world with \<open>P\<close> the script \<open>m\<close> goes on with a value and a world in \<open>Q\<close>.\<close>

definition succeeds :: "('w \<Rightarrow> bool) \<Rightarrow> ('w smoke_state, 'a) prog \<Rightarrow> ('a \<Rightarrow> 'w \<Rightarrow> bool) \<Rightarrow> bool" where
  "succeeds P m Q \<longleftrightarrow> (\<forall>s. P (sk_world s) \<longrightarrow> (\<exists>x s'. m s = (Inr x, s') \<and> Q x (sk_world s')))"

lemma succeeds_bind: "succeeds P m R \<Longrightarrow> (\<And>x. succeeds (R x) (f x) Q) \<Longrightarrow> succeeds P (bind_prog m f) Q"
  unfolding succeeds_def bind_prog_def by fastforce

lemma succeeds_print: "succeeds P (print_line l) (\<lambda>_. P)"
  by (simp add: succeeds_def print_line_def)

lemma succeeds_expect:
  "(\<And>w. P w \<Longrightarrow> c = Inr True \<and> (\<exists>t. d = Inr t)) \<Longrightarrow> succeeds P (expect_that l c d) (\<lambda>_. P)"
  unfolding succeeds_def by (fastforce simp: expect_that_def expect_def bind_prog_def print_line_def)

lemma succeeds_weaken: "succeeds P m Q \<Longrightarrow> (\<And>x w. Q x w \<Longrightarrow> R x w) \<Longrightarrow> succeeds P m R"
  unfolding succeeds_def by blast

text \<open>The token issued to an account at the time \<open>t\<close> in the request with the number \<open>k\<close>.\<close>

definition issued :: "('r, 'du, 'dp, 'o) system \<Rightarrow> user \<Rightarrow> int \<Rightarrow> nat \<Rightarrow> string" where
  "issued SY u t k = token_of ((sy_user_service SY)\<lparr>ue_now := t, ue_uuid := sy_uuid SY k\<rparr>) u"

text \<open>The time after \<open>i\<close> calls, which started at \<open>t\<close> with the request \<open>k\<close>.\<close>

definition call_time :: "url_client \<Rightarrow> int \<Rightarrow> nat \<Rightarrow> nat \<Rightarrow> int" where
  "call_time N t k i = t + (\<Sum>j<i. uc_gap N (k + j))"

lemma call_time_Suc [simp]: "call_time N t k (Suc i) = call_time N t k i + uc_gap N (k + i)"
  by (simp add: call_time_def)

lemma call_time_bounds:
  assumes "\<And>i. 0 \<le> uc_gap N i" and "\<And>i. uc_gap N i \<le> D"
  shows "call_time N t k i \<le> call_time N t k (i + j)" and "call_time N t k (i + j) \<le> call_time N t k i + int j * D"
proof (induction j)
  case (Suc j)
  {
    case 1
    then show ?case using Suc(1) assms(1) [of "k + (i + j)"] by simp
  next
    case 2
    then show ?case using Suc(2) assms(2) [of "k + (i + j)"] by (simp add: algebra_simps)
  }
qed simp_all

context shop
begin

lemma token_issued: "token_of (users_now SY w) u = issued SY u (clock (wd_redis w)) (wd_served w)"
  by (simp add: issued_def token_of_def users_now_def clocks create_access_token_def access_token_payload_def)

text \<open>After \<open>i\<close> calls, with at most \<open>l\<close> sign-ins counted.\<close>

definition stage where
  "stage N rows n prows pn t k i l w \<longleftrightarrow>
     in_service N rows n prows pn w \<and> wd_served w = k + i \<and> clock (wd_redis w) = call_time N t k i \<and>
     counter_level (view (wd_redis w)) (login_key N) \<le> l"

lemma stage_called:
  "stage N rows n prows pn t k i l w \<Longrightarrow> called N rows n prows pn d w w' \<Longrightarrow> stage N rows n prows pn t k (Suc i) (l + d) w'"
  by (auto simp: stage_def called_def)

end

locale session = shop SY view clock up steady elapse uview uup usteady coerce pview pup psteady
  for SY :: "('r, 'du, 'dp, 'o) system" and view clock up steady elapse uview uup usteady coerce pview pup psteady +
  fixes X :: "('r, 'du, 'dp, 'o) world smoke_env" and N :: url_client and rows n prows pn and u :: user
    and start :: "('r, 'du, 'dp, 'o) world" and pause :: int
  assumes opens: "se_urlopen X = open_url SY elapse N"
    and base: "phase2_base_url X = uc_base N"
    and client: "client_ok (sy_web SY) N"
    and pauses: "\<And>i. uc_gap N i \<le> pause"
    and ready: "in_service N rows n prows pn start"
    and john: "may_login (sy_user_service SY) rows ''john_smith'' ''User@123'' u"
      "u_username u = ''john_smith''" "u_role u = ''USER''" "\<bar>u_id u\<bar> \<le> int64_max"
    and on_sale: "2 \<le> length (filter (product_where (sy_product_service SY) None False) prows)"
    and slots: "counter_level (view (wd_redis start)) (login_key N) + 2 \<le> gw_login_rate_limit_max_requests S"
      "counter_level (view (wd_redis start)) (login_key N) + 2 \<le> int64_max"
    and lifetime: "3 * pause + 2 * second \<le> us_jwt_expire_minutes (ue_settings (sy_user_service SY)) * 60 * second"
    and horizon: "0 \<le> clock (wd_redis start)"
      "clock (wd_redis start) + 5 * pause + us_jwt_expire_minutes (ue_settings (sy_user_service SY)) * 60 * second \<le> int64_max"
    and unused: "unrevoked start (issued SY u (call_time N (clock (wd_redis start)) (wd_served start) 1) (wd_served start))"
      "unrevoked start (issued SY u (call_time N (clock (wd_redis start)) (wd_served start) 5) (wd_served start + 4))"
    and different: "us_blacklist_key (issued SY u (call_time N (clock (wd_redis start)) (wd_served start) 1) (wd_served start)) \<noteq>
      us_blacklist_key (issued SY u (call_time N (clock (wd_redis start)) (wd_served start) 5) (wd_served start + 4))"
begin

abbreviation time_of where "time_of \<equiv> call_time N (clock (wd_redis start)) (wd_served start)"
abbreviation first_token where "first_token \<equiv> issued SY u (time_of 1) (wd_served start)"
abbreviation second_token where "second_token \<equiv> issued SY u (time_of 5) (wd_served start + 4)"
abbreviation logged where "logged \<equiv> counter_level (view (wd_redis start)) (login_key N)"
abbreviation at_stage where "at_stage \<equiv> stage N rows n prows pn (clock (wd_redis start)) (wd_served start)"

text \<open>A token that the user service issued at the time \<open>t\<close>.\<close>

definition held :: "int \<Rightarrow> string \<Rightarrow> bool" where
  "held t token \<longleftrightarrow> (\<exists>w. token = token_of (users_now SY w) u \<and> clock (wd_redis w) = t)"

lemma gaps: "0 \<le> uc_gap N i" and pause_nonneg: "0 \<le> pause"
  using client pauses [of 0] by (auto simp: client_ok_def intro: order_trans [of _ "uc_gap N 0"])

lemma times: "time_of i \<le> time_of (i + j)" "time_of (i + j) \<le> time_of i + int j * pause"
  using call_time_bounds [of N pause] gaps pauses by blast+

lemma held_at:
  assumes "held (time_of i) token" and "i \<le> 5" and "j \<le> 3"
  obtains w where "token = token_of (users_now SY w) u" and "valid_at w u (time_of (i + j))"
    and "j \<le> 2 \<Longrightarrow> time_of (i + j) + second \<le> token_expiry (users_now SY w) * second"
    and "time_of (i + 3) < token_expiry (users_now SY w) * second - second"
proof -
  let ?M = "us_jwt_expire_minutes (ue_settings (sy_user_service SY)) * 60 * second"
  obtain w where w: "token = token_of (users_now SY w) u" "clock (wd_redis w) = time_of i" using assms(1) by (auto simp: held_def)
  let ?x = "token_expiry (users_now SY w)"
  have s: "(0::int) < second" by simp
  have "?x = (time_of i + ?M) div second" using w(2) by (simp add: token_expiry_def users_now_def clocks)
  then have x: "?x * second \<le> time_of i + ?M" "time_of i + ?M - second < ?x * second"
    using div_mult_mod_eq [of "time_of i + ?M" second] pos_mod_bound [OF s, of "time_of i + ?M"] pos_mod_sign [OF s, of "time_of i + ?M"]
    by linarith+
  have t: "time_of (i + j) \<le> time_of i + int j * pause" for j by (rule times(2))
  have le: "int j * pause \<le> int m * pause" if "j \<le> m" for j m using that pause_nonneg by (simp add: mult_right_mono)
  have t3: "time_of (i + 3) \<le> time_of i + 3 * pause" using t [of 3] by simp
  have tj: "time_of (i + j) \<le> time_of i + 3 * pause" using t [of j] le [OF assms(3)] by simp
  have t0: "0 \<le> time_of i" "time_of i \<le> clock (wd_redis start) + 5 * pause"
    using times(1) [of 0 i] times(2) [of 0 i] le [OF assms(2)] horizon(1) by (simp_all add: call_time_def)
  have "0 < ?x * second" using x(2) t0(1) lifetime s pause_nonneg by linarith
  then have p: "0 < ?x" using s by (simp add: zero_less_mult_iff)
  then have "?x * 1 \<le> ?x * second" using s by (intro mult_left_mono) simp_all
  then have "\<bar>?x\<bar> \<le> int64_max" using p x(1) t0(2) horizon(2) by linarith
  moreover have "time_of (i + j) < ?x * second" using tj x(2) lifetime s by linarith
  ultimately have v: "valid_at w u (time_of (i + j))" using john(4) by (simp add: valid_at_def)
  have "time_of (i + 3) < ?x * second - second" using t3 x(2) lifetime by linarith
  moreover have "time_of (i + j) + second \<le> ?x * second" if "j \<le> 2"
    using tj x(2) lifetime by linarith
  ultimately show thesis using that [OF w(1) v] by blast
qed

end

lemma login_paths:
  "py_getitem (login_dump r) ''access_token'' = Inr (PStr (lp_access_token r))"
  "py_path (login_dump r) [''role''] = Inr (PStr (lp_role r))"
  by (simp_all add: login_dump_def)

context session
begin

text \<open>What holds of the world between the calls.\<close>

definition signed_in where
  "signed_in i m t token w \<longleftrightarrow> at_stage i m w \<and> held t token \<and> unrevoked w token \<and> unrevoked w second_token"

definition signed_out where
  "signed_out w \<longleftrightarrow> at_stage 3 (logged + 1) w \<and> held (time_of 1) first_token \<and> unrevoked w second_token \<and>
     (\<exists>e. view (wd_redis w) (us_blacklist_key first_token) = Some (RStr ''1'', Some e) \<and> time_of 4 < e)"

definition opened where
  "opened token v \<longleftrightarrow> py_getitem v ''access_token'' = Inr (PStr token) \<and> py_path v [''role''] = Inr (PStr ''USER'') \<and> token \<noteq> []"

lemma at_stage_time: "at_stage i m w \<Longrightarrow> clock (wd_redis w) + uc_gap N (wd_served w) = time_of (Suc i)"
  by (simp add: stage_def)

lemma minutes_small: "\<bar>us_jwt_expire_minutes (ue_settings (sy_user_service SY)) * 60\<bar> \<le> int64_max"
  using lifetime horizon pause_nonneg by simp

lemma login_works:
  assumes "m \<le> logged + 1" and "token = issued SY u (time_of (Suc i)) (wd_served start + i)"
  shows "succeeds (\<lambda>w. at_stage i m w \<and> unrevoked w token \<and> unrevoked w second_token)
     (phase2_login X ''john_smith'' ''User@123'')
     (\<lambda>v w. opened token v \<and> signed_in (Suc i) (m + 1) (time_of (Suc i)) token w)"
  unfolding succeeds_def
proof (intro allI impI)
  fix s :: "('r, 'du, 'dp, 'o) world smoke_state"
  let ?w = "sk_world s"
  assume a: "at_stage i m ?w \<and> unrevoked ?w token \<and> unrevoked ?w second_token"
  let ?r = "login_response_for (users_now SY (tick elapse N ?w)) u"
  have st: "in_service N rows n prows pn ?w" "counter_level (view (wd_redis ?w)) (login_key N) < gw_login_rate_limit_max_requests S"
    "counter_level (view (wd_redis ?w)) (login_key N) < int64_max"
    using a assms(1) slots by (auto simp: stage_def)
  obtain s' where s': "phase2_login X ''john_smith'' ''User@123'' s = (Inr (login_dump ?r), s')"
    "called N rows n prows pn 1 ?w (sk_world s')" "\<forall>t. unrevoked ?w t \<longrightarrow> unrevoked (sk_world s') t"
    using login_call [OF opens base client st(1) john(1) st(2,3) john(4) minutes_small] by blast
  have tok: "token = token_of (users_now SY (tick elapse N ?w)) u" and c: "clock (wd_redis (tick elapse N ?w)) = time_of (Suc i)"
    using a assms(2) by (simp_all add: token_issued G.elapse_clock stage_def)
  have "opened token (login_dump ?r)"
    using token_nonempty [of "tick elapse N ?w" u] unfolding opened_def login_paths tok
    by (simp add: login_response_for_def token_of_def john(3))
  moreover have "held (time_of (Suc i)) token" using tok c unfolding held_def by blast
  moreover have "at_stage (Suc i) (m + 1) (sk_world s')" using stage_called s'(2) a by blast
  ultimately show "\<exists>v s'. phase2_login X ''john_smith'' ''User@123'' s = (Inr v, s') \<and> opened token v \<and>
      signed_in (Suc i) (m + 1) (time_of (Suc i)) token (sk_world s')"
    using s'(1,3) a unfolding signed_in_def by blast
qed

lemma me_works:
  assumes "i \<le> 5"
  shows "succeeds (signed_in i m (time_of i) token) (phase2_request X ''GET'' ''/api/users/me'' PNone (PStr token) 200)
     (\<lambda>(st, v) w. py_path v [''data'', ''username''] = Inr (PStr ''john_smith'') \<and> signed_in (Suc i) m (time_of i) token w)"
  unfolding succeeds_def
proof (intro allI impI)
  fix s :: "('r, 'du, 'dp, 'o) world smoke_state"
  assume a: "signed_in i m (time_of i) token (sk_world s)"
  obtain w where w: "token = token_of (users_now SY w) u" "valid_at w u (time_of (i + 1))"
    using held_at [of i token 1] a assms by (auto simp: signed_in_def)
  have st: "in_service N rows n prows pn (sk_world s)" "unrevoked (sk_world s) (token_of (users_now SY w) u)"
    "valid_at w u (clock (wd_redis (sk_world s)) + uc_gap N (wd_served (sk_world s)))"
    using a w by (simp_all add: signed_in_def stage_def)
  have "UserRow u \<in> set rows" using john(1) by (simp add: may_login_def)
  from me_call [OF opens base client st(1) this st(3,2)] obtain s' v where s':
    "phase2_request X ''GET'' ''/api/users/me'' PNone (PStr token) 200 s = (Inr (200, v), s')"
    "py_path v [''data'', ''username''] = Inr (PStr (u_username u))"
    "called N rows n prows pn 0 (sk_world s) (sk_world s')" "\<forall>t. unrevoked (sk_world s) t \<longrightarrow> unrevoked (sk_world s') t"
    unfolding w(1) [symmetric] by blast
  have "at_stage (Suc i) (m + 0) (sk_world s')" by (rule stage_called [OF _ s'(3)]) (use a in \<open>simp add: signed_in_def\<close>)
  then have "signed_in (Suc i) m (time_of i) token (sk_world s')" using a s'(4) by (simp add: signed_in_def)
  then show "\<exists>x s'. phase2_request X ''GET'' ''/api/users/me'' PNone (PStr token) 200 s = (Inr x, s') \<and>
      (case x of (st, v) \<Rightarrow> \<lambda>w. py_path v [''data'', ''username''] = Inr (PStr ''john_smith'') \<and>
         signed_in (Suc i) m (time_of i) token w) (sk_world s')"
    using s'(1,2) john(2) by auto
qed

lemma logout_works:
  "succeeds (signed_in 2 (logged + 1) (time_of 1) first_token)
     (phase2_request X ''POST'' ''/api/auth/logout'' (PDict []) (PStr first_token) 200)
     (\<lambda>(st, v) w. py_path v [''message''] = Inr (PStr ''signed out'') \<and> signed_out w)"
  unfolding succeeds_def
proof (intro allI impI)
  fix s :: "('r, 'du, 'dp, 'o) world smoke_state"
  assume a: "signed_in 2 (logged + 1) (time_of 1) first_token (sk_world s)"
  obtain w where w: "first_token = token_of (users_now SY w) u" "valid_at w u (time_of (1 + 2))"
    "time_of (1 + 2) + second \<le> token_expiry (users_now SY w) * second" "time_of (1 + 3) < token_expiry (users_now SY w) * second - second"
    using held_at [of 1 first_token 2] a by (auto simp: signed_in_def)
  have i: "(1::nat) + 2 = Suc 2" "(1::nat) + 3 = 4" "Suc 2 = (3::nat)" by simp_all
  have st: "in_service N rows n prows pn (sk_world s)" "unrevoked (sk_world s) (token_of (users_now SY w) u)"
    "unrevoked (sk_world s) second_token" "at_stage 2 (logged + 1) (sk_world s)" "held (time_of 1) first_token"
    using a w(1) by (simp_all add: signed_in_def stage_def)
  have "valid_at w u (clock (wd_redis (sk_world s)) + uc_gap N (wd_served (sk_world s)))"
    unfolding at_stage_time [OF st(4)] using w(2) unfolding i .
  from logout_call [OF opens base client st(1) this st(2)] obtain s' v where s':
    "phase2_request X ''POST'' ''/api/auth/logout'' (PDict []) (PStr first_token) 200 s = (Inr (200, v), s')"
    "py_path v [''message''] = Inr (PStr ''signed out'')" "called N rows n prows pn 0 (sk_world s) (sk_world s')"
    "view (wd_redis (sk_world s')) (us_blacklist_key first_token) = Some (RStr ''1'', Some (clock (wd_redis (sk_world s')) +
       blacklist_ttl (clock (wd_redis (sk_world s'))) (token_expiry (users_now SY w)) * second))"
    "\<forall>t. us_blacklist_key t \<noteq> us_blacklist_key first_token \<longrightarrow> unrevoked (sk_world s) t \<longrightarrow> unrevoked (sk_world s') t"
    unfolding w(1) [symmetric] by blast
  have stage: "at_stage 3 (logged + 1) (sk_world s')" using stage_called [OF st(4) s'(3)] unfolding i by simp
  then have "clock (wd_redis (sk_world s')) = time_of 3" unfolding stage_def by blast
  then have "\<exists>e. view (wd_redis (sk_world s')) (us_blacklist_key first_token) = Some (RStr ''1'', Some e) \<and> time_of 4 < e"
    using s'(4) blacklist_ttl_bounds(1) [OF w(3)] w(4) unfolding i by auto
  moreover have "unrevoked (sk_world s') second_token" using s'(5) st(3) different by metis
  ultimately have "signed_out (sk_world s')" using stage st(5) unfolding signed_out_def by blast
  then show "\<exists>x s'. phase2_request X ''POST'' ''/api/auth/logout'' (PDict []) (PStr first_token) 200 s = (Inr x, s') \<and>
      (case x of (st, v) \<Rightarrow> \<lambda>w. py_path v [''message''] = Inr (PStr ''signed out'') \<and> signed_out w) (sk_world s')"
    using s'(1,2) by auto
qed

lemma revoked_works:
  "succeeds signed_out (phase2_request X ''GET'' ''/api/users/me'' PNone (PStr first_token) 401)
     (\<lambda>(st, v) w. (st = 401 \<and> v = error_detail (PStr ''Access token has been revoked'')) \<and>
        at_stage 4 (logged + 1) w \<and> unrevoked w second_token)"
  unfolding succeeds_def
proof (intro allI impI)
  fix s :: "('r, 'du, 'dp, 'o) world smoke_state"
  assume a: "signed_out (sk_world s)"
  then have h: "held (time_of 1) first_token" and st: "at_stage 3 (logged + 1) (sk_world s)" "unrevoked (sk_world s) second_token"
    by (simp_all add: signed_out_def)
  obtain w where w: "first_token = token_of (users_now SY w) u" "valid_at w u (time_of (1 + 3))"
    by (rule held_at [OF h, of 3]) simp_all
  have i: "(1::nat) + 3 = Suc 3" "Suc 3 = (4::nat)" by simp_all
  obtain e where e: "view (wd_redis (sk_world s)) (us_blacklist_key (token_of (users_now SY w) u)) = Some (RStr ''1'', Some e)"
    "time_of (Suc 3) < e" using a w(1) unfolding i by (auto simp: signed_out_def)
  have v: "in_service N rows n prows pn (sk_world s)"
    "valid_at w u (clock (wd_redis (sk_world s)) + uc_gap N (wd_served (sk_world s)))"
    unfolding at_stage_time [OF st(1)] using st(1) w(2) unfolding i stage_def by blast+
  from revoked_call [OF opens base client v e(1)] e(2) obtain s' where s':
    "phase2_request X ''GET'' ''/api/users/me'' PNone (PStr first_token) 401 s =
      (Inr (401, error_detail (PStr ''Access token has been revoked'')), s')"
    "called N rows n prows pn 0 (sk_world s) (sk_world s')" "\<forall>t. unrevoked (sk_world s) t \<longrightarrow> unrevoked (sk_world s') t"
    unfolding at_stage_time [OF st(1)] w(1) [symmetric] by blast
  have "at_stage 4 (logged + 1) (sk_world s')" using stage_called [OF st(1) s'(2)] unfolding i by simp
  then show "\<exists>x s'. phase2_request X ''GET'' ''/api/users/me'' PNone (PStr first_token) 401 s = (Inr x, s') \<and>
      (case x of (st, v) \<Rightarrow> \<lambda>w. (st = 401 \<and> v = error_detail (PStr ''Access token has been revoked'')) \<and>
        at_stage 4 (logged + 1) w \<and> unrevoked w second_token) (sk_world s')"
    using s'(1,3) st(2) by auto
qed

lemma list_works:
  "succeeds (signed_in 6 m (time_of 5) second_token) (phase2_request X ''GET'' ''/api/products?page=1&size=2'' PNone (PStr second_token) 200)
     (\<lambda>(st, v) w. bind_res (py_path v [''data'', ''items'']) (\<lambda>items. bind_res (py_len items) (\<lambda>n. Inr (n = 2))) = Inr True \<and> True)"
  unfolding succeeds_def
proof (intro allI impI)
  fix s :: "('r, 'du, 'dp, 'o) world smoke_state"
  assume a: "signed_in 6 m (time_of 5) second_token (sk_world s)"
  then have h: "held (time_of 5) second_token" and st: "at_stage 6 m (sk_world s)" "unrevoked (sk_world s) second_token"
    by (simp_all add: signed_in_def)
  obtain w where w: "second_token = token_of (users_now SY w) u" "valid_at w u (time_of (5 + 2))"
    by (rule held_at [OF h, of 2]) simp_all
  have i: "(5::nat) + 2 = Suc 6" by simp
  have v: "in_service N rows n prows pn (sk_world s)"
    "valid_at w u (clock (wd_redis (sk_world s)) + uc_gap N (wd_served (sk_world s)))"
    unfolding at_stage_time [OF st(1)] using st(1) w(2) unfolding i stage_def by blast+
  have "length (pg_items (page_for prows)) = 2" using on_sale by (simp add: P.first_page_def)
  with list_call [OF opens base client v st(2) [unfolded w(1)]]
  show "\<exists>x s'. phase2_request X ''GET'' ''/api/products?page=1&size=2'' PNone (PStr second_token) 200 s = (Inr x, s') \<and>
      (case x of (st, v) \<Rightarrow> \<lambda>w. bind_res (py_path v [''data'', ''items'']) (\<lambda>items. bind_res (py_len items) (\<lambda>n. Inr (n = 2))) = Inr True \<and> True) (sk_world s')"
    unfolding w(1) [symmetric] by fastforce
qed

end

lemma succeeds_then:
  "succeeds P m (\<lambda>x w. F x \<and> R w) \<Longrightarrow> (\<And>x. F x \<Longrightarrow> succeeds R (f x) Q) \<Longrightarrow> succeeds P (bind_prog m f) Q"
  unfolding succeeds_def bind_prog_def by fastforce

lemma succeeds_pair:
  "succeeds P m (\<lambda>(x, y) w. F x y \<and> R w) \<Longrightarrow> (\<And>x y. F x y \<Longrightarrow> succeeds R (f x y) Q) \<Longrightarrow>
   succeeds P (bind_prog m (\<lambda>(x, y). f x y)) Q"
  unfolding succeeds_def bind_prog_def by fastforce

lemma succeeds_check:
  "c = Inr True \<Longrightarrow> \<exists>t. d = Inr t \<Longrightarrow> succeeds P (f ()) Q \<Longrightarrow> succeeds P (bind_prog (expect_that l c d) f) Q"
  by (rule succeeds_bind [OF succeeds_expect]) simp_all

lemma succeeds_item: "r = Inr y \<Longrightarrow> succeeds P (f y) Q \<Longrightarrow> succeeds P (bind_prog (lift_res r) f) Q"
  unfolding succeeds_def bind_prog_def by simp

context session
begin

lemma issued_tokens:
  "first_token = issued SY u (time_of (Suc 0)) (wd_served start + 0)" "second_token = issued SY u (time_of (Suc 4)) (wd_served start + 4)"
  by (simp_all add: numeral_eq_Suc)

lemma session_again:
  "succeeds (\<lambda>w. at_stage 4 (logged + 1) w \<and> unrevoked w second_token) (phase2_login X ''john_smith'' ''User@123'')
     (\<lambda>v w. opened second_token v \<and> signed_in 5 (logged + 2) (time_of 5) second_token w)"
  using login_works [OF _ issued_tokens(2), of "logged + 1"] by (simp add: add.commute)

lemma session_first:
  "succeeds (\<lambda>w. at_stage 0 logged w \<and> unrevoked w first_token \<and> unrevoked w second_token) (phase2_login X ''john_smith'' ''User@123'')
     (\<lambda>v w. opened first_token v \<and> signed_in 1 (logged + 1) (time_of 1) first_token w)"
  using login_works [OF _ issued_tokens(1), of logged] by simp

lemma profiles:
  "succeeds (signed_in 1 m (time_of 1) token) (phase2_request X ''GET'' ''/api/users/me'' PNone (PStr token) 200)
     (\<lambda>(st, v) w. py_path v [''data'', ''username''] = Inr (PStr ''john_smith'') \<and> signed_in 2 m (time_of 1) token w)"
  "succeeds (signed_in 5 m (time_of 5) token) (phase2_request X ''GET'' ''/api/users/me'' PNone (PStr token) 200)
     (\<lambda>(st, v) w. py_path v [''data'', ''username''] = Inr (PStr ''john_smith'') \<and> signed_in 6 m (time_of 5) token w)"
  using me_works [of 1 m token] me_works [of 5 m token] by (simp_all add: numeral_eq_Suc)

lemma session_runs:
  "succeeds (\<lambda>w. at_stage 0 logged w \<and> unrevoked w first_token \<and> unrevoked w second_token) (phase2_main X) (\<lambda>_ _. True)"
  unfolding phase2_main_def
  apply (rule succeeds_bind [OF succeeds_print])
  apply (rule succeeds_then [OF session_first], rule succeeds_item [where y = "PStr first_token"], simp add: opened_def)
  apply (rule succeeds_check, simp add: opened_def path_is_def, simp add: opened_def path_text_def)
  apply (rule succeeds_pair [OF profiles(1)], rule succeeds_check, simp add: path_is_def, simp)
  apply (rule succeeds_pair [OF logout_works], rule succeeds_check, simp add: path_is_def, simp add: path_text_def)
  apply (rule succeeds_pair [OF revoked_works], rule succeeds_check, simp add: path_is_def error_detail_def, simp add: error_detail_def)
  apply (rule succeeds_then [OF session_again], rule succeeds_item [where y = "PStr second_token"], simp add: opened_def)
  apply (rule succeeds_check, simp add: opened_def, simp)
  apply (rule succeeds_pair [OF profiles(2)], rule succeeds_check, simp add: path_is_def, simp)
  apply (rule succeeds_pair [OF list_works], rule succeeds_check, simp, simp)
  apply (rule succeeds_weaken [OF succeeds_print], simp)
  done

lemma session_passes:
  assumes "sk_world s = start"
  shows "fst (phase2_script X s) = 0"
proof -
  have "at_stage 0 logged start \<and> unrevoked start first_token \<and> unrevoked start second_token"
    using ready unused by (simp add: stage_def call_time_def)
  then obtain s' where "phase2_main X s = (Inr (), s')"
    using session_runs assms unfolding succeeds_def by (metis (full_types) old.unit.exhaust)
  then show ?thesis by (simp add: phase2_script_def run_main_def)
qed

end

text \<open>
  C3: Against the composed system (gateway, user service and product service over their Redis
  and databases, all reachable) the session smoke test exits with 0: with the account
  john_smith, two products on sale, room for two sign-ins in the rate limit and pauses that are
  short against the lifetime of a token, every request gets the answer the script expects, the
  401 after sign-out included.
\<close>

theorem session_smoke_test_passes:
  fixes SY :: "('r, 'du, 'dp, 'o) system" and s :: "('r, 'du, 'dp, 'o) world smoke_state" and N :: url_client and u :: user
  assumes "shop SY view clock up steady elapse uview uup usteady coerce pview pup psteady"
    and "sk_world s = w" and "clock (wd_redis w) = now" and "wd_served w = k"
    and "se_urlopen X = open_url SY elapse N" and "phase2_base_url X = uc_base N" and "client_ok (sy_web SY) N"
    and "\<And>i. uc_gap N i \<le> pause"
    and "steady (wd_redis w)" and "usteady (wd_users w)" and "psteady (wd_products w)"
    and "uview (wd_users w) = table_of rows n" and "user_check (ue_text_eq (sy_user_service SY)) rows = None"
    and "pview (wd_products w) = table_of prows pn" and "product_table_ok (pe_text_eq (sy_product_service SY)) prows"
    and "coherent (sy_product_service SY) (view (wd_redis w)) prows" and "catalog_version (view (wd_redis w)) < int64_max"
    and "2 \<le> length (filter (product_where (sy_product_service SY) None False) prows)"
    and "may_login (sy_user_service SY) rows ''john_smith'' ''User@123'' u" and "u_username u = ''john_smith''"
    and "u_role u = ''USER''" and "\<bar>u_id u\<bar> \<le> int64_max"
    and "counter_ok (view (wd_redis w)) (login_key N)"
    and "counter_level (view (wd_redis w)) (login_key N) + 2 \<le> min int64_max (gw_login_rate_limit_max_requests (ge_settings (sy_gateway SY)))"
    and "lifetime = us_jwt_expire_minutes (ue_settings (sy_user_service SY)) * 60 * second"
    and "3 * pause + 2 * second \<le> lifetime" and "0 \<le> now" and "now + 5 * pause + lifetime \<le> int64_max"
    and "old_token = issued SY u (call_time N now k 1) k" and "new_token = issued SY u (call_time N now k 5) (k + 4)"
    and "view (wd_redis w) (us_blacklist_key old_token) = None" and "view (wd_redis w) (us_blacklist_key new_token) = None"
    and "us_blacklist_key old_token \<noteq> us_blacklist_key new_token"
  shows "fst (phase2_script X s) = 0"
proof -
  note shop = assms(1)
  have "catalog_service (sy_product_service SY) view clock up steady elapse pview pup psteady" using shop by (simp add: shop_def)
  then have ready: "shop.in_service SY view steady uview usteady pview psteady N rows n prows pn w"
    using assms(9-17,23) by (simp add: shop.in_service_def [OF shop] shop.accounts_def [OF shop] catalog_service.agree_def)
  have S: "session SY view clock up steady elapse uview uup usteady coerce pview pup psteady X N rows n prows pn u w pause"
  proof (intro session.intro session_axioms.intro)
    show "shop SY view clock up steady elapse uview uup usteady coerce pview pup psteady" by (rule shop)
  qed (use assms(2-8,18-33) ready in \<open>simp_all add: shop.unrevoked_def [OF shop]\<close>)
  show ?thesis by (rule session.session_passes [OF S assms(2)])
qed

section \<open>A session on the reference system\<close>

definition john :: user where
  "john = \<lparr>u_id = 1, u_userno = ''U0001'', u_username = ''john_smith'', u_password = ''h:User@123'', u_nickname = None,
           u_phone = None, u_email = None, u_role = ''USER'', u_login_enabled = 1, u_version = 0\<rparr>"

definition mouse :: product where
  "mouse = \<lparr>p_id = 2, p_product_name = ''Mouse'', p_product_code = ''P1002'', p_price = Dec 9900 (- 2), p_stock = 8,
            p_category = None, p_status = 1, p_version = 0\<rparr>"

definition session_world :: "(ref_redis, user_entity ref_db, product ref_db, unit) world" where
  "session_world =
     \<lparr>wd_redis = fresh_redis, wd_users = ref_database [UserRow john] 2, wd_products = ref_database [keyboard, mouse] 3,
      wd_orders = (), wd_served = 0\<rparr>"

text \<open>A client that lets a second go by before each request.\<close>

definition session_client :: url_client where
  "session_client =
     \<lparr>uc_base = ''http://127.0.0.1:8000'', uc_address = Some ''127.0.0.1'',
      uc_headers = (\<lambda>req. [(''Host'', ''127.0.0.1:8000''), (''Connection'', ''close'')]),
      uc_gap = (\<lambda>i. second), uc_decode = Inr, uc_redirect = (\<lambda>req resp. Inl OSError)\<rparr>"

definition session_env :: "(ref_redis, user_entity ref_db, product ref_db, unit) world smoke_env" where
  "session_env =
     \<lparr>se_getenv = (\<lambda>_. None), se_urlopen = open_url ref_system rr_elapse session_client,
      se_time = (\<lambda>w. (rr_clock (wd_redis w), w)),
      se_sleep = (\<lambda>secs w. (Inr (), w)), se_run = (\<lambda>cmd w. (Inl OSError, w)), se_exc_text = (\<lambda>_. []),
      se_json = (\<lambda>_. Inl JSONDecodeError)\<rparr>"

interpretation ref_shop: shop ref_system rr_keys rr_clock rr_up rr_steady rr_elapse rd_table rd_up rd_steady id rd_table rd_up rd_steady
proof (intro shop.intro shop_axioms.intro)
  show "gateway_redis (sy_gateway ref_system) rr_keys rr_clock rr_up rr_steady rr_elapse"
    by (simp add: ref_system_def ref_gw.gateway_redis_axioms)
  show "user_redis (sy_user_service ref_system) rr_keys rr_clock rr_up rr_steady rr_elapse"
    by (simp add: ref_system_def ref_ur.user_redis_axioms)
  show "user_session (sy_user_service ref_system) rd_table rd_up rd_steady (user_check (ue_text_eq (sy_user_service ref_system))) id"
    by (simp add: ref_system_def ref_user_facts(1) ref_us.user_session_axioms)
  show "catalog_service (sy_product_service ref_system) rr_keys rr_clock rr_up rr_steady rr_elapse rd_table rd_up rd_steady"
    by (rule ref_system_facts(1))
  show "web_framework (sy_web ref_system)" by (rule ref_system_facts(2))
  show "jwt_codec (ue_jwt (sy_user_service ref_system))" by (simp add: ref_system_def ref_user_facts)
  show "gateway_shares (sy_gateway ref_system) (sy_user_service ref_system)"
    by (simp add: ref_system_def ref_gateway_shares)
  show "equivp (ue_text_eq (sy_user_service ref_system))" by (simp add: ref_system_def identity_equivp ref_user_facts(1))
  show "bases_ok (ge_settings (sy_gateway ref_system))" by (rule ref_system_facts(3))
qed (simp_all add: ref_system_def ref_gateway_env_def gateway_default_settings_def)

text \<open>
  The two tokens of the session, and their digests: two blocks each, the first of which they
  share.
\<close>

definition session_token :: "int \<Rightarrow> string \<Rightarrow> string" where
  "session_token x jti =
     json_text (PList [PStr ''HS256'', PStr ''change-me-in-env'',
       PDict [(''user_id'', PInt 1), (''username'', PStr ''john_smith''), (''role'', PStr ''USER''), (''exp'', PInt x), (''jti'', PStr jti)]])"

lemma issued_session_token:
  "issued ref_system john t k = session_token ((t + 7200 * second) div second) (''u-'' @ int_str (int k))"
  by (simp add: issued_def session_token_def token_of_def create_access_token_def ref_system_def ref_user_env_def ref_jwt_def
      access_token_payload_def john_def user_default_settings_def jwt_claims_def del: json_text.simps)

definition first_block :: "w32 list" where
  "first_block =
    [1528973395, 842348066, 740303459, 1751215719, 1697475941, 761884205, 1701738018, 740326178,
     1970496882, 1600742434, 975188268, 539129203, 1701998177, 1835344442, 539126383, 1752063859]"

definition middle :: "w32 list" where
  "middle = [3741653473, 70325799, 1208040786, 3312228066, 1715059483, 4194480653, 4067038345, 1265620928]"

definition last_block :: "w32 \<Rightarrow> w32 \<Rightarrow> w32 list" where
  "last_block x j =
    [1835627624, 573317154, 1919904869, 574234658, 1431520594, 573317154, 1702391842, 975189810,
     x, 577401961, 574234658, j, 2103279616, 0, 0, 912]"

lemma session_blocks:
  "chunks16 (be_words (sha_pad (utf8_encode (session_token 7201 ''u-0'')))) = [first_block, last_block 808528928 1965895714]"
  "chunks16 (be_words (sha_pad (utf8_encode (session_token 7205 ''u-4'')))) = [first_block, last_block 808791072 1965896738]"
  by code_simp+

lemma middle_state: "sha_block sha_h0 first_block = middle"
  by code_simp

lemma last_state1:
  "sha_block middle (last_block 808528928 1965895714) =
    [3862306612, 1955636134, 1141197460, 1415435438, 3283079500, 3815913131, 3478097064, 1604403267]"
  by code_simp

lemma last_state2:
  "sha_block middle (last_block 808791072 1965896738) =
    [2940941097, 3608646441, 2207830140, 3132976999, 3920674411, 549727804, 293663532, 2675629051]"
  by code_simp

lemma tokens_differ: "us_blacklist_key (session_token 7201 ''u-0'') \<noteq> us_blacklist_key (session_token 7205 ''u-4'')"
proof -
  have "hex_word 3862306612 \<noteq> hex_word 2940941097" by code_simp
  moreover have "length (hex_word v) = 8" for v by (simp add: hex_word_def)
  ultimately have "sha256_hexdigest (session_token 7201 ''u-0'') \<noteq> sha256_hexdigest (session_token 7205 ''u-4'')"
    unfolding sha256_hexdigest_def session_blocks by (simp add: middle_state last_state1 last_state2)
  then show ?thesis by (simp add: us_blacklist_key_def)
qed

lemma session_times: "call_time session_client 0 0 1 = second" "call_time session_client 0 0 5 = 5 * second"
  by (simp_all add: call_time_def session_client_def numeral_eq_Suc)

lemma session_rows:
  "user_check (=) [UserRow john] = None" "product_table_ok (=) [keyboard, mouse]"
  "may_login ref_user_env [UserRow john] ''john_smith'' ''User@123'' john"
proof -
  show "user_check (=) [UserRow john] = None"
    by (simp add: user_check_def john_def user_columns_ok_def)
  show "product_table_ok (=) [keyboard, mouse]"
    by (simp add: product_table_ok_def product_check_def product_columns_ok_def product_coerce_iff round_cents_def keyboard_def mouse_def)
  show "may_login ref_user_env [UserRow john] ''john_smith'' ''User@123'' john"
    by (simp add: may_login_def john_def ref_user_env_def verify_password_def ref_passlib_def policy_enabled_def policy_rows_def)
qed

lemma session_client_ok: "client_ok ref_web session_client"
proof -
  have "lower_str ''Host'' = ''host''" "lower_str ''Connection'' = ''connection''" by code_simp+
  then show ?thesis by (simp add: client_ok_def session_client_def)
qed

lemma session_env_facts:
  "se_urlopen session_env = open_url ref_system rr_elapse session_client" "phase2_base_url session_env = uc_base session_client"
  "uc_gap session_client i = second"
  by (simp_all add: session_env_def phase2_base_url_def getenv_def session_client_def)

lemma session_world_facts:
  "rr_clock fresh_redis = 0" "rr_keys fresh_redis = (\<lambda>_. None)" "rr_steady fresh_redis"
  "rd_steady (ref_database rows n)" "rd_table (ref_database rows n) = table_of rows n"
  by (simp_all add: fresh_redis_def rr_steady_def ref_database_def table_of_def rd_steady_def)

lemma session_system_facts:
  "sy_web ref_system = ref_web" "sy_user_service ref_system = ref_user_env" "sy_product_service ref_system = ref_product_env"
  "sy_gateway ref_system = ref_gateway_env" "us_jwt_expire_minutes (ue_settings ref_user_env) = 120"
  "gw_login_rate_limit_max_requests (ge_settings ref_gateway_env) = 10"
  "ue_text_eq ref_user_env = (=)" "pe_text_eq ref_product_env = (=)"
  "length (filter (product_where ref_product_env None False) [keyboard, mouse]) = 2"
  by (simp_all add: ref_system_def ref_user_env_def ref_product_env_def user_default_settings_def ref_gateway_env_def
      gateway_default_settings_def product_where_def keyboard_def mouse_def)

lemma session_issued:
  "issued ref_system john (call_time session_client 0 0 1) 0 = session_token 7201 ''u-0''"
  "issued ref_system john (call_time session_client 0 0 5) (0 + 4) = session_token 7205 ''u-4''"
proof -
  have "int_str (int 0) = ''0''" "int_str (int (0 + 4)) = ''4''" by code_simp+
  then show "issued ref_system john (call_time session_client 0 0 1) 0 = session_token 7201 ''u-0''"
    "issued ref_system john (call_time session_client 0 0 5) (0 + 4) = session_token 7205 ''u-4''"
    unfolding session_times issued_session_token by simp_all
qed

text \<open>The locale of the run holds on the reference system.\<close>

lemmas session_facts = session_issued session_env_facts session_system_facts session_client_ok session_rows tokens_differ

lemma session_start: "coherent ref_product_env (\<lambda>_. None) rows" "catalog_version (\<lambda>_. None) = 0"
  using fresh_coherent unfolding session_world_facts(2) .

lemma session_world_start:
  "wd_served session_world = 0" "wd_redis session_world = fresh_redis" "wd_users session_world = ref_database [UserRow john] 2"
  "wd_products session_world = ref_database [keyboard, mouse] 3"
  by (simp_all add: session_world_def)

interpretation ref_session: session ref_system rr_keys rr_clock rr_up rr_steady rr_elapse rd_table rd_up rd_steady id rd_table rd_up rd_steady
  session_env session_client "[UserRow john]" 2 "[keyboard, mouse]" 3 john session_world second
proof (intro session.intro ref_shop.shop_axioms session_axioms.intro)
  show "ref_shop.in_service session_client [UserRow john] 2 [keyboard, mouse] 3 session_world"
    unfolding ref_shop.in_service_def ref_shop.accounts_def session_system_facts
    by (simp add: ref_cs.agree_def session_rows session_system_facts(8) session_world_start session_world_facts session_start counter_ok_def)
qed (simp_all only: session_facts session_world_start session_world_facts ref_shop.unrevoked_def,
     simp_all add: john_def counter_level_def)

theorem session_smoke_test_witness:
  "fst (phase2_script session_env \<lparr>sk_stdout = [], sk_stderr = [], sk_calls = [], sk_world = session_world\<rparr>) = 0"
  by (rule session_smoke_test_passes [OF ref_shop.shop_axioms, where w = session_world and N = session_client
        and rows = "[UserRow john]" and n = 2 and prows = "[keyboard, mouse]" and pn = 3 and u = john and pause = second and now = 0 and k = 0
        and X = session_env and old_token = "session_token 7201 ''u-0''" and new_token = "session_token 7205 ''u-4''" and lifetime = "7200 * second"])
    (simp_all only: session_facts session_world_start session_world_facts,
     simp_all add: john_def counter_ok_def counter_level_def session_start)

end
