(* ===== verification/Spec2Isabelle.thy ===== *)
theory Spec2Isabelle
  imports Prelude Redis_Spec Sql_Spec Py_Sha256 Rate_Limit Py_Json Py_Decimal Auth_Libs Gateway User_Service
    Product_Data Product_Cache Product_Catalog Coupons Product_Routes Cache_Keys Catalog_Cache Catalog_Races Py_Csv Csv_Import
    Py_Time Notification Event_Audit Py_Values Smoke_Tests Smoke_Checks Audit_Check
    Sessions Web Applications Routing Shop Perimeter Session_Steps Session_Calls Session_Flow
begin

text \<open>
  The Python services of the user, product and order system: the API gateway
  (\<^verbatim>\<open>src/gateway/app\<close>), the user service, the product service and the notification service
  (\<^verbatim>\<open>src/services/<name>/app\<close>), and the smoke tests that drive them
  (\<^verbatim>\<open>src/scripts/sandbox\<close>).

  \<^bold>\<open>How the parts interact.\<close> Clients talk to the gateway, which checks the bearer token, the
  revocation list in Redis, the role and the rate limits, and forwards the request with
  identity headers to one of the services. The user service keeps accounts and the sign-in policy in
  MySQL, issues tokens and revokes them in the Redis the gateway reads. The product service keeps
  the catalogue and the stock in MySQL behind a versioned read-through cache in Redis, and the
  coupons of the users in Redis alone. The order service (not Python) reserves stock, claims coupons and
  publishes events; the notification service consumes the events from RabbitMQ and records them in MongoDB. The smoke tests are clients of the
  gateway, and one of them reads the audit documents of the notification service from MongoDB.

  \<^bold>\<open>Theories.\<close>
  \<^item> \<open>Prelude\<close>: Python values, exceptions, results, state-passing programs, strings and integers.
  \<^item> \<open>Redis_Spec\<close>, \<open>Sql_Spec\<close>, \<open>Auth_Libs\<close>: what the code relies on of Redis, of a SQLAlchemy session over MySQL, and of
    PyJWT and passlib, as locales (\<open>redis_server\<close> and others), each with a reference instance. An
    operation of an unreachable server fails with an exception and may or may not have had its effect; passlib
    raises what it raises for a password or a stored hash it cannot take.
  \<^item> \<open>Py_Json\<close>, \<open>Py_Decimal\<close>, \<open>Py_Sha256\<close>, \<open>Py_Csv\<close>, \<open>Py_Time\<close>: the parts of the standard library the sources use.
  \<^item> \<open>Rate_Limit\<close>: counters in a key space, shared by the two rate limiters.
  \<^item> \<open>Gateway\<close>: \<^verbatim>\<open>core/config.py\<close>, \<^verbatim>\<open>core/cache.py\<close>, \<^verbatim>\<open>core/security.py\<close>, \<^verbatim>\<open>core/proxy.py\<close>, \<^verbatim>\<open>main.py\<close>.
    \<open>gateway_proxy\<close> is the whole handler. Shown: which requests are forwarded and with which identity, the
    error codes, the login limit, the behaviour without Redis.
  \<^item> \<open>User_Service\<close>: settings, models, schemas, security, cache, \<^verbatim>\<open>auth_service.py\<close> and routes. Shown: who may sign in,
    the token round trip, revocation, the sign-in policy, password changes, paging, the administrator guard.
  \<^item> \<open>Product_Data\<close> (models, schemas, settings, guards), \<open>Product_Cache\<close> (\<^verbatim>\<open>core/cache.py\<close> with its Lua script),
    \<open>Product_Catalog\<close> and \<open>Coupons\<close> (\<^verbatim>\<open>services/product_service.py\<close>), \<open>Product_Routes\<close> (\<^verbatim>\<open>api/routes.py\<close>),
    \<open>Csv_Import\<close> (the file import). Shown: the outcome of every stock and catalogue operation on the table,
    conservation of stock and of coupons over any sequence of requests, the best coupon, records of orders,
    what a file import stores and when it fails, the round trip of exported files.
  \<^item> \<open>Cache_Keys\<close>, \<open>Catalog_Cache\<close>, \<open>Catalog_Races\<close>: the cache of the catalogue. Keys identify queries; one request at a
    time, the cached service is equivalent to the service without Redis; with interleaved requests
    (the step relation \<open>race_step\<close>) a read never misses a write that was published before it began, and the
    steps of a read that nothing interrupts are its endpoint (\<open>read_steps_are_the_endpoint\<close>). Both results need a Redis
    that can be reached: the code goes on when raising the version fails.
  \<^item> \<open>Notification\<close> (\<^verbatim>\<open>config.py\<close>, \<^verbatim>\<open>main.py\<close>) and \<open>Event_Audit\<close>: the event consumer. Shown: handling a message refines
    one step of the abstract trail (one document per message id), messages are acknowledged whatever MongoDB
    does, an outage of RabbitMQ is survived, an invalid body ends the process, time stamps keep their instant.
  \<^item> \<open>Py_Values\<close>, \<open>Smoke_Tests\<close> (the four scripts), \<open>Smoke_Checks\<close>, \<open>Audit_Check\<close>: the state of a run keeps every call
    with its reply, so that success can be read as evidence. Shown: what a run that exits with 0 has seen (sign-out really
    revokes, the three order flows, the audit document), the payment loop, a bound on the requests of the checkout test, and the end
    of the wait for the audit document (\<open>poll_audit\<close>, a partial function in the option monad). Texts whose JSON is outside the
    model are left to the environment (\<open>se_json\<close>).
  \<^item> \<open>Web\<close>, \<open>Applications\<close>, \<open>Routing\<close>: the web framework as a locale (\<open>web_framework\<close>), the applications of the user and the
    product service (\<^verbatim>\<open>main.py\<close>, the route decorators of \<^verbatim>\<open>api/routes.py\<close>, the JSON of \<^verbatim>\<open>schemas\<close>), and which path reaches which
    endpoint. Shown: every endpoint is reachable.
  \<^item> \<open>Shop\<close>, \<open>Perimeter\<close>: the gateway application in front of both services, as one function \<open>system_request\<close> on the state
    of the whole system. Shown: for paths without literal dot segments, escaped or not, the internal endpoints are out of reach, administration
    needs a verified administrator and the catalogue changes for nobody else; with dot segments anyone can take stock.
  \<^item> \<open>Session_Steps\<close>, \<open>Session_Calls\<close>, \<open>Session_Flow\<close>: the session smoke test (\<^verbatim>\<open>smoke-test-phase2.py\<close>) run against
    \<open>system_request\<close>, with a client in between (\<open>url_client\<close>). Shown: each of its requests has the answer the endpoint
    gives, through the gateway, and on a system that is up the script exits with 0. The locale \<open>shop\<close> puts the
    contracts of the parts together, \<open>session\<close> adds what the run relies on.
  \<^item> \<open>Sessions\<close> and this theory: tokens of the user service at the gateway: accepted, refused after sign-out, other sessions untouched.

  \<^bold>\<open>How the code is modelled.\<close> A function of the source is a definition of the same name, with a prefix
  where services share a name (\<open>gw_\<close>, \<open>us_\<close>, \<open>ps_\<close>). Classes are records, exceptions are values of \<open>py_exc\<close>, and a function
  with effects is a \<open>prog\<close>: it maps a state to a result or an exception and the state after it. Code that is
  not in the repository is a field of the environment records \<open>gateway_env\<close>, \<open>user_env\<close>, \<open>product_env\<close>,
  \<open>notification_env\<close> and \<open>smoke_env\<close>; what is needed of it are the laws of the locales, and every locale is interpreted on a
  reference instance for the witnesses. Times are microseconds.

  \<^bold>\<open>Bounds and fuel.\<close> Strings range over the code points below 256, where the upper limits of MySQL's text
  columns and of \<^verbatim>\<open>int(str)\<close> (4300 digits) are kept; Redis counters are 64-bit. The JSON parser has the length of
  its input as fuel, which the round trip shows to be enough. \<open>consume_forever\<close> takes a bound on connections and
  deliveries; \<open>outage_is_survived\<close> gives a bound that suffices. \<open>poll_audit\<close> is \<open>None\<close> when it does not end; \<open>audit_wait_ends\<close>
  shows that it does. All other recursions are structural or have a measure.

  \<^bold>\<open>Not modelled.\<close> What FastAPI, Starlette and httpx do themselves is a parameter of the model (\<open>web_lib\<close>): matching a
  template, converting parameters, the CORS headers, documentation and metrics pages, and the way a path takes through httpx and
  uvicorn (\<open>wl_deliver\<close>: cut at the first \<^verbatim>\<open>?\<close> or \<^verbatim>\<open>#\<close>, dot segments resolved, escapes kept and then decoded; the law
  \<open>deliver_law\<close> is what the perimeter needs of it). The path of a request is one text, the \<^verbatim>\<open>request.url.path\<close> of the
  sources, for the routes and for the handlers. SQLAlchemy's engine settings; the columns only
  MySQL writes; the order service, the Go gateway, the web frontend (other languages); deployment files and unit
  tests.
\<close>

section \<open>Sign-in and sign-out across the user service and the gateway\<close>

text \<open>
  C10: A token issued by login is accepted by the gateway until its expiry, as the user id, user
  name and role of the account that signed in, as long as it is not revoked.
\<close>

theorem gateway_accepts_login_token:
  assumes "jwt_codec (ue_jwt E)" and "gateway_shares G E" and "fst (login E username password d) = Inr resp"
    and "\<bar>lp_user_id resp\<bar> \<le> int64_max" and "\<bar>token_expiry E\<bar> \<le> int64_max"
    and "ge_now G < token_expiry E * second"
    and "fst (gw_is_token_blacklisted G (lp_access_token resp) s) = False"
  shows "fst (gw_get_current_user G (Some (bearer (lp_access_token resp))) s) =
     Inr (Some \<lparr>cu_user_id = lp_user_id resp, cu_username = lp_username resp, cu_role = lp_role resp\<rparr>)"
proof -
  note t = login_issues_token(1) [OF assms(3)]
  have ne: "lp_access_token resp \<noteq> []" by (rule login_issues_token(2) [OF assms(3,1)])
  have "jwt_decode (ge_jwt G) (ge_now G) (lp_access_token resp) (gw_jwt_secret (ge_settings G))
      [gw_jwt_algorithm (ge_settings G)] = Some (access_token_claims E (lp_user_id resp) (lp_username resp) (lp_role resp))"
    using access_token_decodes [OF assms(1,4,5), of "ge_now G" "lp_username resp" "lp_role resp"] assms(2,6)
    by (simp add: gateway_shares_def t)
  then have "fst (gw_decode_token G (lp_access_token resp) s) =
      Inr \<lparr>cu_user_id = lp_user_id resp, cu_username = lp_username resp, cu_role = lp_role resp\<rparr>"
    using assms(7)
    by (auto simp: gw_decode_token_def access_token_claims_def dict_item_def dict_get_def split: prod.splits)
  then show ?thesis using gw_user_of_token [OF assms(7) ne] by simp
qed

text \<open>
  C11: If Redis is reachable at logout and from then on, and the gateway and the user service
  share its data, the clock and the signing secret, then after logout in the user service the
  gateway answers 401 to the token at every later time up to one second before its expiry.
\<close>

theorem logout_revokes_at_gateway:
  assumes "user_redis E view clock up steady elapse" and "gateway_shares G E"
    and "steady s" and "ue_now E = clock s" and "dict_get claims ''exp'' = Some (PInt x)"
    and "logout E token claims s = (r, s')" and "token \<noteq> []"
    and "0 \<le> t" and "clock s + t \<le> x * second - second"
  shows "fst (gw_get_current_user G (Some (bearer token)) (elapse t s')) =
           Inl (http_error 401 ''Access token has been revoked'')"
proof -
  note run = user_redis.logout_run [OF assms(1,3,5,6,8)]
  note srv = user_redis.axioms(1) [OF assms(1)]
  have "clock s + t < clock s + blacklist_ttl (ue_now E) x * second"
    using blacklist_ttl_bounds(1) [of "clock s" x] assms(4,8,9) by simp
  note key = run(3) [OF this]
  have "steady (elapse t s')" using redis_server.elapse_steady [OF srv run(2)] .
  from implements_up(1) [OF redis_server.get_law [OF srv] redis_server.steady_up [OF srv this], of "us_blacklist_key token"]
  have "fst (gw_is_token_blacklisted G token (elapse t s')) = True"
    using key assms(2)
    by (simp add: gw_is_token_blacklisted_def gw_safe_execute_def gw_get_redis_client_def gateway_shares_def
        safe_execute_Some case_prod_unfold ks_get_def gw_blacklist_key_def us_blacklist_key_def)
  then show ?thesis using gw_user_of_token [OF _ assms(7), of G _ True] by simp
qed

text \<open>
  C12: Logout of one session does not touch the others: for every token with another SHA-256
  digest the gateway gives, at every later time, the answer it would have given without the
  logout.
\<close>

theorem logout_leaves_other_sessions:
  assumes "user_redis E view clock up steady elapse" and "gateway_shares G E" and "steady s"
    and "dict_get claims ''exp'' = Some (PInt x)" and "logout E token claims s = (r, s')"
    and "sha256_hexdigest other \<noteq> sha256_hexdigest token" and "0 \<le> t"
  shows "fst (gw_get_current_user G (Some (bearer other)) (elapse t s')) = fst (gw_get_current_user G (Some (bearer other)) (elapse t s))"
proof -
  note srv = user_redis.axioms(1) [OF assms(1)]
  obtain s1 where s1: "blacklist_token E token x s = (Inr (), s1)" "steady s1" "clock s1 = clock s"
    "view s1 = (view s)(us_blacklist_key token \<mapsto> (RStr ''1'', Some (clock s + blacklist_ttl (ue_now E) x * second)))"
    using user_redis.blacklist_token_run [OF assms(1,3)] by blast
  then have "s' = s1" using assms(4,5) by (simp add: logout_def revoke_token_def exp_timestamp_of_def bind_prog_def)
  have "us_blacklist_key other \<noteq> us_blacklist_key token" using assms(6) by (simp add: us_blacklist_key_def)
  then have "view (elapse t s1) (us_blacklist_key other) = view (elapse t s) (us_blacklist_key other)"
    using redis_server.elapse_view [OF srv assms(7)] s1(3,4) by (simp add: purge_def)
  then have "fst (gw_is_token_blacklisted G other (elapse t s1)) = fst (gw_is_token_blacklisted G other (elapse t s))"
    using gw_blacklisted_view [OF assms(1,2)] redis_server.elapse_steady [OF srv] s1(2) assms(3) by simp
  then show ?thesis unfolding \<open>s' = s1\<close> by (rule gw_answer_cong)
qed

theorem gateway_accepts_login_token_witness:
  "fst (gw_get_current_user ref_gateway_env
          (Some (bearer (lp_access_token (login_response_for ref_user_env alice)))) fresh_redis) =
     Inr (Some \<lparr>cu_user_id = 7, cu_username = ''alice'', cu_role = ''USER''\<rparr>)"
proof -
  have "token_expiry ref_user_env = 7200"
    by (simp add: token_expiry_def ref_user_env_def user_default_settings_def)
  moreover have "ge_now ref_gateway_env = 0" by (simp add: ref_gateway_env_def)
  ultimately show ?thesis
    using gateway_accepts_login_token [OF ref_user_facts(8) ref_gateway_shares alice_login, of fresh_redis]
    by (simp add: login_response_for_def alice_def)
qed

theorem logout_revokes_at_gateway_witness:
  "\<exists>r s'. logout ref_user_env ''t'' [(''exp'', PInt 7200)] ref_user_redis = (r, s') \<and>
     fst (gw_get_current_user ref_gateway_env (Some (bearer ''t'')) (rr_elapse (60 * second) s')) =
       Inl (http_error 401 ''Access token has been revoked'')"
proof -
  obtain r s' where run: "logout ref_user_env ''t'' [(''exp'', PInt 7200)] ref_user_redis = (r, s')" by fastforce
  have "rr_clock ref_user_redis = 500000" by (simp add: ref_user_redis_def)
  then show ?thesis
    using logout_revokes_at_gateway [OF ref_ur.user_redis_axioms ref_gateway_shares ref_user_facts(6,7) _ run, of 7200 "60 * second"]
      run by (simp add: dict_get_def)
qed

lemma other_digest: "sha256_hexdigest ''t2'' \<noteq> sha256_hexdigest ''abc''"
  unfolding sha256_abc by code_simp

theorem logout_leaves_other_sessions_witness:
  "\<exists>r s'. logout ref_user_env ''abc'' [(''exp'', PInt 7200)] ref_user_redis = (r, s') \<and>
     fst (gw_get_current_user ref_gateway_env (Some (bearer ''t2'')) (rr_elapse (60 * second) s')) =
     fst (gw_get_current_user ref_gateway_env (Some (bearer ''t2'')) (rr_elapse (60 * second) ref_user_redis))"
proof -
  obtain r s' where run: "logout ref_user_env ''abc'' [(''exp'', PInt 7200)] ref_user_redis = (r, s')" by fastforce
  show ?thesis
    using logout_leaves_other_sessions [OF ref_ur.user_redis_axioms ref_gateway_shares ref_user_facts(6) _ run other_digest, of 7200 "60 * second"]
      run by (simp add: dict_get_def)
qed

end
